theory Spec2Isabelle
  imports Complex_Main "HOL-Library.Multiset"
begin

section \<open>Values of the battle engine\<close>

text \<open>
  The engine (battleManager.js, abilities.js, constants.js and the command validator of the
  server) is JavaScript. Its values are embedded as follows.

  \<^item> Numbers that are stats are integers (the data model of the engine), small enough for a
    JavaScript number to hold them exactly; a stat that is missing or not a number is
    \<open>None\<close>, so every \<open>typeof x === "number"\<close> guard of the source is a case distinction
    here. The damage formula multiplies by 0.6 and by the elemental multiplier in floating
    point: \<open>binary64\<close> below rounds the exact result of an operation the way IEEE 754 does
    for doubles, and the damage formula applies it after every operation. The heal formula
    (times 1.1 and times the multiplier) is computed over the rationals, i.e. with the exact
    value of each product.
  \<^item> A string is a list of Isabelle characters, i.e. of code units below 256.
  \<^item> A Stats object and a statusEffects array are mutable and can be shared between
    combatants, so they live in a store and combatants hold addresses.
  \<^item> A combatant object itself is held by value in its owner (the members of a party, the
    enemies of a battle): the only field of a combatant the engine assigns is
    \<open>statusEffects\<close>, and only when it is not an array.
  \<^item> A string-or-absent field is a \<open>string option\<close>.
\<close>

type_synonym addr = nat

record stats =
  hp :: "int option"
  maxHp :: "int option"
  mp :: "int option"
  maxMp :: "int option"
  strength :: "int option"
  defense :: "int option"
  magic :: "int option"
  speed :: "int option"
  spirit :: "int option"
  luck :: "int option"

datatype statusField = NotArray | Arr addr

record combatant =
  uid :: string
  uname :: "string option"
  uelement :: "string option"
  ustats :: "addr option"
  statusEffects :: statusField
  crystalResonance :: "(string \<times> int) list"

record party =
  pid :: "string option"
  playerId :: "string option"
  members :: "combatant list"

datatype refKind = KParty | KEnemy

record turnRef =
  rkind :: refKind
  rid :: string

datatype battleState = pending | in_progress | victory | defeat

record battle =
  bid :: string
  partyId :: string
  enemies :: "combatant list"
  turnOrder :: "turnRef list"
  activeTurnIndex :: nat
  blog :: "string list"
  state :: battleState

record command =
  ctype :: "string option"
  sourceId :: "string option"
  targetId :: "string option"
  abilityId :: "string option"

text \<open>
  The store: the Stats objects, the statusEffects arrays with the next unused array address,
  and the side map \<open>partyByBattleId\<close> of battleManager.js. (\<open>battlesById\<close> is only written by
  \<open>createBattle\<close> and read by \<open>getBattleById\<close>; no function below reads it, and a battle is
  passed and returned explicitly.)
\<close>

record world =
  statsHeap :: "addr \<Rightarrow> stats"
  arrayHeap :: "addr \<Rightarrow> string list"
  nextArray :: addr
  partyByBattleId :: "string \<rightharpoonup> party"

datatype error = TypeError string

subsection \<open>Numbers\<close>

text \<open>
  A JavaScript number is an IEEE 754 binary64 value. The finite ones are rationals, and the
  result of an arithmetic operation is the exact result rounded to the nearest value with
  53 significant bits, a tie going to the even significand. \<open>bitLength n\<close> is the number of
  binary digits of a positive integer, \<open>ilog2 x\<close> the exponent \<open>e\<close> with 2^e \<le> x < 2^(e+1)
  of a positive rational, and \<open>binary64 x\<close> the rounded value of \<open>x\<close>. The exponent is not
  bounded here: overflow to Infinity and the subnormal range are out of reach of the
  formulas on integer stats.
\<close>

function bitLength :: "int \<Rightarrow> int" where
  "bitLength n = (if n \<le> 0 then 0 else 1 + bitLength (n div 2))"
  by pat_completeness auto

termination
  by (relation "measure nat") auto

declare bitLength.simps [simp del]

definition ilog2 :: "rat \<Rightarrow> int" where
  "ilog2 x = (if 1 \<le> x then bitLength \<lfloor>x\<rfloor> - 1 else - bitLength (\<lceil>1 / x\<rceil> - 1))"

definition pow2 :: "int \<Rightarrow> rat" where
  "pow2 e = (if 0 \<le> e then 2 ^ nat e else 1 / 2 ^ nat (- e))"

definition roundEven :: "rat \<Rightarrow> int" where
  "roundEven x =
     (let n = \<lfloor>x\<rfloor>; r = x - of_int n
      in if r < 1 / 2 then n else if 1 / 2 < r then n + 1 else if even n then n else n + 1)"

definition binary64 :: "rat \<Rightarrow> rat" where
  "binary64 x =
     (if x = 0 then 0
      else (let ulp = pow2 (ilog2 \<bar>x\<bar> - 52) in of_int (roundEven (x / ulp)) * ulp))"

subsection \<open>Strings\<close>

text \<open>
  The characters that \<open>String.prototype.trim\<close> removes, among the code units below 256: tab,
  line feed, vertical tab, form feed, carriage return, space and no-break space.
\<close>

definition isWhitespace :: "char \<Rightarrow> bool" where
  "isWhitespace c =
     (c \<in> set [CHR '' '', CHR 0x09, CHR 0x0A, CHR 0x0B, CHR 0x0C, CHR 0x0D, CHR 0xA0])"

text \<open>\<open>s.trim()\<close> is truthy iff some character of \<open>s\<close> is not white space.\<close>

definition trimNonEmpty :: "string \<Rightarrow> bool" where
  "trimNonEmpty s = list_ex (\<lambda>c. \<not> isWhitespace c) s"

text \<open>A string-valued field is truthy iff it is present and not the empty string.\<close>

fun truthy :: "string option \<Rightarrow> bool" where
  "truthy None = False"
| "truthy (Some s) = (s \<noteq> [])"

definition toUpperChar :: "char \<Rightarrow> char" where
  "toUpperChar c =
     (case map_of (zip ''abcdefghijklmnopqrstuvwxyz'' ''ABCDEFGHIJKLMNOPQRSTUVWXYZ'') c of
        Some C \<Rightarrow> C | None \<Rightarrow> c)"

definition toUpperCase :: "string \<Rightarrow> string" where
  "toUpperCase s = map toUpperChar s"

definition digitChar :: "nat \<Rightarrow> char" where
  "digitChar d = ''0123456789'' ! d"

fun showNat :: "nat \<Rightarrow> string" where
  "showNat n = (if n < 10 then [digitChar n] else showNat (n div 10) @ [digitChar (n mod 10)])"

declare showNat.simps [simp del]

definition showInt :: "int \<Rightarrow> string" where
  "showInt i = (if i < 0 then ''-'' @ showNat (nat (- i)) else showNat (nat i))"

section \<open>constants.js and abilities.js\<close>

definition ELEMENT_LIST :: "string list" where
  "ELEMENT_LIST = [''LIGHT'', ''SHADOW'', ''FIRE'', ''WATER'', ''EARTH'', ''WIND'', ''NULL'']"

definition ELEMENTAL_WEAKNESS :: "string \<rightharpoonup> string" where
  "ELEMENTAL_WEAKNESS =
     [''FIRE'' \<mapsto> ''WATER'', ''WATER'' \<mapsto> ''EARTH'', ''EARTH'' \<mapsto> ''WIND'',
      ''WIND'' \<mapsto> ''FIRE'', ''LIGHT'' \<mapsto> ''SHADOW'', ''SHADOW'' \<mapsto> ''LIGHT'',
      ''NULL'' \<mapsto> ''NULL'']"

record ability =
  aid :: string
  aname :: string
  aelement :: "string option"
  mpCost :: int
  targetType :: "string option"
  apower :: int
  statusEffect :: "string option"
  classRestriction :: "string list option"
  levelRequirement :: int

definition mkAbility ::
  "string \<Rightarrow> string \<Rightarrow> string \<Rightarrow> int \<Rightarrow> string \<Rightarrow> int \<Rightarrow> string option \<Rightarrow> string list option \<Rightarrow> int
     \<Rightarrow> ability" where
  "mkAbility i n e c t p s r l =
     \<lparr>aid = i, aname = n, aelement = Some e, mpCost = c, targetType = Some t, apower = p,
      statusEffect = s, classRestriction = r, levelRequirement = l\<rparr>"

definition ABILITIES :: "ability list" where
  "ABILITIES =
    [mkAbility ''basic_attack'' ''Attack'' ''NULL'' 0 ''enemy_single'' 4 None None 1,
     mkAbility ''defend'' ''Defend'' ''NULL'' 0 ''self'' 0 None None 1,
     mkAbility ''flee'' ''Flee'' ''NULL'' 0 ''self'' 0 None None 1,
     mkAbility ''crystalborne_strike'' ''Strike'' ''NULL'' 0 ''enemy_single'' 8 None
       (Some [''CRYSTALBORNE'']) 1,
     mkAbility ''crystalborne_lumen_arc'' ''Lumen Arc'' ''LIGHT'' 4 ''enemy_single'' 11 None
       (Some [''CRYSTALBORNE'']) 1,
     mkAbility ''sage_mend'' ''Mend'' ''LIGHT'' 5 ''ally_single'' 12 None (Some [''SAGE'']) 1,
     mkAbility ''sage_barrier'' ''Barrier'' ''LIGHT'' 6 ''ally_single'' 0 None (Some [''SAGE'']) 2,
     mkAbility ''sage_scan'' ''Scan'' ''NULL'' 2 ''enemy_single'' 0 None (Some [''SAGE'']) 1,
     mkAbility ''knight_taunt'' ''Taunt'' ''NULL'' 3 ''enemy_all'' 0 None (Some [''KNIGHT'']) 1,
     mkAbility ''knight_heavy_strike'' ''Heavy Strike'' ''NULL'' 2 ''enemy_single'' 14 None
       (Some [''KNIGHT'']) 1,
     mkAbility ''aeromancer_gale_sweep'' ''Gale Sweep'' ''WIND'' 6 ''enemy_all'' 9 None
       (Some [''AEROMANCER'']) 1,
     mkAbility ''aeromancer_chain_spark'' ''Chain Spark'' ''WIND'' 5 ''enemy_single'' 13 None
       (Some [''AEROMANCER'']) 2,
     mkAbility ''aeromancer_haste'' ''Haste'' ''WIND'' 4 ''ally_single'' 0 None
       (Some [''AEROMANCER'']) 1,
     mkAbility ''umbramancer_venom_hex'' ''Venom Hex'' ''SHADOW'' 4 ''enemy_single'' 6
       (Some ''POISON'') (Some [''UMBRAMANCER'']) 1,
     mkAbility ''umbramancer_sunder_ward'' ''Sunder Ward'' ''SHADOW'' 5 ''enemy_single'' 8
       (Some ''WEAKEN'') (Some [''UMBRAMANCER'']) 2,
     mkAbility ''crystal_knight_crystal_blade'' ''Crystal Blade'' ''LIGHT'' 3 ''enemy_single'' 12
       None (Some [''CRYSTAL_KNIGHT'']) 1,
     mkAbility ''crystal_knight_prismatic_aegis'' ''Prismatic Aegis'' ''LIGHT'' 7 ''party'' 0 None
       (Some [''CRYSTAL_KNIGHT'']) 2]"

text \<open>
  \<open>ABILITIES_BY_ID\<close> is a plain frozen object built by \<open>reduce\<close>, so \<open>ABILITIES_BY_ID[k]\<close> is
  the catalog entry with id \<open>k\<close> (the last one, were an id repeated) and, for a key \<open>k\<close> that
  is no id but a property of \<open>Object.prototype\<close>, the inherited value. Such a value is truthy
  and has none of the ability fields: \<open>mpCost\<close>, \<open>power\<close>, \<open>targetType\<close>, \<open>element\<close> and
  \<open>statusEffect\<close> read as \<open>undefined\<close>, which fails every \<open>> 0\<close> test and every comparison
  with a string, exactly as cost 0, power 0 and absent fields do; \<open>name\<close> is the function's
  name, or \<open>undefined\<close> (printed "undefined") for the object behind \<open>__proto__\<close>.
\<close>

definition inheritedKeys :: "(string \<times> string) list" where
  "inheritedKeys =
     [(''constructor'', ''Object''), (''toString'', ''toString''),
      (''toLocaleString'', ''toLocaleString''), (''valueOf'', ''valueOf''),
      (''hasOwnProperty'', ''hasOwnProperty''), (''isPrototypeOf'', ''isPrototypeOf''),
      (''propertyIsEnumerable'', ''propertyIsEnumerable''),
      (''__defineGetter__'', ''__defineGetter__''), (''__defineSetter__'', ''__defineSetter__''),
      (''__lookupGetter__'', ''__lookupGetter__''), (''__lookupSetter__'', ''__lookupSetter__''),
      (''__proto__'', ''undefined'')]"

definition inheritedValue :: "string \<Rightarrow> string \<Rightarrow> ability" where
  "inheritedValue k n =
     \<lparr>aid = k, aname = n, aelement = None, mpCost = 0, targetType = None, apower = 0,
      statusEffect = None, classRestriction = None, levelRequirement = 0\<rparr>"

definition ownAbility :: "string \<rightharpoonup> ability" where
  "ownAbility = fold (\<lambda>a acc. acc(aid a \<mapsto> a)) ABILITIES Map.empty"

definition ABILITIES_BY_ID :: "string \<rightharpoonup> ability" where
  "ABILITIES_BY_ID k =
     (case ownAbility k of
        Some a \<Rightarrow> Some a
      | None \<Rightarrow> map_option (inheritedValue k) (map_of inheritedKeys k))"

text \<open>\<open>typeof abilityId === "string" ? ABILITIES_BY_ID[abilityId] : null\<close>\<close>

definition lookupAbility :: "string option \<Rightarrow> ability option" where
  "lookupAbility key = (case key of None \<Rightarrow> None | Some k \<Rightarrow> ABILITIES_BY_ID k)"

section \<open>battleManager.js\<close>

subsection \<open>Reading a combatant\<close>

definition statsOf :: "world \<Rightarrow> combatant \<Rightarrow> stats option" where
  "statsOf w u = map_option (statsHeap w) (ustats u)"

text \<open>\<open>unit?.stats?.f\<close> when it is a number.\<close>

definition statOf :: "(stats \<Rightarrow> int option) \<Rightarrow> world \<Rightarrow> combatant \<Rightarrow> int option" where
  "statOf f w u = (case statsOf w u of None \<Rightarrow> None | Some s \<Rightarrow> f s)"

definition numOr0 :: "int option \<Rightarrow> int" where
  "numOr0 v = (case v of Some n \<Rightarrow> n | None \<Rightarrow> 0)"

definition getUnitSpeed :: "world \<Rightarrow> combatant \<Rightarrow> int" where
  "getUnitSpeed w u = numOr0 (statOf speed w u)"

definition getUnitName :: "combatant option \<Rightarrow> string" where
  "getUnitName u =
     (case u of
        None \<Rightarrow> ''Unknown''
      | Some x \<Rightarrow>
          (case uname x of
             Some n \<Rightarrow> if trimNonEmpty n then n else uid x
           | None \<Rightarrow> uid x))"

text \<open>
  The loop of \<open>getUnitElement\<close> over \<open>Object.entries(cr)\<close>: the entries in iteration order
  (those whose value is a number), the best element and value so far (\<open>None\<close> for
  \<open>null\<close> and \<open>-Infinity\<close>).
\<close>

fun bestResonance :: "(string \<times> int) list \<Rightarrow> (string \<times> int) option \<Rightarrow> (string \<times> int) option" where
  "bestResonance [] best = best"
| "bestResonance ((k, v) # rest) best =
     (let normalized = toUpperCase k in
      if normalized \<notin> set ELEMENT_LIST then bestResonance rest best
      else if (case best of None \<Rightarrow> True | Some (_, bestValue) \<Rightarrow> v > bestValue)
        then bestResonance rest (Some (normalized, v))
        else bestResonance rest best)"

definition getUnitElement :: "combatant \<Rightarrow> string option" where
  "getUnitElement u =
     (if (case uelement u of Some e \<Rightarrow> trimNonEmpty e | None \<Rightarrow> False) then uelement u
      else map_option fst (bestResonance (crystalResonance u) None))"

text \<open>The multiplier as the decimal literal that the source returns.\<close>

fun elementalMultiplier :: "string option \<Rightarrow> string option \<Rightarrow> rat" where
  "elementalMultiplier (Some abilityElement) (Some targetElement) =
     (if abilityElement = [] \<or> abilityElement = ''NULL'' then 1
      else if targetElement = [] \<or> targetElement = ''NULL'' then 1
      else if ELEMENTAL_WEAKNESS targetElement = Some abilityElement then 5 / 4
      else if ELEMENTAL_WEAKNESS abilityElement = Some targetElement then 3 / 4
      else if abilityElement = targetElement then 9 / 10
      else 1)"
| "elementalMultiplier _ _ = 1"

definition clampHp :: "stats \<Rightarrow> stats" where
  "clampHp s =
     (case (maxHp s, hp s) of
        (Some m, Some h) \<Rightarrow> s\<lparr>hp := Some (max 0 (min m h))\<rparr>
      | _ \<Rightarrow> s)"

definition getPartyForBattle :: "world \<Rightarrow> string \<Rightarrow> party option" where
  "getPartyForBattle w battleId = partyByBattleId w battleId"

definition partyMembers :: "world \<Rightarrow> battle \<Rightarrow> combatant list" where
  "partyMembers w b = (case getPartyForBattle w (bid b) of Some p \<Rightarrow> members p | None \<Rightarrow> [])"

definition findUnitInBattle :: "world \<Rightarrow> battle \<Rightarrow> string option \<Rightarrow> (refKind \<times> combatant) option" where
  "findUnitInBattle w b unitId =
     (case find (\<lambda>m. Some (uid m) = unitId) (partyMembers w b) of
        Some partyUnit \<Rightarrow> Some (KParty, partyUnit)
      | None \<Rightarrow>
          (case find (\<lambda>e. Some (uid e) = unitId) (enemies b) of
             Some enemyUnit \<Rightarrow> Some (KEnemy, enemyUnit)
           | None \<Rightarrow> None))"

definition getUnitHp :: "world \<Rightarrow> combatant \<Rightarrow> int" where
  "getUnitHp w u = numOr0 (statOf hp w u)"

definition isAlive :: "world \<Rightarrow> combatant \<Rightarrow> bool" where
  "isAlive w u = (getUnitHp w u > 0)"

subsection \<open>Turn order\<close>

record entry =
  eref :: turnRef
  espeed :: int
  etie :: string

text \<open>
  \<open>Array.prototype.sort\<close> is stable; for a comparator that is a total preorder its result is
  the stable sorted arrangement, which insertion from the right computes. The comparator
  of the source calls \<open>String.prototype.localeCompare\<close>, a collation of the platform: it is
  the parameter \<open>localeCompare\<close> of every function that sorts.
\<close>

fun insertBy :: "('a \<Rightarrow> 'a \<Rightarrow> int) \<Rightarrow> 'a \<Rightarrow> 'a list \<Rightarrow> 'a list" where
  "insertBy cmp x [] = [x]"
| "insertBy cmp x (y # ys) = (if cmp x y \<le> 0 then x # y # ys else y # insertBy cmp x ys)"

definition sortBy :: "('a \<Rightarrow> 'a \<Rightarrow> int) \<Rightarrow> 'a list \<Rightarrow> 'a list" where
  "sortBy cmp xs = foldr (insertBy cmp) xs []"

definition compareEntries :: "(string \<Rightarrow> string \<Rightarrow> int) \<Rightarrow> entry \<Rightarrow> entry \<Rightarrow> int" where
  "compareEntries localeCompare a b =
     (if espeed b \<noteq> espeed a then espeed b - espeed a else localeCompare (etie a) (etie b))"

definition partyEntry :: "world \<Rightarrow> combatant \<Rightarrow> entry" where
  "partyEntry w m =
     \<lparr>eref = \<lparr>rkind = KParty, rid = uid m\<rparr>, espeed = getUnitSpeed w m, etie = ''p_'' @ uid m\<rparr>"

definition enemyEntry :: "world \<Rightarrow> combatant \<Rightarrow> entry" where
  "enemyEntry w e =
     \<lparr>eref = \<lparr>rkind = KEnemy, rid = uid e\<rparr>, espeed = getUnitSpeed w e, etie = ''e_'' @ uid e\<rparr>"

definition turnEntries :: "world \<Rightarrow> party option \<Rightarrow> combatant list option \<Rightarrow> entry list" where
  "turnEntries w p es =
     (let membersList = (case p of Some q \<Rightarrow> members q | None \<Rightarrow> []);
          foeList = (case es of Some l \<Rightarrow> l | None \<Rightarrow> [])
      in map (partyEntry w) (filter (isAlive w) membersList)
         @ map (enemyEntry w) (filter (isAlive w) foeList))"

definition calculateInitialTurnOrder ::
  "(string \<Rightarrow> string \<Rightarrow> int) \<Rightarrow> world \<Rightarrow> party option \<Rightarrow> combatant list option \<Rightarrow> turnRef list" where
  "calculateInitialTurnOrder localeCompare w p es =
     map eref (sortBy (compareEntries localeCompare) (turnEntries w p es))"

subsection \<open>createBattle\<close>

definition pushLog :: "battle \<Rightarrow> string \<Rightarrow> battle" where
  "pushLog b line = b\<lparr>blog := blog b @ [line]\<rparr>"

text \<open>The spread \<open>{ ...e }\<close>: a new combatant object with the same field values.\<close>

definition spread :: "combatant \<Rightarrow> combatant" where
  "spread e =
     \<lparr>uid = uid e, uname = uname e, uelement = uelement e, ustats = ustats e,
      statusEffects = statusEffects e, crystalResonance = crystalResonance e\<rparr>"

text \<open>\<open>newId\<close> is the value of \<open>makeBattleId()\<close> (random and clock dependent).\<close>

definition createBattle ::
  "(string \<Rightarrow> string \<Rightarrow> int) \<Rightarrow> world \<Rightarrow> party option \<Rightarrow> combatant list option \<Rightarrow> string
     \<Rightarrow> error + world \<times> battle" where
  "createBattle localeCompare w p es newId =
     (case p of
        None \<Rightarrow> Inl (TypeError ''createBattle: party must have an id'')
      | Some q \<Rightarrow>
          (case pid q of
             None \<Rightarrow> Inl (TypeError ''createBattle: party must have an id'')
           | Some partyIdent \<Rightarrow>
               (case es of
                  None \<Rightarrow> Inl (TypeError ''createBattle: enemies must be an array'')
                | Some foes \<Rightarrow>
                    (let order = calculateInitialTurnOrder localeCompare w p es;
                         b0 = \<lparr>bid = newId, partyId = partyIdent, enemies = map spread foes,
                               turnOrder = order, activeTurnIndex = 0,
                               blog = [''Battle '' @ newId @ '' created.''], state = pending\<rparr>;
                         w1 = w\<lparr>partyByBattleId := (partyByBattleId w)(newId \<mapsto> q)\<rparr>;
                         b1 = b0\<lparr>state := (if length (turnOrder b0) > 0 then in_progress else defeat)\<rparr>;
                         b2 = (if state b1 = in_progress then pushLog b1 ''Battle started.'' else b1)
                     in Inr (w1, b2)))))"

subsection \<open>State of a battle\<close>

definition activeRef :: "battle \<Rightarrow> turnRef option" where
  "activeRef b =
     (if turnOrder b = [] then None
      else Some (turnOrder b ! (activeTurnIndex b mod length (turnOrder b))))"

definition getActiveUnit :: "world \<Rightarrow> battle \<Rightarrow> combatant option" where
  "getActiveUnit w b =
     (case activeRef b of
        None \<Rightarrow> None
      | Some r \<Rightarrow>
          (case rkind r of
             KEnemy \<Rightarrow> find (\<lambda>e. uid e = rid r) (enemies b)
           | KParty \<Rightarrow> find (\<lambda>m. uid m = rid r) (partyMembers w b)))"

definition recomputeState :: "world \<Rightarrow> battle \<Rightarrow> battleState" where
  "recomputeState w b =
     (let partyAlive = list_ex (isAlive w) (partyMembers w b);
          enemiesAlive = list_ex (isAlive w) (enemies b)
      in if \<not> partyAlive then defeat
         else if \<not> enemiesAlive then victory
         else in_progress)"

definition pruneDeadFromTurnOrder :: "world \<Rightarrow> battle \<Rightarrow> battle" where
  "pruneDeadFromTurnOrder w b =
     (let alivePartyIds = set (map uid (filter (isAlive w) (partyMembers w b)));
          aliveEnemyIds = set (map uid (filter (isAlive w) (enemies b)));
          kept = filter (\<lambda>r. case rkind r of
                               KParty \<Rightarrow> rid r \<in> alivePartyIds
                             | KEnemy \<Rightarrow> rid r \<in> aliveEnemyIds) (turnOrder b)
      in b\<lparr>turnOrder := kept,
           activeTurnIndex := (if kept = [] then 0 else activeTurnIndex b mod length kept)\<rparr>)"

subsection \<open>executeCommand\<close>

definition updStats :: "world \<Rightarrow> combatant \<Rightarrow> (stats \<Rightarrow> stats) \<Rightarrow> world" where
  "updStats w u f =
     (case ustats u of
        None \<Rightarrow> w
      | Some a \<Rightarrow> w\<lparr>statsHeap := (statsHeap w)(a := f (statsHeap w a))\<rparr>)"

text \<open>The MP cost block: the line logged on failure, or the store after the deduction.\<close>

definition payMpCost :: "world \<Rightarrow> ability \<Rightarrow> combatant \<Rightarrow> string + world" where
  "payMpCost w a source =
     (if mpCost a > 0 then
        (case statOf mp w source of
           None \<Rightarrow> Inl (getUnitName (Some source) @ '' failed to cast '' @ aname a @ ''.'')
         | Some m \<Rightarrow>
             if m < mpCost a
             then Inl (getUnitName (Some source) @ '' tried '' @ aname a @ '' but lacked MP.'')
             else Inr (updStats w source (\<lambda>s. s\<lparr>mp := Some (max 0 (m - mpCost a))\<rparr>)))
      else Inr w)"

definition isHealingTarget :: "ability \<Rightarrow> bool" where
  "isHealingTarget a =
     (targetType a = Some ''ally_single'' \<or> targetType a = Some ''party''
      \<or> targetType a = Some ''self'')"

definition healAmount :: "world \<Rightarrow> ability \<Rightarrow> combatant \<Rightarrow> combatant \<Rightarrow> int" where
  "healAmount w a source target =
     (let sourceMag = numOr0 (statOf magic w source);
          mult = elementalMultiplier (aelement a) (getUnitElement target)
      in max 1 \<lfloor>(of_int (apower a) + of_int sourceMag * (11 / 10)) * mult\<rfloor>)"

text \<open>
  The damage amount, in the arithmetic of the source: the literals 0.6 and the multiplier
  are doubles, and the sum, the two products and the difference are rounded.
\<close>

definition damageAmount :: "world \<Rightarrow> ability \<Rightarrow> combatant \<Rightarrow> combatant \<Rightarrow> int" where
  "damageAmount w a source target =
     (let sourceStr = numOr0 (statOf strength w source);
          sourceMag = numOr0 (statOf magic w source);
          targetDef = numOr0 (statOf defense w target);
          targetSpi = numOr0 (statOf spirit w target);
          mult = binary64 (elementalMultiplier (aelement a) (getUnitElement target));
          offense = binary64 (of_int ((if aelement a = Some ''NULL'' then sourceStr else sourceMag)
                                      + apower a));
          mitigation = binary64 (of_int (if aelement a = Some ''NULL'' then targetDef else targetSpi)
                                 * binary64 (6 / 10))
      in max 1 \<lfloor>binary64 (binary64 (offense - mitigation) * mult)\<rfloor>)"

text \<open>The heal or damage block: the store, \<open>amount\<close> and \<open>verb\<close> after it.\<close>

definition applyPower :: "world \<Rightarrow> ability \<Rightarrow> combatant \<Rightarrow> combatant \<Rightarrow> world \<times> int \<times> string" where
  "applyPower w a source target =
     (if apower a > 0 \<and> isHealingTarget a then
        (let amount = healAmount w a source target
         in ((case statOf hp w target of
                Some h \<Rightarrow> updStats w target (\<lambda>s. clampHp (s\<lparr>hp := Some (h + amount)\<rparr>))
              | None \<Rightarrow> w), amount, ''cast''))
      else if apower a > 0 then
        (let amount = damageAmount w a source target
         in ((case statOf hp w target of
                Some h \<Rightarrow> updStats w target (\<lambda>s. clampHp (s\<lparr>hp := Some (max 0 (h - amount))\<rparr>))
              | None \<Rightarrow> w), amount, ''used''))
      else (w, 0, ''used''))"

fun updateFirst :: "('a \<Rightarrow> bool) \<Rightarrow> ('a \<Rightarrow> 'a) \<Rightarrow> 'a list \<Rightarrow> 'a list" where
  "updateFirst P f [] = []"
| "updateFirst P f (x # xs) = (if P x then f x # xs else x # updateFirst P f xs)"

text \<open>
  The assignment \<open>target.statusEffects = v\<close> to the combatant that \<open>findUnitInBattle\<close>
  returned: the first one with that id among the party members or among the enemies.
\<close>

definition setStatusField :: "world \<Rightarrow> battle \<Rightarrow> refKind \<Rightarrow> string \<Rightarrow> statusField \<Rightarrow> world \<times> battle" where
  "setStatusField w b k ident v =
     (case k of
        KEnemy \<Rightarrow>
          (w, b\<lparr>enemies := updateFirst (\<lambda>e. uid e = ident) (\<lambda>e. e\<lparr>statusEffects := v\<rparr>) (enemies b)\<rparr>)
      | KParty \<Rightarrow>
          (case partyByBattleId w (bid b) of
             None \<Rightarrow> (w, b)
           | Some p \<Rightarrow>
               (w\<lparr>partyByBattleId := (partyByBattleId w)(bid b \<mapsto>
                     p\<lparr>members := updateFirst (\<lambda>m. uid m = ident)
                                     (\<lambda>m. m\<lparr>statusEffects := v\<rparr>) (members p)\<rparr>)\<rparr>, b)))"

definition pushStatus :: "world \<Rightarrow> addr \<Rightarrow> string \<Rightarrow> world" where
  "pushStatus w a tag =
     (if tag \<in> set (arrayHeap w a) then w
      else w\<lparr>arrayHeap := (arrayHeap w)(a := arrayHeap w a @ [tag])\<rparr>)"

definition applyStatus :: "world \<Rightarrow> battle \<Rightarrow> ability \<Rightarrow> refKind \<Rightarrow> combatant \<Rightarrow> world \<times> battle" where
  "applyStatus w b a k target =
     (case statusEffect a of
        None \<Rightarrow> (w, b)
      | Some tag \<Rightarrow>
          if tag = [] then (w, b)
          else
            (case statusEffects target of
               Arr ad \<Rightarrow> (pushStatus w ad tag, b)
             | NotArray \<Rightarrow>
                 (let ad = nextArray w;
                      w1 = w\<lparr>arrayHeap := (arrayHeap w)(ad := []), nextArray := Suc ad\<rparr>;
                      (w2, b2) = setStatusField w1 b k (uid target) (Arr ad)
                  in (pushStatus w2 ad tag, b2))))"

definition actionLine :: "ability \<Rightarrow> combatant \<Rightarrow> combatant \<Rightarrow> int \<Rightarrow> string \<Rightarrow> string" where
  "actionLine a source target amount verb =
     (let sourceName = getUnitName (Some source);
          targetName = getUnitName (Some target);
          delta = (if amount > 0
                   then (if isHealingTarget a then ''+'' @ showInt amount @ '' HP''
                         else ''-'' @ showInt amount @ '' HP'')
                   else []);
          statusPart = (case statusEffect a of
                          Some tag \<Rightarrow> if tag = [] then [] else '' ('' @ tag @ '')''
                        | None \<Rightarrow> [])
      in sourceName @ '' '' @ verb @ '' '' @ aname a @ '' on '' @ targetName
         @ (if delta \<noteq> [] then '' '' @ delta else []) @ statusPart @ ''.'')"

text \<open>The cleanup and win/loss checks that end a resolved action.\<close>

definition settle :: "world \<Rightarrow> battle \<Rightarrow> battle" where
  "settle w b =
     (let b1 = pruneDeadFromTurnOrder w b;
          nextState = recomputeState w b1
      in if nextState \<noteq> state b1 then
           (let b2 = b1\<lparr>state := nextState\<rparr>;
                b3 = (if nextState = victory then pushLog b2 ''Victory!'' else b2)
            in if nextState = defeat then pushLog b3 ''Defeat.'' else b3)
         else b1)"

text \<open>The body of \<open>executeCommand\<close> for a battle and a command that are present.\<close>

definition execute :: "world \<Rightarrow> battle \<Rightarrow> command \<Rightarrow> world \<times> battle" where
  "execute w b c =
     (if state b \<noteq> in_progress then (w, b)
      else
        (case lookupAbility (abilityId c) of
           None \<Rightarrow> (w, pushLog b ''Invalid command: unknown ability.'')
         | Some a \<Rightarrow>
             if abilityId c = Some ''flee'' then
               (let sourceName = getUnitName (map_option snd (findUnitInBattle w b (sourceId c)))
                in (w, (pushLog b (sourceName @ '' fled.''))\<lparr>state := defeat\<rparr>))
             else if (case activeRef b of None \<Rightarrow> True | Some r \<Rightarrow> Some (rid r) \<noteq> sourceId c) then
               (w, pushLog b ''Invalid command: not active unit.'')
             else
               (case (findUnitInBattle w b (sourceId c), findUnitInBattle w b (targetId c)) of
                  (Some (sk, source), Some (tk, target)) \<Rightarrow>
                    (case payMpCost w a source of
                       Inl failure \<Rightarrow> (w, pushLog b failure)
                     | Inr w1 \<Rightarrow>
                         (let (w2, amount, verb) = applyPower w1 a source target;
                              (w3, b3) = applyStatus w2 b a tk target;
                              b4 = pushLog b3 (actionLine a source target amount verb)
                          in (w3, settle w3 b4)))
                | _ \<Rightarrow> (w, pushLog b ''Invalid command: missing source/target.''))))"

definition executeCommand :: "world \<Rightarrow> battle option \<Rightarrow> command option \<Rightarrow> error + world \<times> battle" where
  "executeCommand w b c =
     (case b of
        None \<Rightarrow> Inl (TypeError ''executeCommand: battle is required'')
      | Some bt \<Rightarrow>
          (case c of
             None \<Rightarrow> Inl (TypeError ''executeCommand: command is required'')
           | Some cmd \<Rightarrow> Inr (execute w bt cmd)))"

subsection \<open>advanceTurn\<close>

definition stepIndex :: "battle \<Rightarrow> battle" where
  "stepIndex b = b\<lparr>activeTurnIndex := (activeTurnIndex b + 1) mod length (turnOrder b)\<rparr>"

text \<open>The safety loop of \<open>advanceTurn\<close>, with the number of iterations left.\<close>

fun skipToAlive :: "world \<Rightarrow> battle \<Rightarrow> nat \<Rightarrow> battle" where
  "skipToAlive w b 0 = b"
| "skipToAlive w b (Suc n) =
     (if (case getActiveUnit w b of Some u \<Rightarrow> isAlive w u | None \<Rightarrow> False) then b
      else skipToAlive w (stepIndex b) n)"

definition advance :: "world \<Rightarrow> battle \<Rightarrow> battle" where
  "advance w b =
     (if state b \<noteq> in_progress then b
      else
        (let b1 = pruneDeadFromTurnOrder w b;
             nextState = recomputeState w b1
         in if nextState \<noteq> in_progress then
              pushLog (b1\<lparr>state := nextState\<rparr>)
                (if nextState = victory then ''Victory!'' else ''Defeat.'')
            else if length (turnOrder b1) = 0 then
              pushLog (b1\<lparr>state := defeat\<rparr>) ''Defeat.''
            else skipToAlive w (stepIndex b1) (length (turnOrder b1))))"

definition advanceTurn :: "world \<Rightarrow> battle option \<Rightarrow> error + battle" where
  "advanceTurn w b =
     (case b of
        None \<Rightarrow> Inl (TypeError ''advanceTurn: battle is required'')
      | Some bt \<Rightarrow> Inr (advance w bt))"

section \<open>The command validator of the server\<close>

record verdict =
  ok :: bool
  reason :: "string option"

definition rejected :: "string \<Rightarrow> verdict" where
  "rejected r = \<lparr>ok = False, reason = Some r\<rparr>"

definition unitById :: "world \<Rightarrow> battle \<Rightarrow> string option \<Rightarrow> (refKind \<times> combatant) option" where
  "unitById w b unitId =
     (case find (\<lambda>m. Some (uid m) = unitId) (partyMembers w b) of
        Some m \<Rightarrow> Some (KParty, m)
      | None \<Rightarrow>
          (case find (\<lambda>e. Some (uid e) = unitId) (enemies b) of
             Some e \<Rightarrow> Some (KEnemy, e)
           | None \<Rightarrow> None))"

definition validateBattleCommand :: "world \<Rightarrow> battle option \<Rightarrow> string option \<Rightarrow> command \<Rightarrow> verdict" where
  "validateBattleCommand w bo player c =
     (case bo of
        None \<Rightarrow> rejected ''battle not in progress''
      | Some b \<Rightarrow>
          if state b \<noteq> in_progress then rejected ''battle not in progress''
          else if turnOrder b = [] then rejected ''no turn order''
          else
            (case activeRef b of
               None \<Rightarrow> rejected ''not player turn''
             | Some r \<Rightarrow>
                 if rkind r \<noteq> KParty then rejected ''not player turn''
                 else
                   (case getPartyForBattle w (bid b) of
                      None \<Rightarrow> rejected ''battle not owned by player''
                    | Some p \<Rightarrow>
                        if playerId p \<noteq> player then rejected ''battle not owned by player''
                        else if sourceId c \<noteq> Some (rid r) then rejected ''invalid source for active turn''
                        else
                          (case lookupAbility (abilityId c) of
                             None \<Rightarrow> rejected ''unknown ability''
                           | Some a \<Rightarrow>
                               (case unitById w b (sourceId c) of
                                  None \<Rightarrow> rejected ''missing source''
                                | Some (sk, source) \<Rightarrow>
                                    if mpCost a > 0 \<and>
                                       (case statOf mp w source of None \<Rightarrow> True | Some m \<Rightarrow> m < mpCost a)
                                    then rejected ''not enough MP''
                                    else
                                      (let target = (if targetType a = Some ''self'' then sourceId c
                                                     else targetId c)
                                       in if target = None then rejected ''missing target''
                                          else
                                            (case unitById w b target of
                                               None \<Rightarrow> rejected ''target not found''
                                             | Some (tk, targetUnit) \<Rightarrow>
                                                 if targetType a = Some ''enemy_single'' \<and> tk \<noteq> KEnemy
                                                 then rejected ''target must be enemy''
                                                 else if targetType a = Some ''ally_single'' \<and> tk \<noteq> KParty
                                                 then rejected ''target must be ally''
                                                 else if targetType a = Some ''party''
                                                         \<or> targetType a = Some ''enemy_all''
                                                 then rejected ''unsupported target type''
                                                 else \<lparr>ok = True, reason = None\<rparr>)))))))"

section \<open>Notions used by the properties\<close>

text \<open>The status-effect tags a combatant carries (none when the field is not an array).\<close>

definition statusList :: "world \<Rightarrow> combatant \<Rightarrow> string list" where
  "statusList w u = (case statusEffects u of Arr a \<Rightarrow> arrayHeap w a | NotArray \<Rightarrow> [])"

text \<open>What \<open>clampHp\<close> leaves in \<open>hp\<close> when \<open>hp\<close> is the number \<open>h\<close>.\<close>

definition clamped :: "int option \<Rightarrow> int \<Rightarrow> int" where
  "clamped limit h = (case limit of Some m \<Rightarrow> max 0 (min m h) | None \<Rightarrow> h)"

text \<open>The reasons \<open>validateBattleCommand\<close> gives.\<close>

definition rejectionReasons :: "string list" where
  "rejectionReasons =
     [''battle not in progress'', ''no turn order'', ''not player turn'',
      ''battle not owned by player'', ''invalid source for active turn'', ''unknown ability'',
      ''missing source'', ''not enough MP'', ''missing target'', ''target not found'',
      ''target must be enemy'', ''target must be ally'', ''unsupported target type'']"

text \<open>Sequences of calls on one battle.\<close>

datatype operation = Execute command | Advance

fun applyOperation :: "world \<times> battle \<Rightarrow> operation \<Rightarrow> world \<times> battle" where
  "applyOperation (w, b) (Execute c) =
     (case executeCommand w (Some b) (Some c) of Inr wb \<Rightarrow> wb | Inl _ \<Rightarrow> (w, b))"
| "applyOperation (w, b) Advance =
     (case advanceTurn w (Some b) of Inr b' \<Rightarrow> (w, b') | Inl _ \<Rightarrow> (w, b))"

definition runOperations :: "world \<times> battle \<Rightarrow> operation list \<Rightarrow> world \<times> battle" where
  "runOperations wb ops = foldl applyOperation wb ops"

definition terminal :: "battle \<Rightarrow> bool" where
  "terminal b = (state b = victory \<or> state b = defeat)"

definition indexValid :: "battle \<Rightarrow> bool" where
  "indexValid b = (turnOrder b \<noteq> [] \<and> activeTurnIndex b < length (turnOrder b))"

definition orderInvariant :: "battle \<Rightarrow> bool" where
  "orderInvariant b = (indexValid b \<or> (turnOrder b = [] \<and> terminal b))"

definition indexInvariant :: "battle \<Rightarrow> bool" where
  "indexInvariant b =
     ((indexValid b \<or> (turnOrder b = [] \<and> activeTurnIndex b = 0)) \<and> state b \<noteq> pending)"

text \<open>
  The order of the comparator of \<open>calculateInitialTurnOrder\<close>, and what makes a collation a
  total preorder.
\<close>

definition entryBefore :: "(string \<Rightarrow> string \<Rightarrow> int) \<Rightarrow> entry \<Rightarrow> entry \<Rightarrow> bool" where
  "entryBefore localeCompare a b =
     (espeed a > espeed b \<or> (espeed a = espeed b \<and> localeCompare (etie a) (etie b) \<le> 0))"

definition collation :: "(string \<Rightarrow> string \<Rightarrow> int) \<Rightarrow> bool" where
  "collation localeCompare =
     ((\<forall>x y. localeCompare x y \<le> 0 \<or> localeCompare y x \<le> 0) \<and>
      (\<forall>x y z. localeCompare x y \<le> 0 \<longrightarrow> localeCompare y z \<le> 0 \<longrightarrow> localeCompare x z \<le> 0))"

text \<open>
  Comparison by code units, the plain lexicographic order of strings. The battles of the
  scenarios below have no two combatants of equal speed, so their turn order is the same
  under every collation.
\<close>

fun codeUnitCompare :: "string \<Rightarrow> string \<Rightarrow> int" where
  "codeUnitCompare [] [] = 0"
| "codeUnitCompare [] (y # ys) = - 1"
| "codeUnitCompare (x # xs) [] = 1"
| "codeUnitCompare (x # xs) (y # ys) =
     (if (of_char x :: nat) < of_char y then - 1
      else if (of_char y :: nat) < of_char x then 1
      else codeUnitCompare xs ys)"

text \<open>
  The collation of the host. \<open>localeCompare\<close> without a locale argument compares in the
  collation of the default locale. Under the CLDR root collation (that of an English
  locale) two strings of ASCII letters, digits and "_" compare as their sort keys do: first
  by the primary weights of their characters, where "_" comes before the digits, the
  digits before the letters, and a letter weighs the same in both cases; if the primary
  weights agree, by the case weights, lower case before upper case. \<open>plainKey\<close> holds of
  the strings of that alphabet; any other character is outside this model and gets one
  weight after the letters.
\<close>

definition primaryWeight :: "char \<Rightarrow> nat" where
  "primaryWeight c =
     (let n = (of_char c :: nat)
      in if n = 95 then 2
         else if 48 \<le> n \<and> n \<le> 57 then n - 45
         else if 97 \<le> n \<and> n \<le> 122 then n - 84
         else if 65 \<le> n \<and> n \<le> 90 then n - 52
         else 39)"

definition caseWeight :: "char \<Rightarrow> nat" where
  "caseWeight c = (let n = (of_char c :: nat) in if 65 \<le> n \<and> n \<le> 90 then 3 else 2)"

definition sortKey :: "string \<Rightarrow> string" where
  "sortKey s =
     map (\<lambda>c. char_of (primaryWeight c)) s @ [char_of (1 :: nat)]
     @ map (\<lambda>c. char_of (caseWeight c)) s"

definition rootCollate :: "string \<Rightarrow> string \<Rightarrow> int" where
  "rootCollate x y = codeUnitCompare (sortKey x) (sortKey y)"

definition plainKey :: "string \<Rightarrow> bool" where
  "plainKey s = list_all (\<lambda>c. primaryWeight c < 39) s"

section \<open>Scenarios of the test suite\<close>

definition makeStats :: "int \<Rightarrow> int \<Rightarrow> int \<Rightarrow> int \<Rightarrow> int \<Rightarrow> int \<Rightarrow> int \<Rightarrow> int \<Rightarrow> int \<Rightarrow> int \<Rightarrow> stats" where
  "makeStats h mh m mm st de ma sp spi lu =
     \<lparr>hp = Some h, maxHp = Some mh, mp = Some m, maxMp = Some mm, strength = Some st,
      defense = Some de, magic = Some ma, speed = Some sp, spirit = Some spi, luck = Some lu\<rparr>"

definition hpSpeedOnly :: "int \<Rightarrow> int \<Rightarrow> stats" where
  "hpSpeedOnly h sp =
     \<lparr>hp = Some h, maxHp = None, mp = None, maxMp = None, strength = None,
      defense = None, magic = None, speed = Some sp, spirit = None, luck = None\<rparr>"

definition makeUnit :: "string \<Rightarrow> string \<Rightarrow> addr \<Rightarrow> combatant" where
  "makeUnit i n a =
     \<lparr>uid = i, uname = Some n, uelement = None, ustats = Some a, statusEffects = Arr a,
      crystalResonance = []\<rparr>"

definition bareUnit :: "string \<Rightarrow> addr \<Rightarrow> combatant" where
  "bareUnit i a =
     \<lparr>uid = i, uname = None, uelement = None, ustats = Some a, statusEffects = NotArray,
      crystalResonance = []\<rparr>"

definition makeStore :: "stats \<Rightarrow> stats \<Rightarrow> stats \<Rightarrow> stats \<Rightarrow> world" where
  "makeStore s0 s1 s2 s3 =
     \<lparr>statsHeap = (\<lambda>_. s0)(1 := s1, 2 := s2, 3 := s3), arrayHeap = (\<lambda>_. []), nextArray = 4,
      partyByBattleId = Map.empty\<rparr>"

definition makeParty :: "combatant list \<Rightarrow> party" where
  "makeParty ms = \<lparr>pid = Some ''party1'', playerId = Some ''player1'', members = ms\<rparr>"

definition makeCommand :: "string \<Rightarrow> string \<Rightarrow> string \<Rightarrow> command" where
  "makeCommand s t a =
     \<lparr>ctype = Some ''ability'', sourceId = Some s, targetId = Some t, abilityId = Some a\<rparr>"

text \<open>"calculateInitialTurnOrder: higher speed acts first"\<close>

definition orderStore :: world where
  "orderStore = makeStore (hpSpeedOnly 10 1) (hpSpeedOnly 10 9) (hpSpeedOnly 10 5) (hpSpeedOnly 10 8)"

definition orderParty :: party where
  "orderParty = makeParty [bareUnit ''p_slow'' 0, bareUnit ''p_fast'' 1]"

definition orderEnemies :: "combatant list" where
  "orderEnemies = [bareUnit ''e_mid'' 2, bareUnit ''e_fast'' 3]"

text \<open>"executeCommand: physical attack damage (basic_attack)"\<close>

definition attackStore :: world where
  "attackStore =
     makeStore (makeStats 10 10 0 0 10 0 1 10 0 0) (makeStats 20 20 10 10 10 0 10 1 0 0)
       (makeStats 0 0 0 0 0 0 0 0 0 0) (makeStats 0 0 0 0 0 0 0 0 0 0)"

definition attackParty :: party where
  "attackParty = makeParty [makeUnit ''c1'' ''Hero'' 0]"

definition attackEnemies :: "combatant list" where
  "attackEnemies = [makeUnit ''e1'' ''Goblin'' 1]"

text \<open>"executeCommand: healing spell (sage_mend)"\<close>

definition mendStore :: world where
  "mendStore =
     makeStore (makeStats 10 10 10 10 10 0 10 10 0 0) (makeStats 5 30 0 0 10 0 10 1 0 0)
       (makeStats 1 1 10 10 10 0 10 0 0 0) (makeStats 0 0 0 0 0 0 0 0 0 0)"

definition mendParty :: party where
  "mendParty = makeParty [makeUnit ''c1'' ''Lysa'' 0, makeUnit ''c2'' ''Ally'' 1]"

definition mendEnemies :: "combatant list" where
  "mendEnemies = [makeUnit ''e1'' ''Dummy'' 2]"

text \<open>"executeCommand: status effect application (poison)"\<close>

definition poisonStore :: world where
  "poisonStore =
     makeStore (makeStats 10 10 10 10 10 0 10 10 0 0) (makeStats 30 30 10 10 10 0 10 1 0 0)
       (makeStats 0 0 0 0 0 0 0 0 0 0) (makeStats 0 0 0 0 0 0 0 0 0 0)"

definition poisonParty :: party where
  "poisonParty = makeParty [makeUnit ''c1'' ''Thalen'' 0]"

definition poisonEnemies :: "combatant list" where
  "poisonEnemies = [makeUnit ''e1'' ''Bandit'' 1]"

text \<open>
  A caster of Lumen Arc (LIGHT, power 11) with magic 9 against an enemy of element SHADOW,
  which is weak to LIGHT, with spirit 28 and 30 HP.
\<close>

definition weakStore :: world where
  "weakStore =
     makeStore (makeStats 10 10 10 10 10 0 9 10 0 0) (makeStats 30 30 0 0 0 0 0 1 28 0)
       (makeStats 0 0 0 0 0 0 0 0 0 0) (makeStats 0 0 0 0 0 0 0 0 0 0)"

definition weakParty :: party where
  "weakParty = makeParty [makeUnit ''c1'' ''Lume'' 0]"

definition shade :: combatant where
  "shade = (makeUnit ''e1'' ''Shade'' 1)\<lparr>uelement := Some ''SHADOW''\<rparr>"

definition weakEnemies :: "combatant list" where
  "weakEnemies = [shade]"

text \<open>
  A battle whose second party member and whose only enemy are down when it is created:
  the healer of the healing scenario, an ally with 0 of 30 HP and an enemy with 0 of 1 HP.
\<close>

definition fallenStore :: world where
  "fallenStore =
     makeStore (makeStats 10 10 10 10 10 0 10 10 0 0) (makeStats 0 30 0 0 10 0 10 1 0 0)
       (makeStats 0 1 10 10 10 0 10 0 0 0) (makeStats 0 0 0 0 0 0 0 0 0 0)"

definition fallenOperations :: "operation list" where
  "fallenOperations =
     [Execute (makeCommand ''c1'' ''e1'' ''sage_mend''),
      Execute (makeCommand ''c1'' ''c2'' ''sage_mend''),
      Execute (makeCommand ''c1'' ''c1'' ''basic_attack'')]"

text \<open>
  The attack scenario continued: the hero strikes the goblin, then the turn passes to the
  goblin.
\<close>

definition counterOperations :: "operation list" where
  "counterOperations = [Execute (makeCommand ''c1'' ''e1'' ''basic_attack''), Advance]"

text \<open>The store and battle that \<open>createBattle\<close> returns for a scenario.\<close>

definition started :: "world \<Rightarrow> party \<Rightarrow> combatant list \<Rightarrow> world \<times> battle" where
  "started w p es = projr (createBattle codeUnitCompare w (Some p) (Some es) ''battle_1'')"

abbreviation attackWorld :: world where
  "attackWorld \<equiv> fst (started attackStore attackParty attackEnemies)"

abbreviation attackBattle :: battle where
  "attackBattle \<equiv> snd (started attackStore attackParty attackEnemies)"

abbreviation mendWorld :: world where
  "mendWorld \<equiv> fst (started mendStore mendParty mendEnemies)"

abbreviation mendBattle :: battle where
  "mendBattle \<equiv> snd (started mendStore mendParty mendEnemies)"

abbreviation poisonWorld :: world where
  "poisonWorld \<equiv> fst (started poisonStore poisonParty poisonEnemies)"

abbreviation poisonBattle :: battle where
  "poisonBattle \<equiv> snd (started poisonStore poisonParty poisonEnemies)"

abbreviation weakWorld :: world where
  "weakWorld \<equiv> fst (started weakStore weakParty weakEnemies)"

abbreviation weakBattle :: battle where
  "weakBattle \<equiv> snd (started weakStore weakParty weakEnemies)"

abbreviation lumenArc :: ability where
  "lumenArc \<equiv> mkAbility ''crystalborne_lumen_arc'' ''Lumen Arc'' ''LIGHT'' 4 ''enemy_single'' 11 None
                 (Some [''CRYSTALBORNE'']) 1"

abbreviation basicAttack :: ability where
  "basicAttack \<equiv> mkAbility ''basic_attack'' ''Attack'' ''NULL'' 0 ''enemy_single'' 4 None None 1"

abbreviation sageMend :: ability where
  "sageMend \<equiv> mkAbility ''sage_mend'' ''Mend'' ''LIGHT'' 5 ''ally_single'' 12 None (Some [''SAGE'']) 1"

abbreviation galeSweep :: ability where
  "galeSweep \<equiv> mkAbility ''aeromancer_gale_sweep'' ''Gale Sweep'' ''WIND'' 6 ''enemy_all'' 9 None
                  (Some [''AEROMANCER'']) 1"

abbreviation venomHex :: ability where
  "venomHex \<equiv> mkAbility ''umbramancer_venom_hex'' ''Venom Hex'' ''SHADOW'' 4 ''enemy_single'' 6
                 (Some ''POISON'') (Some [''UMBRAMANCER'']) 1"

text \<open>Three combatants of equal speed and one enemy that is down.\<close>

definition tieStore :: world where
  "tieStore = makeStore (hpSpeedOnly 10 5) (hpSpeedOnly 10 5) (hpSpeedOnly 10 5) (hpSpeedOnly 0 5)"

definition tieParty :: party where
  "tieParty = makeParty [bareUnit ''B'' 0, bareUnit ''a'' 1]"

definition tieEnemies :: "combatant list" where
  "tieEnemies = [bareUnit ''z'' 2, bareUnit ''down'' 3]"

section \<open>Evaluation and the catalog\<close>

text \<open>The pruning filter in a form that evaluates on concrete lists.\<close>

lemma prune_eval:
  "pruneDeadFromTurnOrder w b =
     (let kept = filter (\<lambda>r. case rkind r of
                               KParty \<Rightarrow> list_ex (\<lambda>m. isAlive w m \<and> uid m = rid r) (partyMembers w b)
                             | KEnemy \<Rightarrow> list_ex (\<lambda>e. isAlive w e \<and> uid e = rid r) (enemies b))
                   (turnOrder b)
      in b\<lparr>turnOrder := kept,
           activeTurnIndex := (if kept = [] then 0 else activeTurnIndex b mod length kept)\<rparr>)"
proof -
  have "\<And>xs x. x \<in> set (map uid (filter (isAlive w) xs)) \<longleftrightarrow> list_ex (\<lambda>m. isAlive w m \<and> uid m = x) xs"
    by (auto simp: list_ex_iff)
  then show ?thesis
    unfolding pruneDeadFromTurnOrder_def Let_def
    by (simp cong: refKind.case_cong)
qed

lemmas engine_defs =
  statsOf_def statOf_def numOr0_def getUnitSpeed_def getUnitName_def getUnitElement_def
  clampHp_def getPartyForBattle_def partyMembers_def findUnitInBattle_def getUnitHp_def
  isAlive_def sortBy_def compareEntries_def partyEntry_def enemyEntry_def turnEntries_def
  calculateInitialTurnOrder_def pushLog_def spread_def createBattle_def activeRef_def
  getActiveUnit_def recomputeState_def prune_eval updStats_def payMpCost_def
  isHealingTarget_def healAmount_def damageAmount_def applyPower_def setStatusField_def
  pushStatus_def applyStatus_def actionLine_def settle_def execute_def executeCommand_def
  stepIndex_def advance_def advanceTurn_def trimNonEmpty_def isWhitespace_def showInt_def
  digitChar_def

lemmas scenario_defs =
  makeStats_def hpSpeedOnly_def makeUnit_def bareUnit_def makeStore_def makeParty_def
  makeCommand_def started_def

lemma floor_rat_numeral [simp]: "\<lfloor>numeral m / numeral n :: rat\<rfloor> = numeral m div numeral n"
  by (metis floor_divide_of_int_eq of_int_numeral)

subsection \<open>Doubles\<close>

lemma bitLength_bound: "n < 2 ^ k \<Longrightarrow> bitLength n \<le> int k"
proof (induction k arbitrary: n)
  case 0
  then have "n \<le> 0" by simp
  then show ?case by (simp add: bitLength.simps)
next
  case (Suc k)
  show ?case
  proof (cases "n \<le> 0")
    case True
    then show ?thesis by (simp add: bitLength.simps)
  next
    case False
    have "n div 2 < 2 ^ k" using Suc.prems by simp
    then have "bitLength (n div 2) \<le> int k" by (rule Suc.IH)
    then show ?thesis using False by (subst bitLength.simps) simp
  qed
qed

lemma roundEven_of_int [simp]: "roundEven (of_int m) = m"
  by (simp add: roundEven_def)

text \<open>An integer below 2^53 in magnitude is a double.\<close>

lemma binary64_of_int:
  assumes "\<bar>n\<bar> < 2 ^ 53"
  shows "binary64 (of_int n) = of_int n"
proof (cases "n = 0")
  case True
  then show ?thesis by (simp add: binary64_def)
next
  case False
  let ?b = "bitLength \<bar>n\<bar>"
  have b: "?b \<le> 53" using bitLength_bound [of "\<bar>n\<bar>" 53] assms by simp
  have a: "\<bar>of_int n :: rat\<bar> = of_int \<bar>n\<bar>" by simp
  have "1 \<le> \<bar>n\<bar>" using False by simp
  then have one: "(1 :: rat) \<le> of_int \<bar>n\<bar>" by (simp only: of_int_1_le_iff)
  have il: "ilog2 (of_int \<bar>n\<bar>) = ?b - 1"
    unfolding ilog2_def using one by (simp only: if_True floor_of_int)
  define k where "k = nat (53 - ?b)"
  have e: "ilog2 \<bar>of_int n :: rat\<bar> - 52 = - int k"
    unfolding a il using b by (simp add: k_def)
  have p: "pow2 (- int k) = 1 / 2 ^ k" by (simp add: pow2_def)
  have q: "of_int n / (1 / 2 ^ k) = (of_int (n * 2 ^ k) :: rat)" by simp
  have "binary64 (of_int n) = of_int (roundEven (of_int n / (1 / 2 ^ k))) * (1 / 2 ^ k)"
    using False by (simp add: binary64_def e p Let_def)
  also have "\<dots> = of_int n" unfolding q roundEven_of_int by simp
  finally show ?thesis .
qed

lemma binary64_numeral [simp]:
  "(numeral k :: int) < 9007199254740992 \<Longrightarrow> binary64 (numeral k) = numeral k"
  using binary64_of_int [of "numeral k"] by simp

lemma binary64_0 [simp]: "binary64 0 = 0"
  by (simp add: binary64_def)

lemma binary64_1 [simp]: "binary64 1 = 1"
  using binary64_of_int [of 1] by simp

lemma pow2_pos: "0 < pow2 e"
  by (simp add: pow2_def)

lemma pow2_Suc: "pow2 (e + 1) = 2 * pow2 e"
proof (cases "0 \<le> e")
  case True
  then show ?thesis by (simp add: pow2_def nat_add_distrib)
next
  case False
  then have "nat (- e) = Suc (nat (- (e + 1)))" by simp
  then show ?thesis using False by (simp add: pow2_def)
qed

lemma pow2_nat: "pow2 (int k) = 2 ^ k"
  by (simp add: pow2_def)

lemma pow2_neg: "pow2 (- int k) = 1 / 2 ^ k"
  by (simp add: pow2_def)

lemma rat_pow_le: "(2 :: int) ^ k \<le> n \<Longrightarrow> (2 :: rat) ^ k \<le> of_int n"
proof -
  assume "(2 :: int) ^ k \<le> n"
  then have "(of_int ((2 :: int) ^ k) :: rat) \<le> of_int n" by (simp only: of_int_le_iff)
  then show ?thesis by simp
qed

lemma rat_le_pow: "n \<le> (2 :: int) ^ k \<Longrightarrow> (of_int n :: rat) \<le> 2 ^ k"
proof -
  assume "n \<le> (2 :: int) ^ k"
  then have "(of_int n :: rat) \<le> of_int ((2 :: int) ^ k)" by (simp only: of_int_le_iff)
  then show ?thesis by simp
qed

lemma bitLength_bracket:
  "1 \<le> n \<Longrightarrow> 1 \<le> bitLength n \<and> 2 ^ nat (bitLength n - 1) \<le> n \<and> n < 2 ^ nat (bitLength n)"
proof (induction n rule: bitLength.induct)
  case (1 n)
  show ?case
  proof (cases "n = 1")
    case True
    have "bitLength 1 = 1" by (simp add: bitLength.simps)
    then show ?thesis using True by simp
  next
    case False
    with 1 have h: "1 \<le> n div 2" "\<not> n \<le> 0" by auto
    from 1(1) [OF h(2) h(1)] have ih: "1 \<le> bitLength (n div 2)"
      "2 ^ nat (bitLength (n div 2) - 1) \<le> n div 2" "n div 2 < 2 ^ nat (bitLength (n div 2))"
      by auto
    have b: "bitLength n = 1 + bitLength (n div 2)" using h(2) by (subst bitLength.simps) simp
    have n1: "nat (bitLength n - 1) = Suc (nat (bitLength (n div 2) - 1))" using ih(1) b by simp
    have n2: "nat (bitLength n) = Suc (nat (bitLength (n div 2)))" using ih(1) b by simp
    have "2 * 2 ^ nat (bitLength (n div 2) - 1) \<le> n" using ih(2) by linarith
    moreover have "n < 2 * 2 ^ nat (bitLength (n div 2))" using ih(3) by linarith
    ultimately show ?thesis using ih(1) b unfolding n1 n2 by simp
  qed
qed

text \<open>\<open>ilog2 x\<close> is the binary exponent of \<open>x\<close>.\<close>

lemma ilog2_bracket:
  assumes "0 < x"
  shows "pow2 (ilog2 x) \<le> x \<and> x < pow2 (ilog2 x + 1)"
proof (cases "1 \<le> x")
  case True
  let ?n = "\<lfloor>x\<rfloor>"
  have n: "1 \<le> ?n" using True by simp
  note br = bitLength_bracket [OF n]
  have e: "ilog2 x = int (nat (bitLength ?n - 1))" using True br by (simp add: ilog2_def)
  have e1: "ilog2 x + 1 = int (nat (bitLength ?n))" using True br by (simp add: ilog2_def)
  have "(2 :: rat) ^ nat (bitLength ?n - 1) \<le> of_int ?n"
    using br by (intro rat_pow_le) blast
  also have "\<dots> \<le> x" by simp
  finally have lo: "pow2 (ilog2 x) \<le> x" unfolding e pow2_nat .
  have "?n + 1 \<le> 2 ^ nat (bitLength ?n)" using br by simp
  then have "(of_int (?n + 1) :: rat) \<le> 2 ^ nat (bitLength ?n)"
    by (rule rat_le_pow)
  moreover have "x < of_int (?n + 1)" by linarith
  ultimately have hi: "x < pow2 (ilog2 x + 1)" unfolding e1 pow2_nat by linarith
  from lo hi show ?thesis ..
next
  case False
  let ?y = "1 / x"
  let ?m = "\<lceil>?y\<rceil> - 1"
  have y: "1 < ?y" using False assms by simp
  then have m: "1 \<le> ?m" by linarith
  note br = bitLength_bracket [OF m]
  define k where "k = nat (bitLength ?m)"
  have b1: "1 \<le> bitLength ?m" using br by blast
  have k: "bitLength ?m = int k" "1 \<le> k" using b1 by (simp_all add: k_def)
  have e: "ilog2 x = - int k" using False by (simp add: ilog2_def k)
  have e1: "ilog2 x + 1 = - int (k - 1)" using k by (simp add: e)
  have "?m + 1 \<le> 2 ^ k" using br by (simp add: k_def)
  then have "(of_int (?m + 1) :: rat) \<le> 2 ^ k"
    by (rule rat_le_pow)
  moreover have "?y \<le> of_int (?m + 1)" by simp
  ultimately have "?y \<le> 2 ^ k" by linarith
  then have "1 \<le> 2 ^ k * x" using assms by (simp add: pos_divide_le_eq)
  then have lo: "pow2 (ilog2 x) \<le> x" unfolding e pow2_neg by (simp add: pos_divide_le_eq mult.commute)
  have kk: "nat (bitLength ?m - 1) = k - 1" unfolding k(1) by simp
  have "(2 :: int) ^ nat (bitLength ?m - 1) \<le> ?m" using br by blast
  then have "(2 :: int) ^ (k - 1) \<le> ?m" unfolding kk .
  then have "(2 :: rat) ^ (k - 1) \<le> of_int ?m"
    by (rule rat_pow_le)
  moreover have "of_int ?m < ?y" by linarith
  ultimately have "2 ^ (k - 1) < ?y" by linarith
  then have "2 ^ (k - 1) * x < 1" using assms by (simp add: pos_less_divide_eq)
  then have hi: "x < pow2 (ilog2 x + 1)" unfolding e1 pow2_neg
    by (simp add: pos_less_divide_eq mult.commute)
  from lo hi show ?thesis ..
qed

lemma roundEven_near: "\<bar>of_int (roundEven x) - x\<bar> \<le> 1 / 2"
proof -
  define n where "n = \<lfloor>x\<rfloor>"
  define r where "r = x - of_int n"
  have f: "\<lfloor>x\<rfloor> = n" "x - of_int n = r" by (simp_all add: n_def r_def)
  have r: "0 \<le> r" "r < 1" unfolding r_def n_def by linarith+
  have re: "roundEven x = (if r < 1 / 2 then n else if 1 / 2 < r then n + 1
                           else if even n then n else n + 1)"
    unfolding roundEven_def Let_def f ..
  have d: "of_int (roundEven x) - x = of_int (roundEven x) - of_int n - r" by (simp add: r_def)
  consider "r < 1 / 2" | "1 / 2 < r" | "r = 1 / 2" by linarith
  then show ?thesis
  proof cases
    case 1
    then have "roundEven x = n" unfolding re by simp
    then show ?thesis unfolding d using r 1 by simp
  next
    case 2
    then have "roundEven x = n + 1" unfolding re by simp
    then show ?thesis unfolding d using r 2 by simp
  next
    case 3
    then have "roundEven x = n \<or> roundEven x = n + 1" unfolding re by simp
    then show ?thesis unfolding d using 3 by auto
  qed
qed

text \<open>
  \<open>binary64 x\<close> is a multiple of the unit in the last place of \<open>x\<close> by an integer of at most
  53 bits, and no further from \<open>x\<close> than half a unit.
\<close>

lemma pow2_add_nat: "pow2 (e + int k) = 2 ^ k * pow2 e"
proof (induction k)
  case 0
  show ?case by simp
next
  case (Suc k)
  have eq: "e + int (Suc k) = e + int k + 1" by simp
  show ?case unfolding eq pow2_Suc Suc.IH by simp
qed

lemma binary64_nearest:
  assumes "x \<noteq> 0"
  shows "\<exists>m. binary64 x = of_int m * pow2 (ilog2 \<bar>x\<bar> - 52) \<and> \<bar>m\<bar> \<le> 2 ^ 53
            \<and> \<bar>binary64 x - x\<bar> \<le> pow2 (ilog2 \<bar>x\<bar> - 52) / 2"
proof -
  define u where "u = pow2 (ilog2 \<bar>x\<bar> - 52)"
  define q where "q = x / u"
  define m where "m = roundEven q"
  have u: "0 < u" unfolding u_def by (rule pow2_pos)
  have b: "binary64 x = of_int m * u"
    using assms by (simp add: binary64_def Let_def u_def q_def m_def)
  have near: "\<bar>of_int m - q\<bar> \<le> 1 / 2" unfolding m_def by (rule roundEven_near)
  have qu: "q * u = x" using u by (simp add: q_def)
  have "of_int m * u - x = (of_int m - q) * u" by (simp add: left_diff_distrib qu)
  then have "\<bar>of_int m * u - x\<bar> = \<bar>of_int m - q\<bar> * u" using u by (simp add: abs_mult)
  also have "\<dots> \<le> 1 / 2 * u" using near u by (intro mult_right_mono) simp_all
  finally have err: "\<bar>binary64 x - x\<bar> \<le> u / 2" unfolding b by simp
  have "\<bar>x\<bar> < pow2 (ilog2 \<bar>x\<bar> + 1)" using ilog2_bracket [of "\<bar>x\<bar>"] assms by simp
  also have "pow2 (ilog2 \<bar>x\<bar> + 1) = 2 ^ 53 * u"
  proof -
    have eq: "ilog2 \<bar>x\<bar> + 1 = ilog2 \<bar>x\<bar> - 52 + int 53" by simp
    show ?thesis unfolding eq pow2_add_nat u_def ..
  qed
  finally have "\<bar>x\<bar> / u < 2 ^ 53" using u by (simp add: pos_divide_less_eq)
  then have aq: "\<bar>q\<bar> < 2 ^ 53" using u by (simp add: q_def)
  have "\<bar>of_int m :: rat\<bar> \<le> \<bar>q\<bar> + 1 / 2" using near by linarith
  then have lt: "(of_int \<bar>m\<bar> :: rat) < 2 ^ 53 + 1 / 2" using aq by simp
  have bound: "\<bar>m\<bar> \<le> 2 ^ 53"
  proof (rule ccontr)
    assume "\<not> \<bar>m\<bar> \<le> 2 ^ 53"
    then have "2 ^ 53 + 1 \<le> \<bar>m\<bar>" by simp
    then have "(of_int (2 ^ 53 + 1) :: rat) \<le> of_int \<bar>m\<bar>" by (simp only: of_int_le_iff)
    then show False using lt by simp
  qed
  from b bound err show ?thesis unfolding u_def by blast
qed

text \<open>The doubles of the literals of the formulas: 0.6 is 0x3FE3333333333333, and so on.\<close>

lemma binary64_literals:
  "binary64 (6 / 10) = 5404319552844595 / 2 ^ 53"
  "binary64 (9 / 10) = 8106479329266893 / 2 ^ 53"
  "binary64 (5 / 4) = 5 / 4"
  "binary64 (3 / 4) = 3 / 4"
  by code_simp+

lemma lookup_flee:
  "lookupAbility (Some ''flee'') = Some (mkAbility ''flee'' ''Flee'' ''NULL'' 0 ''self'' 0 None None 1)"
  by (simp add: lookupAbility_def ABILITIES_BY_ID_def ownAbility_def ABILITIES_def mkAbility_def)

lemma lookup_basic_attack:
  "lookupAbility (Some ''basic_attack'') =
     Some (mkAbility ''basic_attack'' ''Attack'' ''NULL'' 0 ''enemy_single'' 4 None None 1)"
  by (simp add: lookupAbility_def ABILITIES_BY_ID_def ownAbility_def ABILITIES_def mkAbility_def)

lemma lookup_sage_mend:
  "lookupAbility (Some ''sage_mend'') =
     Some (mkAbility ''sage_mend'' ''Mend'' ''LIGHT'' 5 ''ally_single'' 12 None (Some [''SAGE'']) 1)"
  by (simp add: lookupAbility_def ABILITIES_BY_ID_def ownAbility_def ABILITIES_def mkAbility_def)

lemma lookup_gale_sweep:
  "lookupAbility (Some ''aeromancer_gale_sweep'') =
     Some (mkAbility ''aeromancer_gale_sweep'' ''Gale Sweep'' ''WIND'' 6 ''enemy_all'' 9 None
             (Some [''AEROMANCER'']) 1)"
  by (simp add: lookupAbility_def ABILITIES_BY_ID_def ownAbility_def ABILITIES_def mkAbility_def)

lemma lookup_venom_hex:
  "lookupAbility (Some ''umbramancer_venom_hex'') =
     Some (mkAbility ''umbramancer_venom_hex'' ''Venom Hex'' ''SHADOW'' 4 ''enemy_single'' 6
             (Some ''POISON'') (Some [''UMBRAMANCER'']) 1)"
  by (simp add: lookupAbility_def ABILITIES_BY_ID_def ownAbility_def ABILITIES_def mkAbility_def)

lemma lookup_lumen_arc:
  "lookupAbility (Some ''crystalborne_lumen_arc'') =
     Some (mkAbility ''crystalborne_lumen_arc'' ''Lumen Arc'' ''LIGHT'' 4 ''enemy_single'' 11 None
             (Some [''CRYSTALBORNE'']) 1)"
  by (simp add: lookupAbility_def ABILITIES_BY_ID_def ownAbility_def ABILITIES_def mkAbility_def)

lemma executeCommand_present: "executeCommand w (Some b) (Some c) = Inr (execute w b c)"
  by (simp add: executeCommand_def)

lemma attack_started:
  "started attackStore attackParty attackEnemies =
     (attackStore\<lparr>partyByBattleId := [''battle_1'' \<mapsto> attackParty]\<rparr>,
      \<lparr>bid = ''battle_1'', partyId = ''party1'', enemies = attackEnemies,
       turnOrder = [\<lparr>rkind = KParty, rid = ''c1''\<rparr>, \<lparr>rkind = KEnemy, rid = ''e1''\<rparr>],
       activeTurnIndex = 0, blog = [''Battle battle_1 created.'', ''Battle started.''],
       state = in_progress\<rparr>)"
  by (simp add: engine_defs scenario_defs attackStore_def attackParty_def attackEnemies_def Let_def)

lemma weak_started:
  "started weakStore weakParty weakEnemies =
     (weakStore\<lparr>partyByBattleId := [''battle_1'' \<mapsto> weakParty]\<rparr>,
      \<lparr>bid = ''battle_1'', partyId = ''party1'', enemies = weakEnemies,
       turnOrder = [\<lparr>rkind = KParty, rid = ''c1''\<rparr>, \<lparr>rkind = KEnemy, rid = ''e1''\<rparr>],
       activeTurnIndex = 0, blog = [''Battle battle_1 created.'', ''Battle started.''],
       state = in_progress\<rparr>)"
  by (simp add: engine_defs scenario_defs weakStore_def weakParty_def weakEnemies_def shade_def Let_def)

text \<open>
  The damage of Lumen Arc in that battle, in doubles: 28 * 0.6 is 16.8 rounded up, the
  difference from 20 is below 3.2, and its product with 1.25 is below 4.
\<close>

lemma lumen_arc_doubles:
  "binary64 (28 * binary64 (6 / 10)) = 4728779608739021 / 281474976710656
   \<and> binary64 (20 - binary64 (28 * binary64 (6 / 10))) = 900719925474099 / 281474976710656
   \<and> binary64 (binary64 (20 - binary64 (28 * binary64 (6 / 10))) * binary64 (5 / 4))
       = 4503599627370495 / 1125899906842624
   \<and> \<lfloor>binary64 (binary64 (20 - binary64 (28 * binary64 (6 / 10))) * binary64 (5 / 4))\<rfloor> = 3"
  by code_simp

section \<open>Fleeing\<close>

text \<open>
  C6. On a battle that is in progress, \<open>executeCommand\<close> with ability id "flee" returns the
  same store (no HP, MP or status of any combatant changes) and the same battle except for
  two fields: the state is \<open>defeat\<close>, whatever the HP totals are, and the log has one more
  line, the name of the unit found for the source id (or "Unknown") followed by " fled.".
  Turn order and active index are as before: nothing else is resolved.
\<close>

theorem flee_ends_in_defeat:
  assumes "state b = in_progress" and "abilityId c = Some ''flee''"
  shows "executeCommand w (Some b) (Some c) =
           Inr (w, b\<lparr>blog := blog b @ [getUnitName (map_option snd (findUnitInBattle w b (sourceId c)))
                                        @ '' fled.''],
                     state := defeat\<rparr>)"
  using assms by (simp add: executeCommand_present execute_def lookup_flee pushLog_def)

theorem flee_ends_in_defeat_witness:
  "state (snd (started attackStore attackParty attackEnemies)) = in_progress
   \<and> abilityId (makeCommand ''c1'' ''c1'' ''flee'') = Some ''flee''
   \<and> executeCommand (fst (started attackStore attackParty attackEnemies))
        (Some (snd (started attackStore attackParty attackEnemies)))
        (Some (makeCommand ''c1'' ''c1'' ''flee''))
      = Inr (fst (started attackStore attackParty attackEnemies),
             (snd (started attackStore attackParty attackEnemies))
               \<lparr>blog := [''Battle battle_1 created.'', ''Battle started.'', ''Hero fled.''],
                state := defeat\<rparr>)"
  using flee_ends_in_defeat [of "snd (started attackStore attackParty attackEnemies)"
      "makeCommand ''c1'' ''c1'' ''flee''" "fst (started attackStore attackParty attackEnemies)"]
  unfolding attack_started
  by (simp add: makeCommand_def findUnitInBattle_def partyMembers_def
      getPartyForBattle_def attackParty_def attackEnemies_def makeParty_def makeUnit_def
      getUnitName_def trimNonEmpty_def isWhitespace_def)

lemma mend_started:
  "started mendStore mendParty mendEnemies =
     (mendStore\<lparr>partyByBattleId := [''battle_1'' \<mapsto> mendParty]\<rparr>,
      \<lparr>bid = ''battle_1'', partyId = ''party1'', enemies = mendEnemies,
       turnOrder = [\<lparr>rkind = KParty, rid = ''c1''\<rparr>, \<lparr>rkind = KParty, rid = ''c2''\<rparr>,
                    \<lparr>rkind = KEnemy, rid = ''e1''\<rparr>],
       activeTurnIndex = 0, blog = [''Battle battle_1 created.'', ''Battle started.''],
       state = in_progress\<rparr>)"
  by (simp add: engine_defs scenario_defs mendStore_def mendParty_def mendEnemies_def Let_def)

lemma poison_started:
  "started poisonStore poisonParty poisonEnemies =
     (poisonStore\<lparr>partyByBattleId := [''battle_1'' \<mapsto> poisonParty]\<rparr>,
      \<lparr>bid = ''battle_1'', partyId = ''party1'', enemies = poisonEnemies,
       turnOrder = [\<lparr>rkind = KParty, rid = ''c1''\<rparr>, \<lparr>rkind = KEnemy, rid = ''e1''\<rparr>],
       activeTurnIndex = 0, blog = [''Battle battle_1 created.'', ''Battle started.''],
       state = in_progress\<rparr>)"
  by (simp add: engine_defs scenario_defs poisonStore_def poisonParty_def poisonEnemies_def Let_def)

lemma fallen_started:
  "started fallenStore mendParty mendEnemies =
     (fallenStore\<lparr>partyByBattleId := [''battle_1'' \<mapsto> mendParty]\<rparr>,
      \<lparr>bid = ''battle_1'', partyId = ''party1'', enemies = mendEnemies,
       turnOrder = [\<lparr>rkind = KParty, rid = ''c1''\<rparr>],
       activeTurnIndex = 0, blog = [''Battle battle_1 created.'', ''Battle started.''],
       state = in_progress\<rparr>)"
  by (simp add: engine_defs scenario_defs fallenStore_def mendParty_def mendEnemies_def Let_def)

lemmas scenario_eval =
  findUnitInBattle_def partyMembers_def getPartyForBattle_def activeRef_def makeCommand_def
  makeParty_def makeUnit_def makeStore_def makeStats_def statOf_def statsOf_def unitById_def

section \<open>Framing lemmas\<close>

lemma statOf_heap_cong: "statsHeap w = statsHeap w' \<Longrightarrow> statOf f w u = statOf f w' u"
  by (simp add: statOf_def statsOf_def)

lemma statOf_Some_ustats:
  "statOf f w u = Some v \<Longrightarrow> \<exists>a. ustats u = Some a \<and> f (statsHeap w a) = Some v"
  by (cases "ustats u") (simp_all add: statOf_def statsOf_def)

lemma statOf_updStats_other:
  "(\<And>s. f (g s) = f s) \<Longrightarrow> statOf f (updStats w u g) u' = statOf f w u'"
  by (cases "ustats u"; cases "ustats u'") (simp_all add: statOf_def statsOf_def updStats_def)

lemma statOf_updStats_same:
  "ustats u = Some a \<Longrightarrow> statOf f (updStats w u g) u = f (g (statsHeap w a))"
  by (simp add: statOf_def statsOf_def updStats_def)

lemma updStats_frame [simp]:
  "arrayHeap (updStats w u g) = arrayHeap w"
  "nextArray (updStats w u g) = nextArray w"
  "partyByBattleId (updStats w u g) = partyByBattleId w"
  by (cases "ustats u"; simp add: updStats_def)+

lemma pushStatus_frame [simp]:
  "statsHeap (pushStatus w a t) = statsHeap w"
  "nextArray (pushStatus w a t) = nextArray w"
  "partyByBattleId (pushStatus w a t) = partyByBattleId w"
  by (simp_all add: pushStatus_def)

lemma setStatusField_frame [simp]:
  "statsHeap (fst (setStatusField w b k i v)) = statsHeap w"
  "arrayHeap (fst (setStatusField w b k i v)) = arrayHeap w"
  "nextArray (fst (setStatusField w b k i v)) = nextArray w"
  by (cases k; simp add: setStatusField_def split: option.split)+

lemma setStatusField_battle [simp]:
  "bid (snd (setStatusField w b k i v)) = bid b"
  "partyId (snd (setStatusField w b k i v)) = partyId b"
  "turnOrder (snd (setStatusField w b k i v)) = turnOrder b"
  "activeTurnIndex (snd (setStatusField w b k i v)) = activeTurnIndex b"
  "blog (snd (setStatusField w b k i v)) = blog b"
  "state (snd (setStatusField w b k i v)) = state b"
  by (cases k; simp add: setStatusField_def split: option.split)+

lemma applyStatus_statsHeap [simp]: "statsHeap (fst (applyStatus w b a k t)) = statsHeap w"
  by (simp add: applyStatus_def Let_def split: option.split statusField.split prod.split)
     (metis fst_conv setStatusField_frame(1) world.select_convs(1) world.surjective world.update_convs(2,3))


lemma applyStatus_battle [simp]:
  "bid (snd (applyStatus w b a k t)) = bid b"
  "partyId (snd (applyStatus w b a k t)) = partyId b"
  "turnOrder (snd (applyStatus w b a k t)) = turnOrder b"
  "activeTurnIndex (snd (applyStatus w b a k t)) = activeTurnIndex b"
  "blog (snd (applyStatus w b a k t)) = blog b"
  "state (snd (applyStatus w b a k t)) = state b"
  by (simp_all add: applyStatus_def Let_def split: option.split statusField.split prod.split)
     (metis setStatusField_battle snd_conv)+

lemma prune_frame [simp]:
  "bid (pruneDeadFromTurnOrder w b) = bid b"
  "partyId (pruneDeadFromTurnOrder w b) = partyId b"
  "enemies (pruneDeadFromTurnOrder w b) = enemies b"
  "blog (pruneDeadFromTurnOrder w b) = blog b"
  "state (pruneDeadFromTurnOrder w b) = state b"
  by (simp_all add: pruneDeadFromTurnOrder_def Let_def)

lemma partyMembers_cong:
  "bid b' = bid b \<Longrightarrow> partyByBattleId w' = partyByBattleId w \<Longrightarrow> partyMembers w' b' = partyMembers w b"
  by (simp add: partyMembers_def getPartyForBattle_def)

lemma recomputeState_cong:
  "bid b' = bid b \<Longrightarrow> enemies b' = enemies b \<Longrightarrow> recomputeState w b' = recomputeState w b"
  by (simp add: recomputeState_def partyMembers_def getPartyForBattle_def)

lemma settle_frame [simp]:
  "bid (settle w b) = bid b"
  "partyId (settle w b) = partyId b"
  "enemies (settle w b) = enemies b"
  by (simp_all add: settle_def Let_def pushLog_def)

lemma settle_state: "state (settle w b) = recomputeState w b"
  by (simp add: settle_def Let_def pushLog_def recomputeState_cong [of "pruneDeadFromTurnOrder w b" b])

lemma settle_log:
  "state b = in_progress \<Longrightarrow>
   blog (settle w b) =
     blog b @ (case recomputeState w b of victory \<Rightarrow> [''Victory!''] | defeat \<Rightarrow> [''Defeat.''] | _ \<Rightarrow> [])"
  by (cases "recomputeState w b")
     (simp_all add: settle_def Let_def pushLog_def recomputeState_cong [of "pruneDeadFromTurnOrder w b" b])

lemma recomputeState_not_pending: "recomputeState w b \<noteq> pending"
  by (simp add: recomputeState_def Let_def)

lemma execute_resolved:
  assumes "state b = in_progress" and "lookupAbility (abilityId c) = Some a"
    and "abilityId c \<noteq> Some ''flee''"
    and "activeRef b = Some r" and "sourceId c = Some (rid r)"
    and "findUnitInBattle w b (sourceId c) = Some (sk, source)"
    and "findUnitInBattle w b (targetId c) = Some (tk, target)"
    and "payMpCost w a source = Inr w1"
  shows "execute w b c =
           (fst (applyStatus (fst (applyPower w1 a source target)) b a tk target),
            settle (fst (applyStatus (fst (applyPower w1 a source target)) b a tk target))
              (pushLog (snd (applyStatus (fst (applyPower w1 a source target)) b a tk target))
                 (actionLine a source target (fst (snd (applyPower w1 a source target)))
                    (snd (snd (applyPower w1 a source target))))))"
  using assms by (simp add: execute_def Let_def split: prod.split)

lemma payMpCost_ok:
  "mpCost a \<le> 0 \<or> (\<exists>m. statOf mp w s = Some m \<and> mpCost a \<le> m) \<Longrightarrow>
   payMpCost w a s =
     Inr (if mpCost a > 0
          then updStats w s (\<lambda>x. x\<lparr>mp := Some (max 0 (numOr0 (statOf mp w s) - mpCost a))\<rparr>)
          else w)"
  by (auto simp: payMpCost_def numOr0_def)


lemma actionLine_has_space: "CHR '' '' \<in> set (actionLine a s t n v)"
  by (simp add: actionLine_def Let_def)

lemma execute_resolved_state:
  assumes "state b = in_progress" and "lookupAbility (abilityId c) = Some a"
    and "abilityId c \<noteq> Some ''flee''"
    and "activeRef b = Some r" and "sourceId c = Some (rid r)"
    and "findUnitInBattle w b (sourceId c) = Some (sk, source)"
    and "findUnitInBattle w b (targetId c) = Some (tk, target)"
    and "payMpCost w a source = Inr w1"
  shows "state (snd (execute w b c)) = recomputeState (fst (execute w b c)) (snd (execute w b c))"
    and "\<exists>line. CHR '' '' \<in> set line \<and>
           blog (snd (execute w b c)) =
             blog b @ [line] @ (case state (snd (execute w b c)) of
                                   victory \<Rightarrow> [''Victory!''] | defeat \<Rightarrow> [''Defeat.''] | _ \<Rightarrow> [])"
proof -
  let ?w3 = "fst (applyStatus (fst (applyPower w1 a source target)) b a tk target)"
  let ?b3 = "snd (applyStatus (fst (applyPower w1 a source target)) b a tk target)"
  let ?line = "actionLine a source target (fst (snd (applyPower w1 a source target)))
                    (snd (snd (applyPower w1 a source target)))"
  have ex: "execute w b c = (?w3, settle ?w3 (pushLog ?b3 ?line))"
    using execute_resolved [OF assms] .
  have st: "state (settle ?w3 (pushLog ?b3 ?line)) = recomputeState ?w3 (pushLog ?b3 ?line)"
    by (rule settle_state)
  show "state (snd (execute w b c)) = recomputeState (fst (execute w b c)) (snd (execute w b c))"
    unfolding ex fst_conv snd_conv st
    by (rule recomputeState_cong [symmetric]) simp_all
  have "state (pushLog ?b3 ?line) = in_progress"
    using assms(1) by (simp add: pushLog_def)
  from settle_log [OF this, of ?w3]
  have "blog (snd (execute w b c)) =
          blog b @ [?line] @ (case state (snd (execute w b c)) of
                                   victory \<Rightarrow> [''Victory!''] | defeat \<Rightarrow> [''Defeat.''] | _ \<Rightarrow> [])"
    unfolding ex fst_conv snd_conv st by (simp add: pushLog_def)
  then show "\<exists>line. CHR '' '' \<in> set line \<and>
           blog (snd (execute w b c)) =
             blog b @ [line] @ (case state (snd (execute w b c)) of
                                   victory \<Rightarrow> [''Victory!''] | defeat \<Rightarrow> [''Defeat.''] | _ \<Rightarrow> [])"
    using actionLine_has_space by blast
qed

lemma payMpCost_reads:
  assumes "payMpCost w a s = Inr w1" and "\<And>x v. f (x\<lparr>mp := v\<rparr>) = f x"
  shows "statOf f w1 u = statOf f w u"
  using assms
  by (auto simp: payMpCost_def statOf_updStats_other split: if_splits option.splits)

lemma damageAmount_after_pay:
  "payMpCost w a s = Inr w1 \<Longrightarrow> damageAmount w1 a src tgt = damageAmount w a src tgt"
  by (simp add: damageAmount_def payMpCost_reads)

lemma healAmount_after_pay:
  "payMpCost w a s = Inr w1 \<Longrightarrow> healAmount w1 a src tgt = healAmount w a src tgt"
  by (simp add: healAmount_def payMpCost_reads)

lemma clampHp_fields [simp]:
  "mp (clampHp s) = mp s" "maxHp (clampHp s) = maxHp s" "maxMp (clampHp s) = maxMp s"
  "strength (clampHp s) = strength s" "defense (clampHp s) = defense s"
  "magic (clampHp s) = magic s" "speed (clampHp s) = speed s" "spirit (clampHp s) = spirit s"
  "luck (clampHp s) = luck s"
  by (simp_all add: clampHp_def split: option.split)

lemma clampHp_hp: "hp (clampHp (s\<lparr>hp := Some x\<rparr>)) = Some (clamped (maxHp s) x)"
  by (simp add: clampHp_def clamped_def split: option.split)

lemma applyPower_damage:
  assumes "apower a > 0" and "\<not> isHealingTarget a" and "statOf hp w t = Some h"
  shows "statOf hp (fst (applyPower w a s t)) t =
           Some (clamped (statOf maxHp w t) (max 0 (h - damageAmount w a s t)))"
proof -
  from statOf_Some_ustats [OF assms(3)] obtain ad where ad: "ustats t = Some ad" by blast
  then have mh: "statOf maxHp w t = maxHp (statsHeap w ad)"
    by (simp add: statOf_def statsOf_def)
  show ?thesis using assms ad
    by (simp add: applyPower_def Let_def statOf_updStats_same clampHp_hp mh)
qed

lemma applyPower_heal:
  assumes "apower a > 0" and "isHealingTarget a" and "statOf hp w t = Some h"
  shows "statOf hp (fst (applyPower w a s t)) t =
           Some (clamped (statOf maxHp w t) (h + healAmount w a s t))"
proof -
  from statOf_Some_ustats [OF assms(3)] obtain ad where ad: "ustats t = Some ad" by blast
  then have mh: "statOf maxHp w t = maxHp (statsHeap w ad)"
    by (simp add: statOf_def statsOf_def)
  show ?thesis using assms ad
    by (simp add: applyPower_def Let_def statOf_updStats_same clampHp_hp mh)
qed

lemma applyPower_no_hp:
  "statOf hp w t = None \<Longrightarrow> fst (applyPower w a s t) = w"
  by (simp add: applyPower_def Let_def)

lemma applyPower_keeps:
  assumes "\<And>x v. f (clampHp (x\<lparr>hp := v\<rparr>)) = f x"
  shows "statOf f (fst (applyPower w a s t)) u = statOf f w u"
  using assms
  by (simp add: applyPower_def Let_def statOf_updStats_other split: option.split)

lemma applyPower_frame [simp]:
  "arrayHeap (fst (applyPower w a s t)) = arrayHeap w"
  "nextArray (fst (applyPower w a s t)) = nextArray w"
  "partyByBattleId (fst (applyPower w a s t)) = partyByBattleId w"
  by (simp_all add: applyPower_def Let_def split: option.split)

lemma execute_resolved_stat:
  assumes "state b = in_progress" and "lookupAbility (abilityId c) = Some a"
    and "abilityId c \<noteq> Some ''flee''"
    and "activeRef b = Some r" and "sourceId c = Some (rid r)"
    and "findUnitInBattle w b (sourceId c) = Some (sk, source)"
    and "findUnitInBattle w b (targetId c) = Some (tk, target)"
    and "payMpCost w a source = Inr w1"
  shows "statOf f (fst (execute w b c)) u = statOf f (fst (applyPower w1 a source target)) u"
  unfolding execute_resolved [OF assms] fst_conv
  by (rule statOf_heap_cong) simp

lemma flee_has_no_power:
  "lookupAbility k = Some a \<Longrightarrow> apower a > 0 \<or> truthy (statusEffect a) \<or> mpCost a > 0
     \<or> targetType a \<noteq> Some ''self'' \<Longrightarrow> k \<noteq> Some ''flee''"
  by (auto simp: lookup_flee mkAbility_def)

lemma elementalMultiplier_table:
  "elementalMultiplier ae te =
     (if \<not> truthy ae \<or> ae = Some ''NULL'' \<or> \<not> truthy te \<or> te = Some ''NULL'' then 1
      else if Option.bind te ELEMENTAL_WEAKNESS = ae then 5 / 4
      else if Option.bind ae ELEMENTAL_WEAKNESS = te then 3 / 4
      else if ae = te then 9 / 10
      else 1)"
  by (cases ae; cases te) auto

lemma weakness_table:
  "map ELEMENTAL_WEAKNESS [''FIRE'', ''WATER'', ''EARTH'', ''WIND'', ''LIGHT'', ''SHADOW'', ''NULL'']
     = [Some ''WATER'', Some ''EARTH'', Some ''WIND'', Some ''FIRE'', Some ''SHADOW'', Some ''LIGHT'',
        Some ''NULL'']"
  by (simp add: ELEMENTAL_WEAKNESS_def)


lemma validate_verdict:
  "(ok (validateBattleCommand w bo player c) \<and> reason (validateBattleCommand w bo player c) = None)
   \<or> (\<not> ok (validateBattleCommand w bo player c)
       \<and> (\<exists>x \<in> set rejectionReasons. reason (validateBattleCommand w bo player c) = Some x))"
proof -
  define P where "P v \<longleftrightarrow> (ok v \<and> reason v = None)
      \<or> (\<not> ok v \<and> (\<exists>x \<in> set rejectionReasons. reason v = Some x))" for v :: verdict
  have pr: "\<And>x. x \<in> set rejectionReasons \<Longrightarrow> P (rejected x)"
    by (simp add: P_def rejected_def)
  have m: "''battle not in progress'' \<in> set rejectionReasons" "''no turn order'' \<in> set rejectionReasons"
    "''not player turn'' \<in> set rejectionReasons" "''battle not owned by player'' \<in> set rejectionReasons"
    "''invalid source for active turn'' \<in> set rejectionReasons" "''unknown ability'' \<in> set rejectionReasons"
    "''missing source'' \<in> set rejectionReasons" "''not enough MP'' \<in> set rejectionReasons"
    "''missing target'' \<in> set rejectionReasons" "''target not found'' \<in> set rejectionReasons"
    "''target must be enemy'' \<in> set rejectionReasons" "''target must be ally'' \<in> set rejectionReasons"
    "''unsupported target type'' \<in> set rejectionReasons"
    by (simp_all add: rejectionReasons_def)
  note rs = m [THEN pr]
  have pok: "P \<lparr>ok = True, reason = None\<rparr>" by (simp add: P_def)
  have pif: "\<And>c a b. P a \<Longrightarrow> P b \<Longrightarrow> P (if c then a else b)" by simp
  have popt: "\<And>x a f. P a \<Longrightarrow> (\<And>y. P (f y)) \<Longrightarrow> P (case x of None \<Rightarrow> a | Some y \<Rightarrow> f y)"
    by (simp split: option.split)
  have pprod: "\<And>x f. (\<And>a b. P (f a b)) \<Longrightarrow> P (case x of (a, b) \<Rightarrow> f a b)"
    by (simp split: prod.split)
  have "P (validateBattleCommand w bo player c)"
    unfolding validateBattleCommand_def Let_def
    by (intro pif popt pprod rs pok)
  then show ?thesis by (simp add: P_def)
qed

lemma validate_off_turn:
  assumes "bo = Some b" and "activeRef b = Some r" and "sourceId c \<noteq> Some (rid r)"
  shows "\<not> ok (validateBattleCommand w bo player c)"
  using assms
  by (simp add: validateBattleCommand_def rejected_def split: option.split)

lemma validate_no_active:
  assumes "bo = None \<or> (\<exists>b. bo = Some b \<and> activeRef b = None)"
  shows "\<not> ok (validateBattleCommand w bo player c)"
  using assms
  by (auto simp add: validateBattleCommand_def rejected_def split: option.split)

lemma find_SomeD: "find P xs = Some x \<Longrightarrow> P x \<and> x \<in> set xs"
  by (induction xs) (auto split: if_splits)

lemma unitById_SomeD:
  "unitById w b i = Some (k, u) \<Longrightarrow> i = Some (uid u)"
  by (auto simp: unitById_def split: option.splits dest: find_SomeD)

lemma validate_multi_target_rejected:
  assumes "lookupAbility (abilityId c) = Some a"
    and "targetType a = Some ''party'' \<or> targetType a = Some ''enemy_all''"
  shows "\<not> ok (validateBattleCommand w bo player c)"
  using assms
  by (auto simp add: validateBattleCommand_def rejected_def Let_def split: option.split prod.split)

lemma validate_multi_target_reason:
  assumes "state b = in_progress" and "activeRef b = Some r" and "rkind r = KParty"
    and "getPartyForBattle w (bid b) = Some p" and "playerId p = player"
    and "sourceId c = Some (rid r)"
    and "lookupAbility (abilityId c) = Some a"
    and "targetType a = Some ''party'' \<or> targetType a = Some ''enemy_all''"
    and "unitById w b (sourceId c) = Some (sk, source)"
    and "mpCost a \<le> 0 \<or> (\<exists>m. statOf mp w source = Some m \<and> mpCost a \<le> m)"
    and "unitById w b (targetId c) = Some (tk, target)"
  shows "validateBattleCommand w (Some b) player c = rejected ''unsupported target type''"
proof -
  have "turnOrder b \<noteq> []" using assms(2) by (auto simp: activeRef_def split: if_splits)
  moreover have "targetId c \<noteq> None" using unitById_SomeD [OF assms(11)] by simp
  ultimately show ?thesis using assms
    by (auto simp add: validateBattleCommand_def Let_def)
qed

lemma execute_hp_after:
  assumes "state b = in_progress" and "lookupAbility (abilityId c) = Some a"
    and "abilityId c \<noteq> Some ''flee''"
    and "activeRef b = Some r" and "sourceId c = Some (rid r)"
    and "findUnitInBattle w b (sourceId c) = Some (sk, source)"
    and "findUnitInBattle w b (targetId c) = Some (tk, target)"
    and "payMpCost w a source = Inr w1"
  shows "statOf hp (fst (execute w b c)) target =
           (if apower a > 0
            then map_option (\<lambda>h. clamped (statOf maxHp w target)
                              (if isHealingTarget a then h + healAmount w a source target
                               else max 0 (h - damageAmount w a source target)))
                   (statOf hp w target)
            else statOf hp w target)"
proof -
  note stat = execute_resolved_stat [OF assms]
  have hp1: "statOf hp w1 target = statOf hp w target"
    using payMpCost_reads [OF assms(8), of hp target] by simp
  have mh1: "statOf maxHp w1 target = statOf maxHp w target"
    using payMpCost_reads [OF assms(8), of maxHp target] by simp
  show ?thesis
  proof (cases "statOf hp w target")
    case None
    then show ?thesis unfolding stat using hp1 by (simp add: applyPower_no_hp)
  next
    case (Some h)
    then have h1: "statOf hp w1 target = Some h" using hp1 by simp
    show ?thesis
    proof (cases "apower a > 0")
      case False
      then show ?thesis unfolding stat using hp1 by (simp add: applyPower_def)
    next
      case True
      show ?thesis
      proof (cases "isHealingTarget a")
        case True
        from applyPower_heal [OF \<open>apower a > 0\<close> True h1, of source]
        show ?thesis unfolding stat
          using Some mh1 healAmount_after_pay [OF assms(8), of source target] True \<open>apower a > 0\<close>
          by simp
      next
        case False
        from applyPower_damage [OF \<open>apower a > 0\<close> False h1, of source]
        show ?thesis unfolding stat
          using Some mh1 damageAmount_after_pay [OF assms(8), of source target] False \<open>apower a > 0\<close>
          by simp
      qed
    qed
  qed
qed

lemma execute_mp_after:
  assumes "state b = in_progress" and "lookupAbility (abilityId c) = Some a"
    and "abilityId c \<noteq> Some ''flee''"
    and "activeRef b = Some r" and "sourceId c = Some (rid r)"
    and "findUnitInBattle w b (sourceId c) = Some (sk, source)"
    and "findUnitInBattle w b (targetId c) = Some (tk, target)"
    and "mpCost a \<le> 0 \<or> (\<exists>m. statOf mp w source = Some m \<and> mpCost a \<le> m)"
  shows "statOf mp (fst (execute w b c)) source =
           (if mpCost a > 0 then Some (max 0 (numOr0 (statOf mp w source) - mpCost a))
            else statOf mp w source)"
proof -
  let ?w1 = "if mpCost a > 0
        then updStats w source (\<lambda>x. x\<lparr>mp := Some (max 0 (numOr0 (statOf mp w source) - mpCost a))\<rparr>)
        else w"
  have pay: "payMpCost w a source = Inr ?w1" by (rule payMpCost_ok [OF assms(8)])
  note stat = execute_resolved_stat [OF assms(1-7) pay]
  have mp1: "statOf mp ?w1 source =
      (if mpCost a > 0 then Some (max 0 (numOr0 (statOf mp w source) - mpCost a))
       else statOf mp w source)"
  proof (cases "mpCost a > 0")
    case True
    with assms(8) obtain m where "statOf mp w source = Some m" by auto
    then obtain ad where "ustats source = Some ad" using statOf_Some_ustats by blast
    then show ?thesis using True by (simp add: statOf_updStats_same)
  qed simp
  show ?thesis
    unfolding stat using applyPower_keeps [of mp ?w1 a source target source] mp1 by simp
qed

lemma updStats_elsewhere:
  "Some ad \<noteq> ustats u \<Longrightarrow> statsHeap (updStats w u g) ad = statsHeap w ad"
  by (cases "ustats u") (auto simp: updStats_def)

lemma payMpCost_elsewhere:
  "payMpCost w a s = Inr w1 \<Longrightarrow> Some ad \<noteq> ustats s \<Longrightarrow> statsHeap w1 ad = statsHeap w ad"
  by (auto simp: payMpCost_def updStats_elsewhere split: if_splits option.splits)

lemma applyPower_elsewhere:
  "Some ad \<noteq> ustats t \<Longrightarrow> statsHeap (fst (applyPower w a s t)) ad = statsHeap w ad"
  by (simp add: applyPower_def Let_def updStats_elsewhere split: option.split)

lemma execute_stats_elsewhere:
  assumes "state b = in_progress" and "lookupAbility (abilityId c) = Some a"
    and "abilityId c \<noteq> Some ''flee''"
    and "activeRef b = Some r" and "sourceId c = Some (rid r)"
    and "findUnitInBattle w b (sourceId c) = Some (sk, source)"
    and "findUnitInBattle w b (targetId c) = Some (tk, target)"
    and "payMpCost w a source = Inr w1"
    and "Some ad \<noteq> ustats source" and "Some ad \<noteq> ustats target"
  shows "statsHeap (fst (execute w b c)) ad = statsHeap w ad"
  unfolding execute_resolved [OF assms(1-8)] fst_conv
  by (simp add: applyPower_elsewhere [OF assms(10)] payMpCost_elsewhere [OF assms(8,9)])

lemma insertBy_mset: "mset (insertBy cmp x xs) = add_mset x (mset xs)"
  by (induction xs) simp_all

lemma sortBy_mset: "mset (sortBy cmp xs) = mset xs"
  unfolding sortBy_def by (induction xs) (simp_all add: insertBy_mset)

lemma insertBy_set: "set (insertBy cmp x xs) = insert x (set xs)"
  by (induction xs) auto

lemma insertBy_sorted:
  assumes tot: "\<And>a b. cmp a b \<le> 0 \<or> cmp b a \<le> 0"
    and tr: "\<And>a b c. cmp a b \<le> 0 \<Longrightarrow> cmp b c \<le> 0 \<Longrightarrow> cmp a c \<le> 0"
    and "sorted_wrt (\<lambda>a b. cmp a b \<le> 0) xs"
  shows "sorted_wrt (\<lambda>a b. cmp a b \<le> 0) (insertBy cmp x xs)"
  using assms(3)
proof (induction xs)
  case Nil
  then show ?case by simp
next
  case (Cons y ys)
  show ?case
  proof (cases "cmp x y \<le> 0")
    case True
    then have "\<forall>z \<in> set ys. cmp x z \<le> 0" using Cons.prems tr by auto
    then show ?thesis using True Cons.prems by simp
  next
    case False
    then have "cmp y x \<le> 0" using tot by blast
    then show ?thesis using False Cons by (auto simp: insertBy_set)
  qed
qed

lemma sortBy_sorted:
  assumes tot: "\<And>a b. cmp a b \<le> 0 \<or> cmp b a \<le> 0"
    and tr: "\<And>a b c. cmp a b \<le> 0 \<Longrightarrow> cmp b c \<le> 0 \<Longrightarrow> cmp a c \<le> 0"
  shows "sorted_wrt (\<lambda>a b. cmp a b \<le> 0) (sortBy cmp xs)"
  unfolding sortBy_def
  by (induction xs) (simp_all add: insertBy_sorted [OF tot tr])

lemma compareEntries_before: "compareEntries lc a b \<le> 0 \<longleftrightarrow> entryBefore lc a b"
  by (auto simp: compareEntries_def entryBefore_def)

lemma entries_sorted:
  assumes "collation lc"
  shows "sorted_wrt (entryBefore lc) (sortBy (compareEntries lc) xs)"
proof -
  have tot: "\<And>a b. compareEntries lc a b \<le> 0 \<or> compareEntries lc b a \<le> 0"
    using assms unfolding compareEntries_before entryBefore_def collation_def
    by (metis linorder_less_linear)
  have tr: "\<And>a b c. compareEntries lc a b \<le> 0 \<Longrightarrow> compareEntries lc b c \<le> 0
      \<Longrightarrow> compareEntries lc a c \<le> 0"
  proof -
    fix a b c
    assume "compareEntries lc a b \<le> 0" and "compareEntries lc b c \<le> 0"
    then have ab: "entryBefore lc a b" and bc: "entryBefore lc b c"
      by (simp_all add: compareEntries_before)
    have lctr: "lc (etie a) (etie b) \<le> 0 \<Longrightarrow> lc (etie b) (etie c) \<le> 0 \<Longrightarrow> lc (etie a) (etie c) \<le> 0"
      using assms unfolding collation_def by blast
    have "entryBefore lc a c"
      using ab bc lctr unfolding entryBefore_def by auto
    then show "compareEntries lc a c \<le> 0" by (simp add: compareEntries_before)
  qed
  from sortBy_sorted [of "compareEntries lc", OF tot tr]
  show ?thesis by (simp add: compareEntries_before)
qed

lemma map_filter_factor:
  assumes "map f xs = map f' ys"
  shows "map (\<lambda>x. G (f x)) (filter (\<lambda>x. Q (f x)) xs) = map (\<lambda>y. G (f' y)) (filter (\<lambda>y. Q (f' y)) ys)"
proof -
  have "map (\<lambda>x. G (f x)) (filter (\<lambda>x. Q (f x)) xs) = map G (filter Q (map f xs))"
    by (simp add: filter_map comp_def)
  also have "\<dots> = map G (filter Q (map f' ys))" using assms by simp
  also have "\<dots> = map (\<lambda>y. G (f' y)) (filter (\<lambda>y. Q (f' y)) ys)"
    by (simp add: filter_map comp_def)
  finally show ?thesis .
qed

lemma codeUnitCompare_total: "codeUnitCompare x y \<le> 0 \<or> codeUnitCompare y x \<le> 0"
proof (induction x y rule: codeUnitCompare.induct)
  case (4 x xs y ys)
  then show ?case by (simp split: if_splits)
qed simp_all

lemma codeUnitCompare_trans:
  "codeUnitCompare x y \<le> 0 \<Longrightarrow> codeUnitCompare y z \<le> 0 \<Longrightarrow> codeUnitCompare x z \<le> 0"
proof (induction x y arbitrary: z rule: codeUnitCompare.induct)
  case 1
  then show ?case by simp
next
  case (2 y ys)
  then show ?case by (cases z) simp_all
next
  case (3 x xs)
  then show ?case by simp
next
  case (4 x xs y ys)
  show ?case
  proof (cases z)
    case Nil
    then show ?thesis using "4.prems" by simp
  next
    case (Cons c cs)
    consider "(of_char x :: nat) < of_char y" | "(of_char x :: nat) = of_char y" | "(of_char y :: nat) < of_char x"
      by linarith
    then show ?thesis
    proof cases
      case 1
      then show ?thesis using "4.prems" Cons by (auto split: if_splits)
    next
      case 2
      then have xy: "codeUnitCompare xs ys \<le> 0" using "4.prems"(1) by simp
      show ?thesis
      proof (cases "(of_char y :: nat) < of_char c")
        case True
        then show ?thesis using 2 Cons by simp
      next
        case False
        then have yc: "(of_char y :: nat) = of_char c" and "codeUnitCompare ys cs \<le> 0"
          using "4.prems"(2) Cons by (simp_all split: if_splits)
        then have "codeUnitCompare xs cs \<le> 0" using "4.IH" 2 xy by simp
        then show ?thesis using 2 yc Cons by simp
      qed
    next
      case 3
      then show ?thesis using "4.prems" by simp
    qed
  qed
qed

lemma codeUnitCompare_collation: "collation codeUnitCompare"
  unfolding collation_def using codeUnitCompare_total codeUnitCompare_trans by blast

lemma turnEntries_cong:
  assumes "map (\<lambda>m. (uid m, getUnitHp w m > 0, getUnitSpeed w m)) (case p of Some q \<Rightarrow> members q | None \<Rightarrow> [])
         = map (\<lambda>m. (uid m, getUnitHp w' m > 0, getUnitSpeed w' m)) (case p' of Some q \<Rightarrow> members q | None \<Rightarrow> [])"
    and "map (\<lambda>m. (uid m, getUnitHp w m > 0, getUnitSpeed w m)) (case foes of Some l \<Rightarrow> l | None \<Rightarrow> [])
         = map (\<lambda>m. (uid m, getUnitHp w' m > 0, getUnitSpeed w' m)) (case foes' of Some l \<Rightarrow> l | None \<Rightarrow> [])"
  shows "turnEntries w p foes = turnEntries w' p' foes'"
proof -
  have a: "map (partyEntry w) (filter (isAlive w) (case p of Some q \<Rightarrow> members q | None \<Rightarrow> []))
         = map (partyEntry w') (filter (isAlive w') (case p' of Some q \<Rightarrow> members q | None \<Rightarrow> []))"
    using map_filter_factor [OF assms(1),
        of "\<lambda>(i, a, s). \<lparr>eref = \<lparr>rkind = KParty, rid = i\<rparr>, espeed = s, etie = ''p_'' @ i\<rparr>"
           "\<lambda>(i, a, s). a"]
    by (simp add: partyEntry_def [abs_def] isAlive_def [abs_def])
  have b: "map (enemyEntry w) (filter (isAlive w) (case foes of Some l \<Rightarrow> l | None \<Rightarrow> []))
         = map (enemyEntry w') (filter (isAlive w') (case foes' of Some l \<Rightarrow> l | None \<Rightarrow> []))"
    using map_filter_factor [OF assms(2),
        of "\<lambda>(i, a, s). \<lparr>eref = \<lparr>rkind = KEnemy, rid = i\<rparr>, espeed = s, etie = ''e_'' @ i\<rparr>"
           "\<lambda>(i, a, s). a"]
    by (simp add: enemyEntry_def [abs_def] isAlive_def [abs_def])
  show ?thesis by (simp add: turnEntries_def Let_def a b)
qed

lemma order_example:
  "calculateInitialTurnOrder lc orderStore (Some orderParty) (Some orderEnemies) =
     [\<lparr>rkind = KParty, rid = ''p_fast''\<rparr>, \<lparr>rkind = KEnemy, rid = ''e_fast''\<rparr>,
      \<lparr>rkind = KEnemy, rid = ''e_mid''\<rparr>, \<lparr>rkind = KParty, rid = ''p_slow''\<rparr>]"
  by (simp add: engine_defs scenario_defs orderStore_def orderParty_def orderEnemies_def Let_def)

lemma rootCollate_collation: "collation rootCollate"
  unfolding collation_def rootCollate_def using codeUnitCompare_total codeUnitCompare_trans by blast

lemmas collate_defs = rootCollate_def sortKey_def primaryWeight_def caseWeight_def

lemma tie_example:
  "calculateInitialTurnOrder rootCollate tieStore (Some tieParty) (Some tieEnemies) =
     [\<lparr>rkind = KEnemy, rid = ''z''\<rparr>, \<lparr>rkind = KParty, rid = ''a''\<rparr>,
      \<lparr>rkind = KParty, rid = ''B''\<rparr>]"
  by (simp add: engine_defs scenario_defs collate_defs tieStore_def tieParty_def tieEnemies_def
      Let_def)

lemma tie_keys:
  "rootCollate ''p_a'' ''p_B'' = - 1" "codeUnitCompare ''p_B'' ''p_a'' = - 1"
  "plainKey ''e_z''" "plainKey ''p_a''" "plainKey ''p_B''"
  by (simp_all add: collate_defs plainKey_def)

lemma prune_index:
  "indexValid (pruneDeadFromTurnOrder w b)
   \<or> (turnOrder (pruneDeadFromTurnOrder w b) = [] \<and> activeTurnIndex (pruneDeadFromTurnOrder w b) = 0)"
  by (simp add: pruneDeadFromTurnOrder_def Let_def indexValid_def)

lemma settle_order:
  "turnOrder (settle w b) = turnOrder (pruneDeadFromTurnOrder w b)"
  "activeTurnIndex (settle w b) = activeTurnIndex (pruneDeadFromTurnOrder w b)"
  by (simp_all add: settle_def Let_def pushLog_def)

lemma settle_indexInvariant: "indexInvariant (settle w b)"
  using prune_index [of w b] recomputeState_not_pending [of w b]
  by (simp add: indexInvariant_def indexValid_def settle_order settle_state)

lemma execute_indexInvariant:
  assumes "indexInvariant b"
  shows "indexInvariant (snd (execute w b c))"
proof -
  define P where "P wb \<longleftrightarrow> indexInvariant (snd wb)" for wb :: "world \<times> battle"
  have p0: "P (w, b)" using assms by (simp add: P_def)
  have p1: "\<And>s. P (w, pushLog b s)"
    using assms by (simp add: P_def indexInvariant_def indexValid_def pushLog_def)
  have p2: "\<And>s. P (w, (pushLog b s)\<lparr>state := defeat\<rparr>)"
    using assms by (simp add: P_def indexInvariant_def indexValid_def pushLog_def)
  have p3: "\<And>w3 b4. P (w3, settle w3 b4)"
    by (simp add: P_def settle_indexInvariant)
  have pif: "\<And>c a b. P a \<Longrightarrow> P b \<Longrightarrow> P (if c then a else b)" by simp
  have popt: "\<And>x a f. P a \<Longrightarrow> (\<And>y. P (f y)) \<Longrightarrow> P (case x of None \<Rightarrow> a | Some y \<Rightarrow> f y)"
    by (simp split: option.split)
  have pprod: "\<And>x f. (\<And>a b. P (f a b)) \<Longrightarrow> P (case x of (a, b) \<Rightarrow> f a b)"
    by (simp split: prod.split)
  have psum: "\<And>x f g. (\<And>a. P (f a)) \<Longrightarrow> (\<And>b. P (g b)) \<Longrightarrow> P (case x of Inl a \<Rightarrow> f a | Inr b \<Rightarrow> g b)"
    by (simp split: sum.split)
  have "P (execute w b c)"
    unfolding execute_def Let_def
    by (intro pif popt pprod psum p0 p1 p2 p3)
  then show ?thesis by (simp add: P_def)
qed

lemma skipToAlive_frame:
  "turnOrder (skipToAlive w b n) = turnOrder b \<and> state (skipToAlive w b n) = state b
   \<and> (turnOrder b \<noteq> [] \<longrightarrow> activeTurnIndex b < length (turnOrder b)
        \<longrightarrow> activeTurnIndex (skipToAlive w b n) < length (turnOrder b))"
proof (induction n arbitrary: b)
  case 0
  then show ?case by simp
next
  case (Suc n)
  have s: "turnOrder (stepIndex b) = turnOrder b" "state (stepIndex b) = state b"
    "turnOrder b \<noteq> [] \<Longrightarrow> activeTurnIndex (stepIndex b) < length (turnOrder b)"
    by (simp_all add: stepIndex_def)
  show ?case using Suc.IH [of "stepIndex b"] s by auto
qed

lemma advance_invariants:
  assumes "indexInvariant b"
  shows "orderInvariant (advance w b) \<and> indexInvariant (advance w b)"
proof (cases "state b = in_progress")
  case False
  then show ?thesis using assms
    by (cases "state b") (auto simp: advance_def indexInvariant_def orderInvariant_def terminal_def)
next
  case True
  let ?b1 = "pruneDeadFromTurnOrder w b"
  let ?ns = "recomputeState w ?b1"
  note pi = prune_index [of w b]
  show ?thesis
  proof (cases "?ns = in_progress")
    case False
    then have t: "?ns = victory \<or> ?ns = defeat"
      using recomputeState_not_pending [of w ?b1] by (cases ?ns) auto
    have "advance w b = pushLog (?b1\<lparr>state := ?ns\<rparr>) (if ?ns = victory then ''Victory!'' else ''Defeat.'')"
      using True False by (simp add: advance_def Let_def)
    then show ?thesis using pi t
      by (auto simp: indexInvariant_def orderInvariant_def terminal_def indexValid_def pushLog_def)
  next
    case ip: True
    show ?thesis
    proof (cases "turnOrder ?b1 = []")
      case True
      then have "advance w b = pushLog (?b1\<lparr>state := defeat\<rparr>) ''Defeat.''"
        using \<open>state b = in_progress\<close> ip by (simp add: advance_def Let_def)
      then show ?thesis using pi True
        by (auto simp: indexInvariant_def orderInvariant_def terminal_def indexValid_def pushLog_def)
    next
      case False
      then have a: "advance w b = skipToAlive w (stepIndex ?b1) (length (turnOrder ?b1))"
        using \<open>state b = in_progress\<close> ip by (simp add: advance_def Let_def)
      have s: "turnOrder (stepIndex ?b1) = turnOrder ?b1" "state (stepIndex ?b1) = state b"
        "activeTurnIndex (stepIndex ?b1) < length (turnOrder ?b1)"
        using False by (simp_all add: stepIndex_def)
      from skipToAlive_frame [of w "stepIndex ?b1" "length (turnOrder ?b1)"] s False
      have "turnOrder (advance w b) = turnOrder ?b1" "state (advance w b) = state b"
        "activeTurnIndex (advance w b) < length (turnOrder ?b1)"
        unfolding a by simp_all
      then show ?thesis using False \<open>state b = in_progress\<close>
        by (simp add: indexInvariant_def orderInvariant_def indexValid_def)
    qed
  qed
qed

lemma createBattle_invariants:
  assumes "createBattle lc w p foes n = Inr wb"
  shows "orderInvariant (snd wb) \<and> indexInvariant (snd wb)"
  using assms
  by (auto simp: createBattle_def Let_def pushLog_def orderInvariant_def indexInvariant_def
      indexValid_def terminal_def split: option.splits if_splits)

lemma applyOperation_indexInvariant:
  "indexInvariant (snd wb) \<Longrightarrow> indexInvariant (snd (applyOperation wb op))"
  by (cases wb; cases op)
     (simp_all add: executeCommand_present advanceTurn_def execute_indexInvariant advance_invariants)

lemma runOperations_indexInvariant:
  "indexInvariant (snd wb) \<Longrightarrow> indexInvariant (snd (runOperations wb ops))"
  unfolding runOperations_def
  by (induction ops arbitrary: wb) (simp_all add: applyOperation_indexInvariant)

lemma runOperations_after_advance:
  assumes "indexInvariant (snd wb)" and "ops \<noteq> []" and "last ops = Advance"
  shows "orderInvariant (snd (runOperations wb ops))"
proof -
  from assms(2,3) obtain ops' where ops: "ops = ops' @ [Advance]"
    by (metis append_butlast_last_id)
  obtain w1 b1 where r: "runOperations wb ops' = (w1, b1)" by (cases "runOperations wb ops'")
  have "indexInvariant b1"
    using runOperations_indexInvariant [OF assms(1), of ops'] r by simp
  then show ?thesis
    using r by (simp add: ops runOperations_def advanceTurn_def advance_invariants)
qed

lemma createBattle_started:
  "pid p = Some i \<Longrightarrow>
   createBattle codeUnitCompare w (Some p) (Some es) ''battle_1'' = Inr (started w p es)"
  by (simp add: createBattle_def started_def Let_def)

lemma fallen_run:
  "turnOrder (snd (runOperations (started fallenStore mendParty mendEnemies) fallenOperations)) = []
   \<and> state (snd (runOperations (started fallenStore mendParty mendEnemies) fallenOperations)) = in_progress"
  unfolding fallen_started runOperations_def fallenOperations_def
  by (simp add: engine_defs scenario_defs fallenStore_def mendParty_def mendEnemies_def Let_def
      lookup_sage_mend lookup_basic_attack mkAbility_def)

lemma find_updateFirst:
  "(\<And>x. P (f x) = P x) \<Longrightarrow> find P (updateFirst P f xs) = map_option f (find P xs)"
  by (induction xs) simp_all

lemma updateFirst_map:
  "(\<And>x. g (f x) = g x) \<Longrightarrow> map g (updateFirst P f xs) = map g xs"
  by (induction xs) simp_all

lemma findUnitInBattle_cong:
  "partyByBattleId w' = partyByBattleId w \<Longrightarrow> bid b' = bid b \<Longrightarrow> enemies b' = enemies b \<Longrightarrow>
   findUnitInBattle w' b' i = findUnitInBattle w b i"
  by (simp add: findUnitInBattle_def partyMembers_def getPartyForBattle_def cong: option.case_cong)

lemma findUnitInBattle_SomeD:
  "findUnitInBattle w b i = Some (k, u) \<Longrightarrow> i = Some (uid u)"
  by (auto simp: findUnitInBattle_def split: option.splits dest: find_SomeD)

lemma statusList_cong:
  "arrayHeap w' = arrayHeap w \<Longrightarrow> statusList w' u = statusList w u"
  by (simp add: statusList_def cong: statusField.case_cong)

lemma findUnitInBattle_setStatusField:
  assumes "findUnitInBattle w b i = Some (k, t)"
  shows "findUnitInBattle (fst (setStatusField w b k (uid t) v)) (snd (setStatusField w b k (uid t) v)) i
           = Some (k, t\<lparr>statusEffects := v\<rparr>)"
proof -
  have i: "i = Some (uid t)" using findUnitInBattle_SomeD [OF assms] .
  have eq: "(\<lambda>m. Some (uid m) = i) = (\<lambda>m. uid m = uid t)" using i by auto
  show ?thesis
  proof (cases k)
    case KParty
    then obtain p where p: "partyByBattleId w (bid b) = Some p"
      and f: "find (\<lambda>m. uid m = uid t) (members p) = Some t"
      using assms unfolding eq findUnitInBattle_def partyMembers_def getPartyForBattle_def
      by (auto split: option.splits)
    show ?thesis using KParty p f
      unfolding findUnitInBattle_def eq
      by (simp add: setStatusField_def partyMembers_def getPartyForBattle_def find_updateFirst)
  next
    case KEnemy
    then have n: "find (\<lambda>m. uid m = uid t) (partyMembers w b) = None"
      and f: "find (\<lambda>m. uid m = uid t) (enemies b) = Some t"
      using assms unfolding eq findUnitInBattle_def
      by (auto split: option.splits)
    show ?thesis using KEnemy n f
      unfolding findUnitInBattle_def eq
      by (simp add: setStatusField_def partyMembers_def getPartyForBattle_def find_updateFirst)
  qed
qed

lemma applyStatus_target:
  assumes "findUnitInBattle w b i = Some (k, t)" and "statusEffect a = Some tag" and "tag \<noteq> []"
  shows "\<exists>t1 ad. findUnitInBattle (fst (applyStatus w b a k t)) (snd (applyStatus w b a k t)) i
                   = Some (k, t1)
           \<and> statusEffects t1 = Arr ad
           \<and> statusList (fst (applyStatus w b a k t)) t1 =
               (if tag \<in> set (statusList w t) then statusList w t else statusList w t @ [tag])"
proof (cases "statusEffects t")
  case (Arr ad)
  have "applyStatus w b a k t = (pushStatus w ad tag, b)"
    using assms Arr by (simp add: applyStatus_def)
  moreover have "findUnitInBattle (pushStatus w ad tag) b i = Some (k, t)"
    using assms(1) by (simp add: findUnitInBattle_cong [of "pushStatus w ad tag" w b b])
  moreover have "statusList (pushStatus w ad tag) t =
      (if tag \<in> set (statusList w t) then statusList w t else statusList w t @ [tag])"
    using Arr by (simp add: statusList_def pushStatus_def)
  ultimately show ?thesis using Arr by auto
next
  case NotArray
  let ?ad = "nextArray w"
  let ?w1 = "w\<lparr>arrayHeap := (arrayHeap w)(?ad := []), nextArray := Suc ?ad\<rparr>"
  let ?sf = "setStatusField ?w1 b k (uid t) (Arr ?ad)"
  have ap: "applyStatus w b a k t = (pushStatus (fst ?sf) ?ad tag, snd ?sf)"
    using assms NotArray by (simp add: applyStatus_def Let_def split: prod.split)
  have f1: "findUnitInBattle ?w1 b i = Some (k, t)"
    using assms(1) by (simp add: findUnitInBattle_cong [of ?w1 w b b])
  have f2: "findUnitInBattle (pushStatus (fst ?sf) ?ad tag) (snd ?sf) i
             = Some (k, t\<lparr>statusEffects := Arr ?ad\<rparr>)"
    using findUnitInBattle_setStatusField [OF f1, of "Arr ?ad"]
    by (simp add: findUnitInBattle_cong [of "pushStatus (fst ?sf) ?ad tag" "fst ?sf" "snd ?sf" "snd ?sf"])
  have "arrayHeap (fst ?sf) ?ad = []" by simp
  then have s: "statusList (pushStatus (fst ?sf) ?ad tag) (t\<lparr>statusEffects := Arr ?ad\<rparr>) = [tag]"
    by (simp add: statusList_def pushStatus_def)
  have old: "statusList w t = []" using NotArray by (simp add: statusList_def)
  show ?thesis unfolding ap fst_conv snd_conv using f2 s old by auto
qed

lemma payMpCost_frame:
  assumes "payMpCost w a s = Inr w1"
  shows "arrayHeap w1 = arrayHeap w" "nextArray w1 = nextArray w"
    "partyByBattleId w1 = partyByBattleId w"
  using assms by (auto simp: payMpCost_def split: if_splits option.splits)

lemma execute_status_first:
  assumes "state b = in_progress" and "lookupAbility (abilityId c) = Some a"
    and "abilityId c \<noteq> Some ''flee''"
    and "activeRef b = Some r" and "sourceId c = Some (rid r)"
    and "findUnitInBattle w b (sourceId c) = Some (sk, source)"
    and "findUnitInBattle w b (targetId c) = Some (tk, target)"
    and "payMpCost w a source = Inr w1"
    and "statusEffect a = Some tag" and "tag \<noteq> []"
  shows "\<exists>t1 ad. findUnitInBattle (fst (execute w b c)) (snd (execute w b c)) (targetId c) = Some (tk, t1)
           \<and> statusEffects t1 = Arr ad
           \<and> statusList (fst (execute w b c)) t1 =
               (if tag \<in> set (statusList w target) then statusList w target
                else statusList w target @ [tag])"
proof -
  let ?w2 = "fst (applyPower w1 a source target)"
  let ?as = "applyStatus ?w2 b a tk target"
  let ?b4 = "pushLog (snd ?as) (actionLine a source target (fst (snd (applyPower w1 a source target)))
                    (snd (snd (applyPower w1 a source target))))"
  have ex: "execute w b c = (fst ?as, settle (fst ?as) ?b4)"
    using execute_resolved [OF assms(1-8)] .
  have "findUnitInBattle ?w2 b (targetId c) = findUnitInBattle w b (targetId c)"
    by (rule findUnitInBattle_cong) (simp_all add: payMpCost_frame [OF assms(8)])
  then have f2: "findUnitInBattle ?w2 b (targetId c) = Some (tk, target)"
    using assms(7) by simp
  have s2: "statusList ?w2 target = statusList w target"
    by (rule statusList_cong) (simp add: payMpCost_frame [OF assms(8)])
  from applyStatus_target [OF f2 assms(9,10)] obtain t1 ad where
    t1: "findUnitInBattle (fst ?as) (snd ?as) (targetId c) = Some (tk, t1)"
    and ar: "statusEffects t1 = Arr ad"
    and sl: "statusList (fst ?as) t1 =
               (if tag \<in> set (statusList ?w2 target) then statusList ?w2 target
                else statusList ?w2 target @ [tag])"
    by blast
  have "findUnitInBattle (fst ?as) (settle (fst ?as) ?b4) (targetId c)
          = findUnitInBattle (fst ?as) (snd ?as) (targetId c)"
    by (rule findUnitInBattle_cong) (simp_all add: pushLog_def)
  then have "findUnitInBattle (fst ?as) (settle (fst ?as) ?b4) (targetId c) = Some (tk, t1)"
    using t1 by simp
  then show ?thesis unfolding ex fst_conv snd_conv using ar sl s2 by auto
qed

lemma execute_status_stable:
  assumes "lookupAbility (abilityId c) = Some a" and "statusEffect a = Some tag"
    and "findUnitInBattle w b (targetId c) = Some (tk, t)"
    and "statusEffects t = Arr ad" and "tag \<in> set (arrayHeap w ad)"
  shows "arrayHeap (fst (execute w b c)) = arrayHeap w
       \<and> partyByBattleId (fst (execute w b c)) = partyByBattleId w
       \<and> enemies (snd (execute w b c)) = enemies b
       \<and> bid (snd (execute w b c)) = bid b"
proof -
  have nf: "abilityId c \<noteq> Some ''flee''"
    using assms(1,2) by (auto simp: lookup_flee mkAbility_def)
  show ?thesis
  proof (cases "state b = in_progress")
    case False
    then show ?thesis by (simp add: execute_def)
  next
    case ip: True
    show ?thesis
    proof (cases "case activeRef b of None \<Rightarrow> True | Some r \<Rightarrow> Some (rid r) \<noteq> sourceId c")
      case True
      then have "execute w b c = (w, pushLog b ''Invalid command: not active unit.'')"
        using ip assms(1) nf by (simp add: execute_def)
      then show ?thesis by (simp add: pushLog_def)
    next
      case False
      then obtain r where r: "activeRef b = Some r" "sourceId c = Some (rid r)"
        by (cases "activeRef b") auto
      have on: "\<not> (case activeRef b of None \<Rightarrow> True | Some r \<Rightarrow> Some (rid r) \<noteq> sourceId c)"
        using False .
      show ?thesis
      proof (cases "findUnitInBattle w b (sourceId c)")
        case None
        then have "execute w b c = (w, pushLog b ''Invalid command: missing source/target.'')"
          using ip assms(1) nf on by (simp add: execute_def)
        then show ?thesis by (simp add: pushLog_def)
      next
        case (Some found)
        then obtain sk source where src: "findUnitInBattle w b (sourceId c) = Some (sk, source)"
          by (cases found) auto
        show ?thesis
        proof (cases "payMpCost w a source")
          case (Inl failure)
          then have "execute w b c = (w, pushLog b failure)"
            using ip assms(1,3) nf on src by (simp add: execute_def)
          then show ?thesis by (simp add: pushLog_def)
        next
          case (Inr w1)
          let ?w2 = "fst (applyPower w1 a source t)"
          have "tag \<in> set (arrayHeap ?w2 ad)"
            using assms(5) payMpCost_frame [OF Inr] by simp
          then have as: "applyStatus ?w2 b a tk t = (?w2, b)"
            using assms(2,4) by (simp add: applyStatus_def pushStatus_def)
          show ?thesis
            unfolding execute_resolved [OF ip assms(1) nf r src assms(3) Inr] as fst_conv snd_conv
            using payMpCost_frame [OF Inr] by (simp add: pushLog_def)
        qed
      qed
    qed
  qed
qed

lemma statOf_ustats_cong: "ustats u = ustats v \<Longrightarrow> statOf f w u = statOf f w v"
  by (simp add: statOf_def statsOf_def)

lemma spread_same: "spread e = e"
  by (simp add: spread_def)

lemma createBattle_enemies:
  assumes "createBattle lc w p (Some es) n = Inr wb"
  shows "enemies (snd wb) = map spread es"
  using assms
  by (auto simp: createBattle_def Let_def pushLog_def split: option.splits if_splits)

lemma setStatusField_enemy_fields:
  "map ustats (enemies (snd (setStatusField w b k i v))) = map ustats (enemies b)"
  "map uid (enemies (snd (setStatusField w b k i v))) = map uid (enemies b)"
  by (simp_all add: setStatusField_def updateFirst_map split: refKind.split option.split)

lemma applyStatus_enemy_fields:
  "map ustats (enemies (snd (applyStatus w b a k t))) = map ustats (enemies b)"
  "map uid (enemies (snd (applyStatus w b a k t))) = map uid (enemies b)"
  by (simp_all add: applyStatus_def Let_def case_prod_beta setStatusField_enemy_fields
      split: option.split statusField.split)

lemma execute_enemy_fields:
  "map ustats (enemies (snd (execute w b c))) = map ustats (enemies b)
   \<and> map uid (enemies (snd (execute w b c))) = map uid (enemies b)"
proof -
  define P where "P wb \<longleftrightarrow> map ustats (enemies (snd wb)) = map ustats (enemies b)
      \<and> map uid (enemies (snd wb)) = map uid (enemies b)" for wb :: "world \<times> battle"
  have p0: "P (w, b)" by (simp add: P_def)
  have p1: "\<And>s. P (w, pushLog b s)" by (simp add: P_def pushLog_def)
  have p2: "\<And>s. P (w, (pushLog b s)\<lparr>state := defeat\<rparr>)" by (simp add: P_def pushLog_def)
  have p3: "\<And>w3 w2 a k t s. P (w3, settle w3 (pushLog (snd (applyStatus w2 b a k t)) s))"
    by (simp add: P_def pushLog_def applyStatus_enemy_fields)
  have pif: "\<And>c a b. P a \<Longrightarrow> P b \<Longrightarrow> P (if c then a else b)" by simp
  have popt: "\<And>x a f. P a \<Longrightarrow> (\<And>y. P (f y)) \<Longrightarrow> P (case x of None \<Rightarrow> a | Some y \<Rightarrow> f y)"
    by (simp split: option.split)
  have psum: "\<And>x f g. (\<And>a. P (f a)) \<Longrightarrow> (\<And>b. P (g b)) \<Longrightarrow> P (case x of Inl a \<Rightarrow> f a | Inr b \<Rightarrow> g b)"
    by (simp split: sum.split)
  have "P (execute w b c)"
    unfolding execute_def Let_def case_prod_beta
    by (intro pif popt psum p0 p1 p2 p3)
  then show ?thesis by (simp add: P_def)
qed

lemma skipToAlive_enemies: "enemies (skipToAlive w b n) = enemies b"
  by (induction n arbitrary: b) (simp_all add: stepIndex_def)

lemma advance_enemies: "enemies (advance w b) = enemies b"
  by (simp add: advance_def Let_def skipToAlive_enemies stepIndex_def pushLog_def)

lemma applyOperation_enemy_fields:
  "map ustats (enemies (snd (applyOperation wb op))) = map ustats (enemies (snd wb))
   \<and> map uid (enemies (snd (applyOperation wb op))) = map uid (enemies (snd wb))"
  by (cases wb; cases op)
     (simp_all add: executeCommand_present advanceTurn_def execute_enemy_fields advance_enemies)

lemma runOperations_enemy_fields:
  "map ustats (enemies (snd (runOperations wb ops))) = map ustats (enemies (snd wb))
   \<and> map uid (enemies (snd (runOperations wb ops))) = map uid (enemies (snd wb))"
  unfolding runOperations_def
  by (induction ops arbitrary: wb) (simp_all add: applyOperation_enemy_fields)

lemma findUnitInBattle_enemyD:
  "findUnitInBattle w b i = Some (KEnemy, u) \<Longrightarrow> u \<in> set (enemies b)"
  by (auto simp: findUnitInBattle_def split: option.splits dest: find_SomeD)

lemma template_of_enemy:
  assumes "u \<in> set xs" and "map ustats xs = map ustats es" and "map uid xs = map uid es"
  shows "\<exists>i<length es. uid (es ! i) = uid u \<and> ustats (es ! i) = ustats u"
proof -
  from assms(1) obtain i where i: "i < length xs" "xs ! i = u" by (auto simp: in_set_conv_nth)
  have l: "length xs = length es" using assms(2) by (metis length_map)
  have "ustats (es ! i) = ustats (xs ! i)"
    using assms(2) i(1) l by (metis nth_map)
  moreover have "uid (es ! i) = uid (xs ! i)"
    using assms(3) i(1) l by (metis nth_map)
  ultimately show ?thesis using i l by auto
qed

lemma attack_run:
  "state (snd (runOperations (started attackStore attackParty attackEnemies) counterOperations)) = in_progress
   \<and> activeRef (snd (runOperations (started attackStore attackParty attackEnemies) counterOperations))
        = Some \<lparr>rkind = KEnemy, rid = ''e1''\<rparr>
   \<and> enemies (snd (runOperations (started attackStore attackParty attackEnemies) counterOperations)) = attackEnemies
   \<and> bid (snd (runOperations (started attackStore attackParty attackEnemies) counterOperations)) = ''battle_1''
   \<and> partyByBattleId (fst (runOperations (started attackStore attackParty attackEnemies) counterOperations)) ''battle_1''
        = Some attackParty
   \<and> statsHeap (fst (runOperations (started attackStore attackParty attackEnemies) counterOperations)) 1
        = makeStats 6 20 10 10 10 0 10 1 0 0"
  unfolding attack_started runOperations_def counterOperations_def
  by (simp add: engine_defs scenario_defs attackStore_def attackParty_def attackEnemies_def Let_def
      lookup_basic_attack mkAbility_def)

section \<open>State of the battle after a resolved action\<close>

text \<open>
  C3. An action is resolved when \<open>executeCommand\<close> passes all its guards: the battle is in
  progress, the ability is known and is not "flee", the source is the active turn
  reference, source and target are found, and the MP cost (if any) can be paid. After a
  resolved action the state is \<open>defeat\<close> if no party member has hp > 0, else \<open>victory\<close> if
  no enemy has hp > 0, else \<open>in_progress\<close> (so a mutual knock-out is a defeat), all read in
  the store and battle that \<open>executeCommand\<close> returns. The log grows by the line of the
  action, followed by exactly one "Victory!" when the state became \<open>victory\<close>, exactly one
  "Defeat." when it became \<open>defeat\<close>, and nothing otherwise; the line of the action is
  neither of the two.
\<close>

theorem state_recomputed_after_action:
  assumes "state b = in_progress"
    and "lookupAbility (abilityId c) = Some a"
    and "abilityId c \<noteq> Some ''flee''"
    and "activeRef b = Some r"
    and "sourceId c = Some (rid r)"
    and "findUnitInBattle w b (sourceId c) = Some (sk, source)"
    and "findUnitInBattle w b (targetId c) = Some (tk, target)"
    and "mpCost a \<le> 0 \<or> (\<exists>m. statOf mp w source = Some m \<and> mpCost a \<le> m)"
  shows "\<exists>w' b' line.
           executeCommand w (Some b) (Some c) = Inr (w', b')
           \<and> state b' = (if \<not> list_ex (isAlive w') (partyMembers w' b') then defeat
                         else if \<not> list_ex (isAlive w') (enemies b') then victory
                         else in_progress)
           \<and> blog b' = blog b @ [line] @ (if state b' = victory then [''Victory!'']
                                           else if state b' = defeat then [''Defeat.''] else [])
           \<and> line \<noteq> ''Victory!'' \<and> line \<noteq> ''Defeat.''"
proof -
  obtain w1 where pay: "payMpCost w a source = Inr w1"
    using payMpCost_ok [OF assms(8)] by blast
  note st = execute_resolved_state [OF assms(1-7) pay]
  from st(2) obtain line where line: "CHR '' '' \<in> set line"
    and lg: "blog (snd (execute w b c)) =
             blog b @ [line] @ (case state (snd (execute w b c)) of
                                   victory \<Rightarrow> [''Victory!''] | defeat \<Rightarrow> [''Defeat.''] | _ \<Rightarrow> [])"
    by blast
  have "state (snd (execute w b c)) \<noteq> pending"
    using st(1) recomputeState_not_pending by simp
  then have lg': "blog (snd (execute w b c)) =
      blog b @ [line] @ (if state (snd (execute w b c)) = victory then [''Victory!'']
                         else if state (snd (execute w b c)) = defeat then [''Defeat.''] else [])"
    using lg by (cases "state (snd (execute w b c))") simp_all
  have ne: "line \<noteq> ''Victory!''" "line \<noteq> ''Defeat.''"
    using line by auto
  have "executeCommand w (Some b) (Some c) = Inr (fst (execute w b c), snd (execute w b c))"
    by (simp add: executeCommand_present)
  moreover have "state (snd (execute w b c)) =
      (if \<not> list_ex (isAlive (fst (execute w b c))) (partyMembers (fst (execute w b c)) (snd (execute w b c)))
       then defeat
       else if \<not> list_ex (isAlive (fst (execute w b c))) (enemies (snd (execute w b c))) then victory
       else in_progress)"
    using st(1) by (simp add: recomputeState_def Let_def)
  ultimately show ?thesis using lg' ne by blast
qed


theorem state_recomputed_after_action_witness:
  "state mendBattle = in_progress
   \<and> lookupAbility (abilityId (makeCommand ''c1'' ''e1'' ''basic_attack'')) = Some basicAttack
   \<and> abilityId (makeCommand ''c1'' ''e1'' ''basic_attack'') \<noteq> Some ''flee''
   \<and> activeRef mendBattle = Some \<lparr>rkind = KParty, rid = ''c1''\<rparr>
   \<and> sourceId (makeCommand ''c1'' ''e1'' ''basic_attack'') = Some (rid \<lparr>rkind = KParty, rid = ''c1''\<rparr>)
   \<and> findUnitInBattle mendWorld mendBattle (sourceId (makeCommand ''c1'' ''e1'' ''basic_attack''))
       = Some (KParty, makeUnit ''c1'' ''Lysa'' 0)
   \<and> findUnitInBattle mendWorld mendBattle (targetId (makeCommand ''c1'' ''e1'' ''basic_attack''))
       = Some (KEnemy, makeUnit ''e1'' ''Dummy'' 2)
   \<and> mpCost basicAttack \<le> 0
   \<and> (\<exists>w' b' line.
         executeCommand mendWorld (Some mendBattle) (Some (makeCommand ''c1'' ''e1'' ''basic_attack''))
           = Inr (w', b')
         \<and> state b' = (if \<not> list_ex (isAlive w') (partyMembers w' b') then defeat
                       else if \<not> list_ex (isAlive w') (enemies b') then victory
                       else in_progress)
         \<and> blog b' = blog mendBattle @ [line] @ (if state b' = victory then [''Victory!'']
                                                 else if state b' = defeat then [''Defeat.''] else [])
         \<and> line \<noteq> ''Victory!'' \<and> line \<noteq> ''Defeat.'')"
proof -
  have h1: "state mendBattle = in_progress" by (simp add: mend_started)
  have h2: "lookupAbility (abilityId (makeCommand ''c1'' ''e1'' ''basic_attack'')) = Some basicAttack"
    by (simp add: makeCommand_def lookup_basic_attack)
  have h3: "abilityId (makeCommand ''c1'' ''e1'' ''basic_attack'') \<noteq> Some ''flee''"
    by (simp add: makeCommand_def)
  have h4: "activeRef mendBattle = Some \<lparr>rkind = KParty, rid = ''c1''\<rparr>"
    by (simp add: mend_started activeRef_def)
  have h5: "sourceId (makeCommand ''c1'' ''e1'' ''basic_attack'') = Some (rid \<lparr>rkind = KParty, rid = ''c1''\<rparr>)"
    by (simp add: makeCommand_def)
  have h6: "findUnitInBattle mendWorld mendBattle (sourceId (makeCommand ''c1'' ''e1'' ''basic_attack''))
       = Some (KParty, makeUnit ''c1'' ''Lysa'' 0)"
    unfolding mend_started by (simp add: scenario_eval mendParty_def mendEnemies_def)
  have h7: "findUnitInBattle mendWorld mendBattle (targetId (makeCommand ''c1'' ''e1'' ''basic_attack''))
       = Some (KEnemy, makeUnit ''e1'' ''Dummy'' 2)"
    unfolding mend_started by (simp add: scenario_eval mendParty_def mendEnemies_def)
  have h8: "mpCost basicAttack \<le> 0" by (simp add: mkAbility_def)
  from state_recomputed_after_action [OF h1 h2 h3 h4 h5 h6 h7 disjI1 [OF h8]] h1 h2 h3 h4 h5 h6 h7 h8
  show ?thesis by (intro conjI)
qed

section \<open>Damage\<close>

text \<open>
  C1 (amended). A damage command is valid when \<open>executeCommand\<close> accepts it: the battle is in
  progress, the ability is known with power > 0 and a target type other than ally_single,
  party and self, the source is the active turn reference, source and target are found,
  and the MP cost (if any) is covered. For such a command and a target whose hp is the
  number \<open>h\<close>, the target's hp afterwards is \<open>h - amount\<close>, floored at 0 and clamped to
  [0, maxHp] (when maxHp is a number), where amount = max(1, floor((offense - mitigation) *
  mult)) is computed in doubles: offense is the source's strength for a NULL-element
  ability and its magic otherwise, plus the power; mitigation is the target's defense
  resp. spirit times the double 0.6, rounded; the difference is rounded, and so is its
  product with the double of the multiplier. The multiplier is 1 when either element is
  absent, empty or NULL, 1.25 when W[targetElement] = abilityElement, else 0.75 when
  W[abilityElement] = targetElement, else 0.9 when both are equal, else 1, for the weakness
  table W.
\<close>

theorem damage_formula:
  assumes "state b = in_progress"
    and "lookupAbility (abilityId c) = Some a"
    and "apower a > 0"
    and "targetType a \<notin> {Some ''ally_single'', Some ''party'', Some ''self''}"
    and "activeRef b = Some r"
    and "sourceId c = Some (rid r)"
    and "findUnitInBattle w b (sourceId c) = Some (sk, source)"
    and "findUnitInBattle w b (targetId c) = Some (tk, target)"
    and "mpCost a \<le> 0 \<or> (\<exists>m. statOf mp w source = Some m \<and> mpCost a \<le> m)"
    and "statOf hp w target = Some h"
  shows "(let physical = (aelement a = Some ''NULL'');
              mult = binary64 (elementalMultiplier (aelement a) (getUnitElement target));
              offense = binary64 (of_int ((if physical then numOr0 (statOf strength w source)
                                           else numOr0 (statOf magic w source)) + apower a));
              mitigation = binary64 (of_int (if physical then numOr0 (statOf defense w target)
                                             else numOr0 (statOf spirit w target))
                                     * binary64 (6 / 10));
              amount = max 1 \<lfloor>binary64 (binary64 (offense - mitigation) * mult)\<rfloor>
          in \<exists>w' b'. executeCommand w (Some b) (Some c) = Inr (w', b')
                \<and> statOf hp w' target = Some (clamped (statOf maxHp w target) (max 0 (h - amount))))
         \<and> (\<forall>ae te. elementalMultiplier ae te =
               (if \<not> truthy ae \<or> ae = Some ''NULL'' \<or> \<not> truthy te \<or> te = Some ''NULL'' then 1
                else if Option.bind te ELEMENTAL_WEAKNESS = ae then 5 / 4
                else if Option.bind ae ELEMENTAL_WEAKNESS = te then 3 / 4
                else if ae = te then 9 / 10
                else 1))
         \<and> map ELEMENTAL_WEAKNESS
               [''FIRE'', ''WATER'', ''EARTH'', ''WIND'', ''LIGHT'', ''SHADOW'', ''NULL'']
             = [Some ''WATER'', Some ''EARTH'', Some ''WIND'', Some ''FIRE'', Some ''SHADOW'',
                Some ''LIGHT'', Some ''NULL'']"
proof -
  have nh: "\<not> isHealingTarget a" using assms(4) by (simp add: isHealingTarget_def)
  have nf: "abilityId c \<noteq> Some ''flee''"
    using flee_has_no_power [OF assms(2)] assms(3) by blast
  obtain w1 where pay: "payMpCost w a source = Inr w1"
    using payMpCost_ok [OF assms(9)] by blast
  have hp1: "statOf hp w1 target = Some h"
    using payMpCost_reads [OF pay, of hp target] assms(10) by simp
  have mh1: "statOf maxHp w1 target = statOf maxHp w target"
    using payMpCost_reads [OF pay, of maxHp target] by simp
  have "statOf hp (fst (execute w b c)) target =
          Some (clamped (statOf maxHp w target) (max 0 (h - damageAmount w a source target)))"
    unfolding execute_resolved_stat [OF assms(1,2) nf assms(5-8) pay]
    using applyPower_damage [OF assms(3) nh hp1, of source]
    by (simp add: mh1 damageAmount_after_pay [OF pay])
  then have "\<exists>w' b'. executeCommand w (Some b) (Some c) = Inr (w', b')
      \<and> statOf hp w' target =
          Some (clamped (statOf maxHp w target) (max 0 (h - damageAmount w a source target)))"
    by (metis executeCommand_present prod.collapse)
  then show ?thesis
    unfolding damageAmount_def Let_def
    using elementalMultiplier_table weakness_table by blast
qed

theorem damage_formula_witness:
  "state weakBattle = in_progress
   \<and> lookupAbility (abilityId (makeCommand ''c1'' ''e1'' ''crystalborne_lumen_arc'')) = Some lumenArc
   \<and> apower lumenArc > 0
   \<and> targetType lumenArc \<notin> {Some ''ally_single'', Some ''party'', Some ''self''}
   \<and> activeRef weakBattle = Some \<lparr>rkind = KParty, rid = ''c1''\<rparr>
   \<and> sourceId (makeCommand ''c1'' ''e1'' ''crystalborne_lumen_arc'')
       = Some (rid \<lparr>rkind = KParty, rid = ''c1''\<rparr>)
   \<and> findUnitInBattle weakWorld weakBattle (sourceId (makeCommand ''c1'' ''e1'' ''crystalborne_lumen_arc''))
       = Some (KParty, makeUnit ''c1'' ''Lume'' 0)
   \<and> findUnitInBattle weakWorld weakBattle (targetId (makeCommand ''c1'' ''e1'' ''crystalborne_lumen_arc''))
       = Some (KEnemy, shade)
   \<and> statOf mp weakWorld (makeUnit ''c1'' ''Lume'' 0) = Some 10
   \<and> mpCost lumenArc = 4
   \<and> statOf magic weakWorld (makeUnit ''c1'' ''Lume'' 0) = Some 9
   \<and> statOf spirit weakWorld shade = Some 28
   \<and> elementalMultiplier (aelement lumenArc) (getUnitElement shade) = 5 / 4
   \<and> statOf hp weakWorld shade = Some 30
   \<and> (\<exists>w' b'. executeCommand weakWorld (Some weakBattle)
                 (Some (makeCommand ''c1'' ''e1'' ''crystalborne_lumen_arc'')) = Inr (w', b')
         \<and> statOf hp w' shade = Some 27)"
proof -
  let ?c = "makeCommand ''c1'' ''e1'' ''crystalborne_lumen_arc''"
  let ?src = "makeUnit ''c1'' ''Lume'' 0"
  have h1: "state weakBattle = in_progress" by (simp add: weak_started)
  have h2: "lookupAbility (abilityId ?c) = Some lumenArc"
    by (simp add: makeCommand_def lookup_lumen_arc)
  have h3: "apower lumenArc > 0" by (simp add: mkAbility_def)
  have h4: "targetType lumenArc \<notin> {Some ''ally_single'', Some ''party'', Some ''self''}"
    by (simp add: mkAbility_def)
  have h5: "activeRef weakBattle = Some \<lparr>rkind = KParty, rid = ''c1''\<rparr>"
    by (simp add: weak_started activeRef_def)
  have h6: "sourceId ?c = Some (rid \<lparr>rkind = KParty, rid = ''c1''\<rparr>)"
    by (simp add: makeCommand_def)
  have h7: "findUnitInBattle weakWorld weakBattle (sourceId ?c) = Some (KParty, ?src)"
    unfolding weak_started by (simp add: scenario_eval weakParty_def weakEnemies_def shade_def)
  have h8: "findUnitInBattle weakWorld weakBattle (targetId ?c) = Some (KEnemy, shade)"
    unfolding weak_started by (simp add: scenario_eval weakParty_def weakEnemies_def shade_def)
  have mp0: "statOf mp weakWorld ?src = Some 10"
    unfolding weak_started by (simp add: scenario_eval weakStore_def)
  have cost: "mpCost lumenArc = 4" by (simp add: mkAbility_def)
  have h9: "mpCost lumenArc \<le> 0 \<or> (\<exists>m. statOf mp weakWorld ?src = Some m \<and> mpCost lumenArc \<le> m)"
    using mp0 by (simp add: mkAbility_def)
  have mag: "statOf magic weakWorld ?src = Some 9"
    unfolding weak_started by (simp add: scenario_eval weakStore_def)
  have spi: "statOf spirit weakWorld shade = Some 28"
    unfolding weak_started by (simp add: scenario_eval weakStore_def shade_def)
  have mul: "elementalMultiplier (aelement lumenArc) (getUnitElement shade) = 5 / 4"
    by (simp add: mkAbility_def getUnitElement_def shade_def makeUnit_def trimNonEmpty_def
        isWhitespace_def ELEMENTAL_WEAKNESS_def)
  have h10: "statOf hp weakWorld shade = Some 30"
    unfolding weak_started by (simp add: scenario_eval weakStore_def shade_def)
  have mh: "statOf maxHp weakWorld shade = Some 30"
    unfolding weak_started by (simp add: scenario_eval weakStore_def shade_def)
  have el: "aelement lumenArc \<noteq> Some ''NULL''" "apower lumenArc = 11"
    by (simp_all add: mkAbility_def)
  from damage_formula [OF h1 h2 h3 h4 h5 h6 h7 h8 h9 h10]
  obtain w' b' where ex: "executeCommand weakWorld (Some weakBattle) (Some ?c) = Inr (w', b')"
    and hpv: "statOf hp w' shade =
      Some (clamped (statOf maxHp weakWorld shade)
             (max 0 (30 - max 1 \<lfloor>binary64 (binary64
                (binary64 (of_int ((if aelement lumenArc = Some ''NULL''
                     then numOr0 (statOf strength weakWorld ?src)
                     else numOr0 (statOf magic weakWorld ?src)) + apower lumenArc))
                 - binary64 (of_int (if aelement lumenArc = Some ''NULL''
                     then numOr0 (statOf defense weakWorld shade)
                     else numOr0 (statOf spirit weakWorld shade)) * binary64 (6 / 10)))
                * binary64 (elementalMultiplier (aelement lumenArc) (getUnitElement shade)))\<rfloor>)))"
    unfolding Let_def by blast
  have am: "\<lfloor>binary64 (binary64 (binary64 (of_int (9 + 11)) - binary64 (of_int 28 * binary64 (6 / 10)))
                * binary64 (5 / 4))\<rfloor> = 3"
    using lumen_arc_doubles by simp
  have "statOf hp w' shade = Some 27"
    using hpv unfolding mh mag spi mul el(2) if_not_P [OF el(1)] numOr0_def option.case am
    by (simp add: clamped_def)
  with ex have "\<exists>w' b'. executeCommand weakWorld (Some weakBattle) (Some ?c) = Inr (w', b')
         \<and> statOf hp w' shade = Some 27"
    by blast
  with h1 h2 h3 h4 h5 h6 h7 h8 mp0 cost mag spi mul h10 show ?thesis by (intro conjI)
qed

text \<open>
  The amount of the claim, with the products taken exactly, is not what the code
  subtracts. In the battle above the exact formula gives (20 - 28 * 0.6) * 1.25 = 4; in
  doubles the product is just below 4, the floor is 3, and the enemy is left with 27 HP,
  not 26.
\<close>

theorem exact_damage_amount_counterexample:
  "state weakBattle = in_progress
   \<and> lookupAbility (abilityId (makeCommand ''c1'' ''e1'' ''crystalborne_lumen_arc'')) = Some lumenArc
   \<and> statOf magic weakWorld (makeUnit ''c1'' ''Lume'' 0) = Some 9
   \<and> apower lumenArc = 11
   \<and> statOf spirit weakWorld shade = Some 28
   \<and> elementalMultiplier (aelement lumenArc) (getUnitElement shade) = 5 / 4
   \<and> max 1 \<lfloor>(of_int (9 + 11) - of_int 28 * (6 / 10)) * (5 / 4 :: rat)\<rfloor> = 4
   \<and> statOf hp weakWorld shade = Some 30
   \<and> (\<exists>w' b'. executeCommand weakWorld (Some weakBattle)
                 (Some (makeCommand ''c1'' ''e1'' ''crystalborne_lumen_arc'')) = Inr (w', b')
         \<and> statOf hp w' shade = Some 27)"
proof -
  let ?c = "makeCommand ''c1'' ''e1'' ''crystalborne_lumen_arc''"
  let ?src = "makeUnit ''c1'' ''Lume'' 0"
  have h1: "state weakBattle = in_progress" by (simp add: weak_started)
  have h2: "lookupAbility (abilityId ?c) = Some lumenArc"
    by (simp add: makeCommand_def lookup_lumen_arc)
  have h3: "abilityId ?c \<noteq> Some ''flee''" by (simp add: makeCommand_def)
  have h5: "activeRef weakBattle = Some \<lparr>rkind = KParty, rid = ''c1''\<rparr>"
    by (simp add: weak_started activeRef_def)
  have h6: "sourceId ?c = Some (rid \<lparr>rkind = KParty, rid = ''c1''\<rparr>)"
    by (simp add: makeCommand_def)
  have h7: "findUnitInBattle weakWorld weakBattle (sourceId ?c) = Some (KParty, ?src)"
    unfolding weak_started by (simp add: scenario_eval weakParty_def weakEnemies_def shade_def)
  have h8: "findUnitInBattle weakWorld weakBattle (targetId ?c) = Some (KEnemy, shade)"
    unfolding weak_started by (simp add: scenario_eval weakParty_def weakEnemies_def shade_def)
  have mp0: "statOf mp weakWorld ?src = Some 10"
    unfolding weak_started by (simp add: scenario_eval weakStore_def)
  have h9: "mpCost lumenArc \<le> 0 \<or> (\<exists>m. statOf mp weakWorld ?src = Some m \<and> mpCost lumenArc \<le> m)"
    using mp0 by (simp add: mkAbility_def)
  have mag: "statOf magic weakWorld ?src = Some 9"
    unfolding weak_started by (simp add: scenario_eval weakStore_def)
  have spi: "statOf spirit weakWorld shade = Some 28"
    unfolding weak_started by (simp add: scenario_eval weakStore_def shade_def)
  have mul: "elementalMultiplier (aelement lumenArc) (getUnitElement shade) = 5 / 4"
    by (simp add: mkAbility_def getUnitElement_def shade_def makeUnit_def trimNonEmpty_def
        isWhitespace_def ELEMENTAL_WEAKNESS_def)
  have h10: "statOf hp weakWorld shade = Some 30"
    unfolding weak_started by (simp add: scenario_eval weakStore_def shade_def)
  have mh: "statOf maxHp weakWorld shade = Some 30"
    unfolding weak_started by (simp add: scenario_eval weakStore_def shade_def)
  have el: "aelement lumenArc \<noteq> Some ''NULL''" "apower lumenArc = 11" "apower lumenArc > 0"
    "\<not> isHealingTarget lumenArc"
    by (simp_all add: mkAbility_def isHealingTarget_def)
  have exact: "max 1 \<lfloor>(of_int (9 + 11) - of_int 28 * (6 / 10)) * (5 / 4 :: rat)\<rfloor> = 4"
    by simp
  obtain w1 where pay: "payMpCost weakWorld lumenArc ?src = Inr w1"
    using payMpCost_ok [OF h9] by blast
  have am: "\<lfloor>binary64 (binary64 (binary64 (of_int (9 + 11)) - binary64 (of_int 28 * binary64 (6 / 10)))
                * binary64 (5 / 4))\<rfloor> = 3"
    using lumen_arc_doubles by simp
  have dmg: "damageAmount weakWorld lumenArc ?src shade = 3"
    unfolding damageAmount_def Let_def mag spi mul el(2) if_not_P [OF el(1)] numOr0_def option.case am
    by simp
  have "statOf hp (fst (execute weakWorld weakBattle ?c)) shade = Some 27"
    unfolding execute_hp_after [OF h1 h2 h3 h5 h6 h7 h8 pay] dmg h10 mh
    using el by (simp add: clamped_def)
  then have "\<exists>w' b'. executeCommand weakWorld (Some weakBattle) (Some ?c) = Inr (w', b')
         \<and> statOf hp w' shade = Some 27"
    by (metis executeCommand_present prod.collapse)
  with h1 h2 mag el(2) spi mul exact h10 show ?thesis by (intro conjI)
qed

section \<open>Healing and the MP cost\<close>



section \<open>The validator\<close>

text \<open>
  C5. \<open>validateBattleCommand\<close> only reads its arguments and the party side map: the source
  function contains no assignment, so its embedding returns a verdict and nothing else,
  and the battle, the party and the store after the call are the ones before it. The
  verdict is either ok with no reason, or not ok with one of the thirteen reason strings;
  no input makes it fail. When there is no battle, no active turn reference, or the
  command's source id is not the id of the active turn reference, the verdict is not ok.
\<close>

theorem validator_is_a_check:
  "((ok (validateBattleCommand w bo player c) \<and> reason (validateBattleCommand w bo player c) = None)
    \<or> (\<not> ok (validateBattleCommand w bo player c)
        \<and> (\<exists>x \<in> set rejectionReasons. reason (validateBattleCommand w bo player c) = Some x)))
   \<and> (bo = None \<longrightarrow> \<not> ok (validateBattleCommand w bo player c))
   \<and> (\<forall>b. bo = Some b \<and> activeRef b = None \<longrightarrow> \<not> ok (validateBattleCommand w bo player c))
   \<and> (\<forall>b r. bo = Some b \<and> activeRef b = Some r \<and> sourceId c \<noteq> Some (rid r)
          \<longrightarrow> \<not> ok (validateBattleCommand w bo player c))"
  using validate_verdict [of w bo player c] validate_off_turn [of bo _ _ c w player]
    validate_no_active [of bo w player c]
  by blast

theorem validator_is_a_check_witness:
  "activeRef attackBattle = Some \<lparr>rkind = KParty, rid = ''c1''\<rparr>
   \<and> sourceId (makeCommand ''e1'' ''c1'' ''basic_attack'') \<noteq> Some (rid \<lparr>rkind = KParty, rid = ''c1''\<rparr>)
   \<and> \<not> ok (validateBattleCommand attackWorld (Some attackBattle) (Some ''player1'')
              (makeCommand ''e1'' ''c1'' ''basic_attack''))
   \<and> reason (validateBattleCommand attackWorld (Some attackBattle) (Some ''player1'')
              (makeCommand ''e1'' ''c1'' ''basic_attack'')) = Some ''invalid source for active turn''"
proof -
  have h1: "activeRef attackBattle = Some \<lparr>rkind = KParty, rid = ''c1''\<rparr>"
    by (simp add: attack_started activeRef_def)
  have h2: "sourceId (makeCommand ''e1'' ''c1'' ''basic_attack'') \<noteq> Some (rid \<lparr>rkind = KParty, rid = ''c1''\<rparr>)"
    by (simp add: makeCommand_def)
  have h3: "\<not> ok (validateBattleCommand attackWorld (Some attackBattle) (Some ''player1'')
              (makeCommand ''e1'' ''c1'' ''basic_attack''))"
    using validator_is_a_check [of attackWorld "Some attackBattle" "Some ''player1''"
        "makeCommand ''e1'' ''c1'' ''basic_attack''"] h1 h2 by blast
  have h4: "reason (validateBattleCommand attackWorld (Some attackBattle) (Some ''player1'')
              (makeCommand ''e1'' ''c1'' ''basic_attack'')) = Some ''invalid source for active turn''"
    unfolding attack_started
    by (simp add: validateBattleCommand_def activeRef_def getPartyForBattle_def attackParty_def
        makeParty_def makeCommand_def rejected_def)
  from h1 h2 h3 h4 show ?thesis by (intro conjI)
qed

section \<open>Multi-target abilities\<close>

text \<open>
  C7 (amended). For every command whose ability has target type party or enemy_all,
  \<open>validateBattleCommand\<close> returns a verdict that is not ok, and its reason is "unsupported
  target type" whenever all earlier checks pass. \<open>executeCommand\<close> has no check of the
  target type: when such a command passes the executor's own guards it is resolved on the
  one unit named by the target id. The MP cost is charged, and for power > 0 the target's
  hp changes by the damage amount (enemy_all) or by the heal amount (party). No
  multi-target effect exists: every Stats object other than the source's and the target's
  is as before.
\<close>

theorem multi_target_types_gate:
  assumes "lookupAbility (abilityId c) = Some a"
    and "targetType a = Some ''party'' \<or> targetType a = Some ''enemy_all''"
  shows "(\<forall>bo player. \<not> ok (validateBattleCommand w bo player c))
    \<and> (state b = in_progress \<and> activeRef b = Some r \<and> rkind r = KParty
         \<and> getPartyForBattle w (bid b) = Some p \<and> sourceId c = Some (rid r)
         \<and> unitById w b (sourceId c) = Some (sk, source)
         \<and> (mpCost a \<le> 0 \<or> (\<exists>m. statOf mp w source = Some m \<and> mpCost a \<le> m))
         \<and> unitById w b (targetId c) = Some (tk, target)
       \<longrightarrow> reason (validateBattleCommand w (Some b) (playerId p) c) = Some ''unsupported target type'')
    \<and> (state b = in_progress \<and> activeRef b = Some r \<and> sourceId c = Some (rid r)
         \<and> findUnitInBattle w b (sourceId c) = Some (sk, source)
         \<and> findUnitInBattle w b (targetId c) = Some (tk, target)
         \<and> (mpCost a \<le> 0 \<or> (\<exists>m. statOf mp w source = Some m \<and> mpCost a \<le> m))
       \<longrightarrow> (\<exists>w' b'. executeCommand w (Some b) (Some c) = Inr (w', b')
              \<and> statOf mp w' source =
                  (if mpCost a > 0 then Some (max 0 (numOr0 (statOf mp w source) - mpCost a))
                   else statOf mp w source)
              \<and> statOf hp w' target =
                  (if apower a > 0
                   then map_option (\<lambda>h. clamped (statOf maxHp w target)
                                     (if targetType a = Some ''party''
                                      then h + healAmount w a source target
                                      else max 0 (h - damageAmount w a source target)))
                          (statOf hp w target)
                   else statOf hp w target)
              \<and> (\<forall>ad. Some ad \<noteq> ustats source \<and> Some ad \<noteq> ustats target
                    \<longrightarrow> statsHeap w' ad = statsHeap w ad)))"
proof (intro conjI allI impI)
  fix bo player
  show "\<not> ok (validateBattleCommand w bo player c)"
    by (rule validate_multi_target_rejected [OF assms])
next
  assume h: "state b = in_progress \<and> activeRef b = Some r \<and> rkind r = KParty
         \<and> getPartyForBattle w (bid b) = Some p \<and> sourceId c = Some (rid r)
         \<and> unitById w b (sourceId c) = Some (sk, source)
         \<and> (mpCost a \<le> 0 \<or> (\<exists>m. statOf mp w source = Some m \<and> mpCost a \<le> m))
         \<and> unitById w b (targetId c) = Some (tk, target)"
  then have "validateBattleCommand w (Some b) (playerId p) c = rejected ''unsupported target type''"
    using validate_multi_target_reason [of b r w p "playerId p" c a sk source tk target] assms
    by blast
  then show "reason (validateBattleCommand w (Some b) (playerId p) c) = Some ''unsupported target type''"
    by (simp add: rejected_def)
next
  assume h: "state b = in_progress \<and> activeRef b = Some r \<and> sourceId c = Some (rid r)
         \<and> findUnitInBattle w b (sourceId c) = Some (sk, source)
         \<and> findUnitInBattle w b (targetId c) = Some (tk, target)
         \<and> (mpCost a \<le> 0 \<or> (\<exists>m. statOf mp w source = Some m \<and> mpCost a \<le> m))"
  have nf: "abilityId c \<noteq> Some ''flee''"
    using flee_has_no_power [OF assms(1)] assms(2) by auto
  from h obtain w1 where pay: "payMpCost w a source = Inr w1"
    using payMpCost_ok [of a w source] by blast
  have heal: "isHealingTarget a \<longleftrightarrow> targetType a = Some ''party''"
    using assms(2) by (auto simp: isHealingTarget_def)
  have g: "state b = in_progress" "activeRef b = Some r" "sourceId c = Some (rid r)"
    "findUnitInBattle w b (sourceId c) = Some (sk, source)"
    "findUnitInBattle w b (targetId c) = Some (tk, target)"
    "mpCost a \<le> 0 \<or> (\<exists>m. statOf mp w source = Some m \<and> mpCost a \<le> m)"
    using h by blast+
  have 1: "executeCommand w (Some b) (Some c) = Inr (fst (execute w b c), snd (execute w b c))"
    by (simp add: executeCommand_present)
  note 2 = execute_mp_after [OF g(1) assms(1) nf g(2-6)]
  note 3 = execute_hp_after [OF g(1) assms(1) nf g(2-5) pay, unfolded heal]
  have 4: "\<forall>ad. Some ad \<noteq> ustats source \<and> Some ad \<noteq> ustats target
                    \<longrightarrow> statsHeap (fst (execute w b c)) ad = statsHeap w ad"
    using execute_stats_elsewhere [OF g(1) assms(1) nf g(2-5) pay] by blast
  show "\<exists>w' b'. executeCommand w (Some b) (Some c) = Inr (w', b')
              \<and> statOf mp w' source =
                  (if mpCost a > 0 then Some (max 0 (numOr0 (statOf mp w source) - mpCost a))
                   else statOf mp w source)
              \<and> statOf hp w' target =
                  (if apower a > 0
                   then map_option (\<lambda>h. clamped (statOf maxHp w target)
                                     (if targetType a = Some ''party''
                                      then h + healAmount w a source target
                                      else max 0 (h - damageAmount w a source target)))
                          (statOf hp w target)
                   else statOf hp w target)
              \<and> (\<forall>ad. Some ad \<noteq> ustats source \<and> Some ad \<noteq> ustats target
                    \<longrightarrow> statsHeap w' ad = statsHeap w ad)"
    using 1 2 3 4 by blast
qed


theorem multi_target_types_gate_witness:
  "lookupAbility (abilityId (makeCommand ''c1'' ''e1'' ''aeromancer_gale_sweep'')) = Some galeSweep
   \<and> targetType galeSweep = Some ''enemy_all''
   \<and> state poisonBattle = in_progress
   \<and> activeRef poisonBattle = Some \<lparr>rkind = KParty, rid = ''c1''\<rparr>
   \<and> getPartyForBattle poisonWorld (bid poisonBattle) = Some poisonParty
   \<and> findUnitInBattle poisonWorld poisonBattle (Some ''c1'') = Some (KParty, makeUnit ''c1'' ''Thalen'' 0)
   \<and> findUnitInBattle poisonWorld poisonBattle (Some ''e1'') = Some (KEnemy, makeUnit ''e1'' ''Bandit'' 1)
   \<and> statOf mp poisonWorld (makeUnit ''c1'' ''Thalen'' 0) = Some 10
   \<and> statOf hp poisonWorld (makeUnit ''e1'' ''Bandit'' 1) = Some 30
   \<and> \<not> ok (validateBattleCommand poisonWorld (Some poisonBattle) (Some ''player1'')
              (makeCommand ''c1'' ''e1'' ''aeromancer_gale_sweep''))
   \<and> reason (validateBattleCommand poisonWorld (Some poisonBattle) (playerId poisonParty)
              (makeCommand ''c1'' ''e1'' ''aeromancer_gale_sweep'')) = Some ''unsupported target type''
   \<and> (\<exists>w' b'. executeCommand poisonWorld (Some poisonBattle)
                 (Some (makeCommand ''c1'' ''e1'' ''aeromancer_gale_sweep'')) = Inr (w', b')
         \<and> statOf mp w' (makeUnit ''c1'' ''Thalen'' 0) = Some 4
         \<and> statOf hp w' (makeUnit ''e1'' ''Bandit'' 1) = Some 11
         \<and> statsHeap w' 2 = statsHeap poisonWorld 2)"
proof -
  let ?c = "makeCommand ''c1'' ''e1'' ''aeromancer_gale_sweep''"
  let ?src = "makeUnit ''c1'' ''Thalen'' 0"
  let ?tgt = "makeUnit ''e1'' ''Bandit'' 1"
  let ?r = "\<lparr>rkind = KParty, rid = ''c1''\<rparr>"
  have h1: "state poisonBattle = in_progress" by (simp add: poison_started)
  have h2: "lookupAbility (abilityId ?c) = Some galeSweep"
    by (simp add: makeCommand_def lookup_gale_sweep)
  have t: "targetType galeSweep = Some ''enemy_all''" by (simp add: mkAbility_def)
  have h4: "activeRef poisonBattle = Some ?r" by (simp add: poison_started activeRef_def)
  have k: "rkind ?r = KParty" by simp
  have p: "getPartyForBattle poisonWorld (bid poisonBattle) = Some poisonParty"
    by (simp add: poison_started getPartyForBattle_def)
  have h5: "sourceId ?c = Some (rid ?r)" by (simp add: makeCommand_def)
  have h6: "findUnitInBattle poisonWorld poisonBattle (Some ''c1'') = Some (KParty, ?src)"
    unfolding poison_started by (simp add: scenario_eval poisonParty_def poisonEnemies_def)
  have h7: "findUnitInBattle poisonWorld poisonBattle (Some ''e1'') = Some (KEnemy, ?tgt)"
    unfolding poison_started by (simp add: scenario_eval poisonParty_def poisonEnemies_def)
  have u6: "unitById poisonWorld poisonBattle (sourceId ?c) = Some (KParty, ?src)"
    unfolding poison_started by (simp add: scenario_eval poisonParty_def poisonEnemies_def)
  have u7: "unitById poisonWorld poisonBattle (targetId ?c) = Some (KEnemy, ?tgt)"
    unfolding poison_started by (simp add: scenario_eval poisonParty_def poisonEnemies_def)
  have f6: "findUnitInBattle poisonWorld poisonBattle (sourceId ?c) = Some (KParty, ?src)"
    using h6 by (simp add: makeCommand_def)
  have f7: "findUnitInBattle poisonWorld poisonBattle (targetId ?c) = Some (KEnemy, ?tgt)"
    using h7 by (simp add: makeCommand_def)
  have mp0: "statOf mp poisonWorld ?src = Some 10"
    unfolding poison_started by (simp add: scenario_eval poisonStore_def)
  have hp0: "statOf hp poisonWorld ?tgt = Some 30"
    unfolding poison_started by (simp add: scenario_eval poisonStore_def)
  have h8: "mpCost galeSweep \<le> 0 \<or> (\<exists>m. statOf mp poisonWorld ?src = Some m \<and> mpCost galeSweep \<le> m)"
    using mp0 by (simp add: mkAbility_def)
  note T = multi_target_types_gate [OF h2 disjI2 [OF t], of poisonWorld poisonBattle ?r poisonParty
      KParty ?src KEnemy ?tgt]
  have v1: "\<not> ok (validateBattleCommand poisonWorld (Some poisonBattle) (Some ''player1'') ?c)"
    using T by blast
  have v2: "reason (validateBattleCommand poisonWorld (Some poisonBattle) (playerId poisonParty) ?c)
      = Some ''unsupported target type''"
    using T h1 h4 k p h5 u6 u7 h8 by blast
  from T h1 h4 h5 f6 f7 h8
  obtain w' b' where ex: "executeCommand poisonWorld (Some poisonBattle) (Some ?c) = Inr (w', b')"
    and m': "statOf mp w' ?src =
                  (if mpCost galeSweep > 0 then Some (max 0 (numOr0 (statOf mp poisonWorld ?src) - mpCost galeSweep))
                   else statOf mp poisonWorld ?src)"
    and h': "statOf hp w' ?tgt =
                  (if apower galeSweep > 0
                   then map_option (\<lambda>h. clamped (statOf maxHp poisonWorld ?tgt)
                                     (if targetType galeSweep = Some ''party''
                                      then h + healAmount poisonWorld galeSweep ?src ?tgt
                                      else max 0 (h - damageAmount poisonWorld galeSweep ?src ?tgt)))
                          (statOf hp poisonWorld ?tgt)
                   else statOf hp poisonWorld ?tgt)"
    and fr: "\<forall>ad. Some ad \<noteq> ustats ?src \<and> Some ad \<noteq> ustats ?tgt
                    \<longrightarrow> statsHeap w' ad = statsHeap poisonWorld ad"
    by blast
  have r1: "statOf mp w' ?src = Some 4"
    using m' unfolding poison_started
    by (simp add: scenario_eval poisonStore_def mkAbility_def numOr0_def)
  have r2: "statOf hp w' ?tgt = Some 11"
    using h' unfolding poison_started
    by (simp add: scenario_eval poisonStore_def mkAbility_def clamped_def damageAmount_def
        numOr0_def getUnitElement_def)
  have r3: "statsHeap w' 2 = statsHeap poisonWorld 2"
    using fr by (simp add: makeUnit_def)
  from ex r1 r2 r3 have "\<exists>w' b'. executeCommand poisonWorld (Some poisonBattle) (Some ?c) = Inr (w', b')
         \<and> statOf mp w' ?src = Some 4 \<and> statOf hp w' ?tgt = Some 11
         \<and> statsHeap w' 2 = statsHeap poisonWorld 2"
    by blast
  with h2 t h1 h4 p h6 h7 mp0 hp0 v1 v2 show ?thesis by (intro conjI)
qed

text \<open>
  The claim as stated, that \<open>executeCommand\<close> applies no single-target damage for such an
  ability, fails for aeromancer_gale_sweep (enemy_all, power 9, cost 6): in the setting of
  the poison test the bandit goes from 30 to 11 HP.
\<close>

theorem executor_resolves_enemy_all_counterexample:
  "lookupAbility (abilityId (makeCommand ''c1'' ''e1'' ''aeromancer_gale_sweep'')) = Some galeSweep
   \<and> targetType galeSweep = Some ''enemy_all''
   \<and> state poisonBattle = in_progress
   \<and> statOf hp poisonWorld (makeUnit ''e1'' ''Bandit'' 1) = Some 30
   \<and> (\<exists>w' b'. executeCommand poisonWorld (Some poisonBattle)
                 (Some (makeCommand ''c1'' ''e1'' ''aeromancer_gale_sweep'')) = Inr (w', b')
         \<and> statOf hp w' (makeUnit ''e1'' ''Bandit'' 1) = Some 11)"
proof -
  let ?c = "makeCommand ''c1'' ''e1'' ''aeromancer_gale_sweep''"
  let ?src = "makeUnit ''c1'' ''Thalen'' 0"
  let ?tgt = "makeUnit ''e1'' ''Bandit'' 1"
  have h1: "state poisonBattle = in_progress" by (simp add: poison_started)
  have h2: "lookupAbility (abilityId ?c) = Some galeSweep"
    by (simp add: makeCommand_def lookup_gale_sweep)
  have h3: "abilityId ?c \<noteq> Some ''flee''" by (simp add: makeCommand_def)
  have h4: "activeRef poisonBattle = Some \<lparr>rkind = KParty, rid = ''c1''\<rparr>"
    by (simp add: poison_started activeRef_def)
  have h5: "sourceId ?c = Some (rid \<lparr>rkind = KParty, rid = ''c1''\<rparr>)" by (simp add: makeCommand_def)
  have h6: "findUnitInBattle poisonWorld poisonBattle (sourceId ?c) = Some (KParty, ?src)"
    unfolding poison_started by (simp add: scenario_eval poisonParty_def poisonEnemies_def)
  have h7: "findUnitInBattle poisonWorld poisonBattle (targetId ?c) = Some (KEnemy, ?tgt)"
    unfolding poison_started by (simp add: scenario_eval poisonParty_def poisonEnemies_def)
  have h8: "mpCost galeSweep \<le> 0 \<or> (\<exists>m. statOf mp poisonWorld ?src = Some m \<and> mpCost galeSweep \<le> m)"
    unfolding poison_started by (simp add: scenario_eval poisonStore_def mkAbility_def)
  have t: "targetType galeSweep = Some ''enemy_all''" by (simp add: mkAbility_def)
  have hp0: "statOf hp poisonWorld ?tgt = Some 30"
    unfolding poison_started by (simp add: scenario_eval poisonStore_def)
  obtain w1 where pay: "payMpCost poisonWorld galeSweep ?src = Inr w1"
    using payMpCost_ok [OF h8] by blast
  have "statOf hp (fst (execute poisonWorld poisonBattle ?c)) ?tgt = Some 11"
    unfolding execute_hp_after [OF h1 h2 h3 h4 h5 h6 h7 pay]
    unfolding poison_started
    by (simp add: scenario_eval poisonStore_def mkAbility_def isHealingTarget_def clamped_def
        damageAmount_def numOr0_def getUnitElement_def)
  then have "\<exists>w' b'. executeCommand poisonWorld (Some poisonBattle) (Some ?c) = Inr (w', b')
         \<and> statOf hp w' ?tgt = Some 11"
    by (metis executeCommand_present prod.collapse)
  with h2 t h1 hp0 show ?thesis by (intro conjI)
qed

section \<open>The initial turn order\<close>

text \<open>
  C2 (amended). For every party and enemy list, \<open>calculateInitialTurnOrder\<close> returns the
  references of exactly the combatants with hp > 0 at the time of the call (one entry per
  living party member and living enemy, as multisets), ordered by descending speed and,
  among equal speeds, ascending under \<open>localeCompare\<close> on the key "p_" + id for a party
  member and "e_" + id for an enemy. \<open>localeCompare\<close> is the collation of the host, some
  total preorder on strings; it need not be the lexicographic order of the code units.
  For a given collation the result depends on nothing but the ids, the hp > 0 tests and
  the speeds, in list order: two inputs that agree on them give the same order. For party
  members p_slow (speed 1) and p_fast (speed 9) and enemies e_mid (speed 5) and e_fast
  (speed 8) the result is party:p_fast, enemy:e_fast, enemy:e_mid, party:p_slow, whatever
  the collation.
\<close>

theorem initial_turn_order:
  assumes "collation localeCompare"
  shows "(\<exists>es. calculateInitialTurnOrder localeCompare w p foes = map eref es
            \<and> mset es =
                mset (map (partyEntry w) (filter (\<lambda>m. getUnitHp w m > 0)
                                            (case p of Some q \<Rightarrow> members q | None \<Rightarrow> []))
                      @ map (enemyEntry w) (filter (\<lambda>e. getUnitHp w e > 0)
                                              (case foes of Some l \<Rightarrow> l | None \<Rightarrow> [])))
            \<and> sorted_wrt (\<lambda>a b. espeed a > espeed b
                                \<or> (espeed a = espeed b \<and> localeCompare (etie a) (etie b) \<le> 0)) es)
     \<and> (\<forall>m. partyEntry w m = \<lparr>eref = \<lparr>rkind = KParty, rid = uid m\<rparr>, espeed = getUnitSpeed w m,
                               etie = ''p_'' @ uid m\<rparr>
            \<and> enemyEntry w m = \<lparr>eref = \<lparr>rkind = KEnemy, rid = uid m\<rparr>, espeed = getUnitSpeed w m,
                                 etie = ''e_'' @ uid m\<rparr>)
     \<and> (\<forall>w' p' foes'.
           map (\<lambda>m. (uid m, getUnitHp w m > 0, getUnitSpeed w m))
               (case p of Some q \<Rightarrow> members q | None \<Rightarrow> [])
             = map (\<lambda>m. (uid m, getUnitHp w' m > 0, getUnitSpeed w' m))
                 (case p' of Some q \<Rightarrow> members q | None \<Rightarrow> [])
           \<and> map (\<lambda>m. (uid m, getUnitHp w m > 0, getUnitSpeed w m))
                 (case foes of Some l \<Rightarrow> l | None \<Rightarrow> [])
             = map (\<lambda>m. (uid m, getUnitHp w' m > 0, getUnitSpeed w' m))
                 (case foes' of Some l \<Rightarrow> l | None \<Rightarrow> [])
           \<longrightarrow> calculateInitialTurnOrder localeCompare w p foes
               = calculateInitialTurnOrder localeCompare w' p' foes')
     \<and> calculateInitialTurnOrder localeCompare orderStore (Some orderParty) (Some orderEnemies) =
         [\<lparr>rkind = KParty, rid = ''p_fast''\<rparr>, \<lparr>rkind = KEnemy, rid = ''e_fast''\<rparr>,
          \<lparr>rkind = KEnemy, rid = ''e_mid''\<rparr>, \<lparr>rkind = KParty, rid = ''p_slow''\<rparr>]"
proof (intro conjI allI impI)
  let ?es = "sortBy (compareEntries localeCompare) (turnEntries w p foes)"
  have "calculateInitialTurnOrder localeCompare w p foes = map eref ?es"
    by (simp add: calculateInitialTurnOrder_def)
  moreover have "mset ?es =
      mset (map (partyEntry w) (filter (\<lambda>m. getUnitHp w m > 0)
                                  (case p of Some q \<Rightarrow> members q | None \<Rightarrow> []))
            @ map (enemyEntry w) (filter (\<lambda>e. getUnitHp w e > 0)
                                    (case foes of Some l \<Rightarrow> l | None \<Rightarrow> [])))"
    by (simp add: sortBy_mset turnEntries_def Let_def isAlive_def [abs_def])
  moreover have "sorted_wrt (\<lambda>a b. espeed a > espeed b
        \<or> (espeed a = espeed b \<and> localeCompare (etie a) (etie b) \<le> 0)) ?es"
    using entries_sorted [OF assms, of "turnEntries w p foes"]
    by (simp add: entryBefore_def [abs_def])
  ultimately show "\<exists>es. calculateInitialTurnOrder localeCompare w p foes = map eref es
            \<and> mset es =
                mset (map (partyEntry w) (filter (\<lambda>m. getUnitHp w m > 0)
                                            (case p of Some q \<Rightarrow> members q | None \<Rightarrow> []))
                      @ map (enemyEntry w) (filter (\<lambda>e. getUnitHp w e > 0)
                                              (case foes of Some l \<Rightarrow> l | None \<Rightarrow> [])))
            \<and> sorted_wrt (\<lambda>a b. espeed a > espeed b
                                \<or> (espeed a = espeed b \<and> localeCompare (etie a) (etie b) \<le> 0)) es"
    by blast
next
  fix m
  show "partyEntry w m = \<lparr>eref = \<lparr>rkind = KParty, rid = uid m\<rparr>, espeed = getUnitSpeed w m,
                               etie = ''p_'' @ uid m\<rparr>"
    by (simp add: partyEntry_def)
  show "enemyEntry w m = \<lparr>eref = \<lparr>rkind = KEnemy, rid = uid m\<rparr>, espeed = getUnitSpeed w m,
                                 etie = ''e_'' @ uid m\<rparr>"
    by (simp add: enemyEntry_def)
next
  fix w' :: world and p' :: "party option" and foes' :: "combatant list option"
  assume "map (\<lambda>m. (uid m, getUnitHp w m > 0, getUnitSpeed w m))
               (case p of Some q \<Rightarrow> members q | None \<Rightarrow> [])
             = map (\<lambda>m. (uid m, getUnitHp w' m > 0, getUnitSpeed w' m))
                 (case p' of Some q \<Rightarrow> members q | None \<Rightarrow> [])
           \<and> map (\<lambda>m. (uid m, getUnitHp w m > 0, getUnitSpeed w m))
                 (case foes of Some l \<Rightarrow> l | None \<Rightarrow> [])
             = map (\<lambda>m. (uid m, getUnitHp w' m > 0, getUnitSpeed w' m))
                 (case foes' of Some l \<Rightarrow> l | None \<Rightarrow> [])"
  then have "turnEntries w p foes = turnEntries w' p' foes'"
    using turnEntries_cong by blast
  then show "calculateInitialTurnOrder localeCompare w p foes
               = calculateInitialTurnOrder localeCompare w' p' foes'"
    by (simp add: calculateInitialTurnOrder_def)
next
  show "calculateInitialTurnOrder localeCompare orderStore (Some orderParty) (Some orderEnemies) =
         [\<lparr>rkind = KParty, rid = ''p_fast''\<rparr>, \<lparr>rkind = KEnemy, rid = ''e_fast''\<rparr>,
          \<lparr>rkind = KEnemy, rid = ''e_mid''\<rparr>, \<lparr>rkind = KParty, rid = ''p_slow''\<rparr>]"
    by (rule order_example)
qed

theorem initial_turn_order_witness:
  "collation rootCollate
   \<and> calculateInitialTurnOrder rootCollate tieStore (Some tieParty) (Some tieEnemies) =
       [\<lparr>rkind = KEnemy, rid = ''z''\<rparr>, \<lparr>rkind = KParty, rid = ''a''\<rparr>,
        \<lparr>rkind = KParty, rid = ''B''\<rparr>]
   \<and> (\<exists>es. calculateInitialTurnOrder rootCollate tieStore (Some tieParty) (Some tieEnemies)
              = map eref es
            \<and> mset es =
                mset (map (partyEntry tieStore) (filter (\<lambda>m. getUnitHp tieStore m > 0) (members tieParty))
                      @ map (enemyEntry tieStore) (filter (\<lambda>e. getUnitHp tieStore e > 0) tieEnemies))
            \<and> sorted_wrt (\<lambda>a b. espeed a > espeed b
                                \<or> (espeed a = espeed b \<and> rootCollate (etie a) (etie b) \<le> 0)) es)
   \<and> calculateInitialTurnOrder rootCollate orderStore (Some orderParty) (Some orderEnemies) =
         [\<lparr>rkind = KParty, rid = ''p_fast''\<rparr>, \<lparr>rkind = KEnemy, rid = ''e_fast''\<rparr>,
          \<lparr>rkind = KEnemy, rid = ''e_mid''\<rparr>, \<lparr>rkind = KParty, rid = ''p_slow''\<rparr>]"
  using initial_turn_order [OF rootCollate_collation, of tieStore "Some tieParty" "Some tieEnemies"]
    rootCollate_collation tie_example
  by simp

text \<open>
  The claim as stated, ties broken in lexicographic order of the keys, fails on the host's
  collation. Party members "B" and "a" and the enemy "z" all have speed 5. The keys are
  p_B, p_a and e_z; in code units p_B comes before p_a, but \<open>localeCompare\<close> puts p_a first:
  it compares the letters without their case before it looks at the case. The order
  returned is enemy:z, party:a, party:B, whose keys e_z, p_a, p_B are not in lexicographic
  order.
\<close>

theorem lexicographic_tie_break_counterexample:
  "getUnitSpeed tieStore (bareUnit ''B'' 0) = 5
   \<and> getUnitSpeed tieStore (bareUnit ''a'' 1) = 5
   \<and> getUnitSpeed tieStore (bareUnit ''z'' 2) = 5
   \<and> plainKey ''e_z'' \<and> plainKey ''p_a'' \<and> plainKey ''p_B''
   \<and> rootCollate ''p_a'' ''p_B'' = - 1
   \<and> codeUnitCompare ''p_B'' ''p_a'' = - 1
   \<and> calculateInitialTurnOrder rootCollate tieStore (Some tieParty) (Some tieEnemies) =
       [\<lparr>rkind = KEnemy, rid = ''z''\<rparr>, \<lparr>rkind = KParty, rid = ''a''\<rparr>,
        \<lparr>rkind = KParty, rid = ''B''\<rparr>]
   \<and> \<not> sorted_wrt (\<lambda>x y. codeUnitCompare x y \<le> 0) [''e_z'', ''p_a'', ''p_B'']"
proof -
  have sp: "getUnitSpeed tieStore (bareUnit ''B'' 0) = 5" "getUnitSpeed tieStore (bareUnit ''a'' 1) = 5"
    "getUnitSpeed tieStore (bareUnit ''z'' 2) = 5"
    by (simp_all add: getUnitSpeed_def numOr0_def statOf_def statsOf_def bareUnit_def tieStore_def
        makeStore_def hpSpeedOnly_def)
  have ns: "\<not> sorted_wrt (\<lambda>x y. codeUnitCompare x y \<le> 0) [''e_z'', ''p_a'', ''p_B'']"
    by simp
  from sp tie_keys tie_example ns show ?thesis by (intro conjI)
qed

section \<open>Turn order and active index along a battle\<close>

text \<open>
  C8 (amended). A battle produced by \<open>createBattle\<close> satisfies the invariant of the data
  model: the turn order is non-empty and the active index is a valid index into it, or the
  turn order is empty and the state is terminal. After any sequence of \<open>executeCommand\<close>
  and \<open>advanceTurn\<close> calls the turn order is non-empty with a valid active index, or it is
  empty and the active index is 0; and the state is never pending. Whenever the last call
  of the sequence is \<open>advanceTurn\<close>, the invariant of the data model holds again: an empty
  turn order then comes with a terminal state. (So an empty turn order with state
  in_progress can only be seen between an \<open>executeCommand\<close> and the next \<open>advanceTurn\<close>.)
\<close>

theorem turn_index_invariant:
  assumes "createBattle localeCompare w p foes newId = Inr wb"
  shows "orderInvariant (snd wb)
         \<and> indexInvariant (snd (runOperations wb ops))
         \<and> (ops \<noteq> [] \<and> last ops = Advance \<longrightarrow> orderInvariant (snd (runOperations wb ops)))"
  using createBattle_invariants [OF assms] runOperations_indexInvariant [of wb ops]
    runOperations_after_advance [of wb ops]
  by blast

theorem turn_index_invariant_witness:
  "createBattle codeUnitCompare fallenStore (Some mendParty) (Some mendEnemies) ''battle_1''
     = Inr (started fallenStore mendParty mendEnemies)
   \<and> orderInvariant (snd (started fallenStore mendParty mendEnemies))
   \<and> indexInvariant (snd (runOperations (started fallenStore mendParty mendEnemies)
                             (fallenOperations @ [Advance])))
   \<and> fallenOperations @ [Advance] \<noteq> []
   \<and> last (fallenOperations @ [Advance]) = Advance
   \<and> orderInvariant (snd (runOperations (started fallenStore mendParty mendEnemies)
                             (fallenOperations @ [Advance])))"
proof -
  have c: "createBattle codeUnitCompare fallenStore (Some mendParty) (Some mendEnemies) ''battle_1''
     = Inr (started fallenStore mendParty mendEnemies)"
    by (rule createBattle_started [of _ "''party1''"]) (simp add: mendParty_def makeParty_def)
  have n: "fallenOperations @ [Advance] \<noteq> []" "last (fallenOperations @ [Advance]) = Advance"
    by simp_all
  from turn_index_invariant [OF c, of "fallenOperations @ [Advance]"] c n
  show ?thesis by blast
qed

text \<open>
  The invariant as the claim states it, after every operation, fails: the healer revives
  the enemy and the ally that were down at creation (and so are not in the turn order),
  then strikes itself down. \<open>executeCommand\<close> prunes the healer, the turn order is empty,
  and the state stays in_progress because a party member and an enemy are alive.
\<close>

theorem order_invariant_counterexample:
  "createBattle codeUnitCompare fallenStore (Some mendParty) (Some mendEnemies) ''battle_1''
     = Inr (started fallenStore mendParty mendEnemies)
   \<and> turnOrder (snd (runOperations (started fallenStore mendParty mendEnemies) fallenOperations)) = []
   \<and> state (snd (runOperations (started fallenStore mendParty mendEnemies) fallenOperations)) = in_progress
   \<and> \<not> orderInvariant (snd (runOperations (started fallenStore mendParty mendEnemies) fallenOperations))"
proof -
  have c: "createBattle codeUnitCompare fallenStore (Some mendParty) (Some mendEnemies) ''battle_1''
     = Inr (started fallenStore mendParty mendEnemies)"
    by (rule createBattle_started [of _ "''party1''"]) (simp add: mendParty_def makeParty_def)
  have "\<not> orderInvariant (snd (runOperations (started fallenStore mendParty mendEnemies) fallenOperations))"
    using fallen_run by (simp add: orderInvariant_def indexValid_def terminal_def)
  with c fallen_run show ?thesis by blast
qed

section \<open>Status effects\<close>

text \<open>
  C9. Status application by \<open>executeCommand\<close> is idempotent. For a command that passes the
  guards of the executor, whose ability carries a status tag: after the command the target's
  status list is the old list if the tag was in it, and the old list with the tag appended
  otherwise; the same command applied once more leaves the target's status list as it is.
  So when the tag occurred at most once before (the list is a set), it occurs exactly once
  after two applications.
\<close>

theorem status_application_idempotent:
  assumes "state b = in_progress"
    and "lookupAbility (abilityId c) = Some a"
    and "statusEffect a = Some tag"
    and "tag \<noteq> []"
    and "activeRef b = Some r"
    and "sourceId c = Some (rid r)"
    and "findUnitInBattle w b (sourceId c) = Some (sk, source)"
    and "findUnitInBattle w b (targetId c) = Some (tk, target)"
    and "mpCost a \<le> 0 \<or> (\<exists>m. statOf mp w source = Some m \<and> mpCost a \<le> m)"
  shows "\<exists>w1 b1 t1 w2 b2.
           executeCommand w (Some b) (Some c) = Inr (w1, b1)
           \<and> findUnitInBattle w1 b1 (targetId c) = Some (tk, t1)
           \<and> statusList w1 t1 = (if tag \<in> set (statusList w target) then statusList w target
                                  else statusList w target @ [tag])
           \<and> executeCommand w1 (Some b1) (Some c) = Inr (w2, b2)
           \<and> findUnitInBattle w2 b2 (targetId c) = Some (tk, t1)
           \<and> statusList w2 t1 = statusList w1 t1
           \<and> (count_list (statusList w target) tag \<le> 1 \<longrightarrow> count_list (statusList w2 t1) tag = 1)"
proof -
  let ?w1 = "fst (execute w b c)" and ?b1 = "snd (execute w b c)"
  let ?w2 = "fst (execute ?w1 ?b1 c)" and ?b2 = "snd (execute ?w1 ?b1 c)"
  let ?new = "if tag \<in> set (statusList w target) then statusList w target
              else statusList w target @ [tag]"
  have nf: "abilityId c \<noteq> Some ''flee''"
    using flee_has_no_power [OF assms(2)] assms(3,4) by auto
  obtain wp where pay: "payMpCost w a source = Inr wp"
    using payMpCost_ok [OF assms(9)] by blast
  from execute_status_first [OF assms(1,2) nf assms(5-8) pay assms(3,4)]
  obtain t1 ad where t1: "findUnitInBattle ?w1 ?b1 (targetId c) = Some (tk, t1)"
    and ar: "statusEffects t1 = Arr ad"
    and sl: "statusList ?w1 t1 = ?new"
    by blast
  have "tag \<in> set (statusList ?w1 t1)" unfolding sl by simp
  then have mem: "tag \<in> set (arrayHeap ?w1 ad)" using ar by (simp add: statusList_def)
  note st = execute_status_stable [OF assms(2,3) t1 ar mem]
  have "findUnitInBattle ?w2 ?b2 (targetId c) = findUnitInBattle ?w1 ?b1 (targetId c)"
    by (rule findUnitInBattle_cong) (simp_all add: st)
  then have t2: "findUnitInBattle ?w2 ?b2 (targetId c) = Some (tk, t1)" using t1 by simp
  have s2: "statusList ?w2 t1 = statusList ?w1 t1"
    by (rule statusList_cong) (simp add: st)
  have cnt: "count_list (statusList w target) tag \<le> 1 \<longrightarrow> count_list (statusList ?w2 t1) tag = 1"
  proof
    assume le: "count_list (statusList w target) tag \<le> 1"
    show "count_list (statusList ?w2 t1) tag = 1"
    proof (cases "tag \<in> set (statusList w target)")
      case True
      then have "count_list (statusList w target) tag \<noteq> 0" by (simp add: count_list_0_iff)
      then show ?thesis using le True s2 sl by simp
    next
      case False
      then have "count_list (statusList w target) tag = 0" by (simp add: count_list_0_iff)
      then show ?thesis using False s2 sl by simp
    qed
  qed
  have e1: "executeCommand w (Some b) (Some c) = Inr (?w1, ?b1)"
    by (simp add: executeCommand_present)
  have e2: "executeCommand ?w1 (Some ?b1) (Some c) = Inr (?w2, ?b2)"
    by (simp add: executeCommand_present)
  from e1 t1 sl e2 t2 s2 cnt show ?thesis by blast
qed

theorem status_application_idempotent_witness:
  "state poisonBattle = in_progress
   \<and> lookupAbility (abilityId (makeCommand ''c1'' ''e1'' ''umbramancer_venom_hex'')) = Some venomHex
   \<and> statusEffect venomHex = Some ''POISON''
   \<and> activeRef poisonBattle = Some \<lparr>rkind = KParty, rid = ''c1''\<rparr>
   \<and> findUnitInBattle poisonWorld poisonBattle (Some ''c1'') = Some (KParty, makeUnit ''c1'' ''Thalen'' 0)
   \<and> findUnitInBattle poisonWorld poisonBattle (Some ''e1'') = Some (KEnemy, makeUnit ''e1'' ''Bandit'' 1)
   \<and> statOf mp poisonWorld (makeUnit ''c1'' ''Thalen'' 0) = Some 10
   \<and> statusList poisonWorld (makeUnit ''e1'' ''Bandit'' 1) = []
   \<and> (\<exists>w1 b1 t1 w2 b2.
         executeCommand poisonWorld (Some poisonBattle)
           (Some (makeCommand ''c1'' ''e1'' ''umbramancer_venom_hex'')) = Inr (w1, b1)
         \<and> findUnitInBattle w1 b1 (Some ''e1'') = Some (KEnemy, t1)
         \<and> statusList w1 t1 = [''POISON'']
         \<and> executeCommand w1 (Some b1)
           (Some (makeCommand ''c1'' ''e1'' ''umbramancer_venom_hex'')) = Inr (w2, b2)
         \<and> findUnitInBattle w2 b2 (Some ''e1'') = Some (KEnemy, t1)
         \<and> statusList w2 t1 = [''POISON'']
         \<and> count_list (statusList w2 t1) ''POISON'' = 1)"
proof -
  let ?c = "makeCommand ''c1'' ''e1'' ''umbramancer_venom_hex''"
  let ?src = "makeUnit ''c1'' ''Thalen'' 0"
  let ?tgt = "makeUnit ''e1'' ''Bandit'' 1"
  let ?r = "\<lparr>rkind = KParty, rid = ''c1''\<rparr>"
  have h1: "state poisonBattle = in_progress" by (simp add: poison_started)
  have h2: "lookupAbility (abilityId ?c) = Some venomHex"
    by (simp add: makeCommand_def lookup_venom_hex)
  have h3: "statusEffect venomHex = Some ''POISON''" by (simp add: mkAbility_def)
  have h4: "''POISON'' \<noteq> []" by simp
  have h5: "activeRef poisonBattle = Some ?r" by (simp add: poison_started activeRef_def)
  have h6: "sourceId ?c = Some (rid ?r)" by (simp add: makeCommand_def)
  have f7: "findUnitInBattle poisonWorld poisonBattle (Some ''c1'') = Some (KParty, ?src)"
    unfolding poison_started by (simp add: scenario_eval poisonParty_def poisonEnemies_def)
  have f8: "findUnitInBattle poisonWorld poisonBattle (Some ''e1'') = Some (KEnemy, ?tgt)"
    unfolding poison_started by (simp add: scenario_eval poisonParty_def poisonEnemies_def)
  have h7: "findUnitInBattle poisonWorld poisonBattle (sourceId ?c) = Some (KParty, ?src)"
    using f7 by (simp add: makeCommand_def)
  have h8: "findUnitInBattle poisonWorld poisonBattle (targetId ?c) = Some (KEnemy, ?tgt)"
    using f8 by (simp add: makeCommand_def)
  have mp0: "statOf mp poisonWorld ?src = Some 10"
    unfolding poison_started by (simp add: scenario_eval poisonStore_def)
  have h9: "mpCost venomHex \<le> 0 \<or> (\<exists>m. statOf mp poisonWorld ?src = Some m \<and> mpCost venomHex \<le> m)"
    using mp0 by (simp add: mkAbility_def)
  have s0: "statusList poisonWorld ?tgt = []"
    unfolding poison_started by (simp add: statusList_def scenario_eval poisonStore_def)
  have tid: "targetId ?c = Some ''e1''" by (simp add: makeCommand_def)
  from status_application_idempotent [OF h1 h2 h3 h4 h5 h6 h7 h8 h9]
  obtain w1 b1 t1 w2 b2 where
    e1: "executeCommand poisonWorld (Some poisonBattle) (Some ?c) = Inr (w1, b1)"
    and t1: "findUnitInBattle w1 b1 (targetId ?c) = Some (KEnemy, t1)"
    and sl: "statusList w1 t1 = (if ''POISON'' \<in> set (statusList poisonWorld ?tgt)
               then statusList poisonWorld ?tgt else statusList poisonWorld ?tgt @ [''POISON''])"
    and e2: "executeCommand w1 (Some b1) (Some ?c) = Inr (w2, b2)"
    and t2: "findUnitInBattle w2 b2 (targetId ?c) = Some (KEnemy, t1)"
    and s2: "statusList w2 t1 = statusList w1 t1"
    and cnt: "count_list (statusList poisonWorld ?tgt) ''POISON'' \<le> 1
                \<longrightarrow> count_list (statusList w2 t1) ''POISON'' = 1"
    by blast
  have r1: "statusList w1 t1 = [''POISON'']" using sl unfolding s0 by simp
  have r2: "statusList w2 t1 = [''POISON'']" using s2 r1 by simp
  have r3: "count_list (statusList w2 t1) ''POISON'' = 1" using cnt unfolding s0 by simp
  from e1 t1 r1 e2 t2 r2 r3 have
    "\<exists>w1 b1 t1 w2 b2.
         executeCommand poisonWorld (Some poisonBattle) (Some ?c) = Inr (w1, b1)
         \<and> findUnitInBattle w1 b1 (Some ''e1'') = Some (KEnemy, t1)
         \<and> statusList w1 t1 = [''POISON'']
         \<and> executeCommand w1 (Some b1) (Some ?c) = Inr (w2, b2)
         \<and> findUnitInBattle w2 b2 (Some ''e1'') = Some (KEnemy, t1)
         \<and> statusList w2 t1 = [''POISON'']
         \<and> count_list (statusList w2 t1) ''POISON'' = 1"
    unfolding tid by blast
  with h1 h2 h3 h5 f7 f8 mp0 s0 show ?thesis by (intro conjI)
qed

section \<open>Enemy templates\<close>

text \<open>
  C10. \<open>createBattle\<close> copies each enemy template only shallowly. The enemies of the new
  battle are the spreads of the templates, so every enemy of the battle has the Stats object
  of its template, and this stays so along any sequence of \<open>executeCommand\<close> and
  \<open>advanceTurn\<close> calls. Consequently a damage or a heal that \<open>executeCommand\<close> applies
  to a battle enemy is seen through the template the caller passed: the template's hp
  after the command is the clamped result of the formula applied to the template's hp
  before it; and when the acting unit is an enemy, the MP cost is taken from the
  template's mp.
\<close>

theorem enemy_templates_share_stats:
  assumes "createBattle localeCompare w0 p (Some es) newId = Inr wb"
    and "runOperations wb ops = (w, b)"
    and "state b = in_progress"
    and "lookupAbility (abilityId c) = Some a"
    and "abilityId c \<noteq> Some ''flee''"
    and "activeRef b = Some r"
    and "sourceId c = Some (rid r)"
    and "findUnitInBattle w b (sourceId c) = Some (sk, source)"
    and "findUnitInBattle w b (targetId c) = Some (tk, target)"
    and "mpCost a \<le> 0 \<or> (\<exists>m. statOf mp w source = Some m \<and> mpCost a \<le> m)"
  shows "enemies (snd wb) = map spread es
    \<and> map ustats (enemies (snd wb)) = map ustats es
    \<and> map ustats (enemies b) = map ustats es
    \<and> (\<exists>w' b'. executeCommand w (Some b) (Some c) = Inr (w', b')
          \<and> map ustats (enemies b') = map ustats es
          \<and> (tk = KEnemy \<longrightarrow>
               (\<exists>i<length es. uid (es ! i) = uid target \<and> ustats (es ! i) = ustats target
                  \<and> statOf hp w' (es ! i) =
                      (if apower a > 0
                       then map_option (\<lambda>h. clamped (statOf maxHp w (es ! i))
                                         (if isHealingTarget a then h + healAmount w a source target
                                          else max 0 (h - damageAmount w a source target)))
                              (statOf hp w (es ! i))
                       else statOf hp w (es ! i))))
          \<and> (sk = KEnemy \<longrightarrow>
               (\<exists>j<length es. uid (es ! j) = uid source \<and> ustats (es ! j) = ustats source
                  \<and> statOf mp w' (es ! j) =
                      (if mpCost a > 0 then Some (max 0 (numOr0 (statOf mp w (es ! j)) - mpCost a))
                       else statOf mp w (es ! j)))))"
proof -
  let ?w' = "fst (execute w b c)" and ?b' = "snd (execute w b c)"
  have c0: "enemies (snd wb) = map spread es" by (rule createBattle_enemies [OF assms(1)])
  have s0: "map ustats (enemies (snd wb)) = map ustats es" "map uid (enemies (snd wb)) = map uid es"
    unfolding c0 by (simp_all add: spread_same)
  have s1: "map ustats (enemies b) = map ustats es" "map uid (enemies b) = map uid es"
    using runOperations_enemy_fields [of wb ops] s0 assms(2) by simp_all
  have s2: "map ustats (enemies ?b') = map ustats es"
    using execute_enemy_fields [of w b c] s1 by simp
  obtain w1 where pay: "payMpCost w a source = Inr w1"
    using payMpCost_ok [OF assms(10)] by blast
  note hp' = execute_hp_after [OF assms(3-9) pay]
  note mp' = execute_mp_after [OF assms(3-10)]
  have t: "tk = KEnemy \<longrightarrow>
               (\<exists>i<length es. uid (es ! i) = uid target \<and> ustats (es ! i) = ustats target
                  \<and> statOf hp ?w' (es ! i) =
                      (if apower a > 0
                       then map_option (\<lambda>h. clamped (statOf maxHp w (es ! i))
                                         (if isHealingTarget a then h + healAmount w a source target
                                          else max 0 (h - damageAmount w a source target)))
                              (statOf hp w (es ! i))
                       else statOf hp w (es ! i)))"
  proof
    assume "tk = KEnemy"
    then have "target \<in> set (enemies b)" using assms(9) by (auto dest: findUnitInBattle_enemyD)
    from template_of_enemy [OF this s1]
    obtain i where i: "i < length es" "uid (es ! i) = uid target" "ustats (es ! i) = ustats target"
      by blast
    have e: "\<And>f v. statOf f v (es ! i) = statOf f v target"
      by (rule statOf_ustats_cong [OF i(3)])
    show "\<exists>i<length es. uid (es ! i) = uid target \<and> ustats (es ! i) = ustats target
                  \<and> statOf hp ?w' (es ! i) =
                      (if apower a > 0
                       then map_option (\<lambda>h. clamped (statOf maxHp w (es ! i))
                                         (if isHealingTarget a then h + healAmount w a source target
                                          else max 0 (h - damageAmount w a source target)))
                              (statOf hp w (es ! i))
                       else statOf hp w (es ! i))"
      using i hp' unfolding e [symmetric] by blast
  qed
  have s: "sk = KEnemy \<longrightarrow>
               (\<exists>j<length es. uid (es ! j) = uid source \<and> ustats (es ! j) = ustats source
                  \<and> statOf mp ?w' (es ! j) =
                      (if mpCost a > 0 then Some (max 0 (numOr0 (statOf mp w (es ! j)) - mpCost a))
                       else statOf mp w (es ! j)))"
  proof
    assume "sk = KEnemy"
    then have "source \<in> set (enemies b)" using assms(8) by (auto dest: findUnitInBattle_enemyD)
    from template_of_enemy [OF this s1]
    obtain j where j: "j < length es" "uid (es ! j) = uid source" "ustats (es ! j) = ustats source"
      by blast
    have e: "\<And>f v. statOf f v (es ! j) = statOf f v source"
      by (rule statOf_ustats_cong [OF j(3)])
    show "\<exists>j<length es. uid (es ! j) = uid source \<and> ustats (es ! j) = ustats source
                  \<and> statOf mp ?w' (es ! j) =
                      (if mpCost a > 0 then Some (max 0 (numOr0 (statOf mp w (es ! j)) - mpCost a))
                       else statOf mp w (es ! j))"
      using j mp' unfolding e [symmetric] by blast
  qed
  have x: "executeCommand w (Some b) (Some c) = Inr (?w', ?b')"
    by (simp add: executeCommand_present)
  from x s2 t s have "\<exists>w' b'. executeCommand w (Some b) (Some c) = Inr (w', b')
          \<and> map ustats (enemies b') = map ustats es
          \<and> (tk = KEnemy \<longrightarrow>
               (\<exists>i<length es. uid (es ! i) = uid target \<and> ustats (es ! i) = ustats target
                  \<and> statOf hp w' (es ! i) =
                      (if apower a > 0
                       then map_option (\<lambda>h. clamped (statOf maxHp w (es ! i))
                                         (if isHealingTarget a then h + healAmount w a source target
                                          else max 0 (h - damageAmount w a source target)))
                              (statOf hp w (es ! i))
                       else statOf hp w (es ! i))))
          \<and> (sk = KEnemy \<longrightarrow>
               (\<exists>j<length es. uid (es ! j) = uid source \<and> ustats (es ! j) = ustats source
                  \<and> statOf mp w' (es ! j) =
                      (if mpCost a > 0 then Some (max 0 (numOr0 (statOf mp w (es ! j)) - mpCost a))
                       else statOf mp w (es ! j))))"
    by blast
  with c0 s0(1) s1(1) show ?thesis by (intro conjI)
qed


theorem enemy_templates_share_stats_witness:
  "createBattle codeUnitCompare attackStore (Some attackParty) (Some attackEnemies) ''battle_1''
     = Inr (started attackStore attackParty attackEnemies)
   \<and> state (snd (runOperations (started attackStore attackParty attackEnemies) counterOperations))
       = in_progress
   \<and> lookupAbility (abilityId (makeCommand ''e1'' ''e1'' ''sage_mend'')) = Some sageMend
   \<and> activeRef (snd (runOperations (started attackStore attackParty attackEnemies) counterOperations))
       = Some \<lparr>rkind = KEnemy, rid = ''e1''\<rparr>
   \<and> findUnitInBattle (fst (runOperations (started attackStore attackParty attackEnemies) counterOperations))
        (snd (runOperations (started attackStore attackParty attackEnemies) counterOperations))
        (Some ''e1'') = Some (KEnemy, makeUnit ''e1'' ''Goblin'' 1)
   \<and> statOf hp attackStore (attackEnemies ! 0) = Some 20
   \<and> statOf hp (fst (runOperations (started attackStore attackParty attackEnemies) counterOperations))
        (attackEnemies ! 0) = Some 6
   \<and> statOf mp (fst (runOperations (started attackStore attackParty attackEnemies) counterOperations))
        (attackEnemies ! 0) = Some 10
   \<and> (\<exists>w' b'. executeCommand
                 (fst (runOperations (started attackStore attackParty attackEnemies) counterOperations))
                 (Some (snd (runOperations (started attackStore attackParty attackEnemies) counterOperations)))
                 (Some (makeCommand ''e1'' ''e1'' ''sage_mend'')) = Inr (w', b')
         \<and> map ustats (enemies b') = map ustats attackEnemies
         \<and> statOf hp w' (attackEnemies ! 0) = Some 20
         \<and> statOf mp w' (attackEnemies ! 0) = Some 5)"
proof -
  let ?R = "runOperations (started attackStore attackParty attackEnemies) counterOperations"
  let ?c = "makeCommand ''e1'' ''e1'' ''sage_mend''"
  let ?g = "makeUnit ''e1'' ''Goblin'' 1"
  let ?r = "\<lparr>rkind = KEnemy, rid = ''e1''\<rparr>"
  have c: "createBattle codeUnitCompare attackStore (Some attackParty) (Some attackEnemies) ''battle_1''
     = Inr (started attackStore attackParty attackEnemies)"
    by (rule createBattle_started [of _ "''party1''"]) (simp add: attackParty_def makeParty_def)
  have run: "?R = (fst ?R, snd ?R)" by simp
  have h3: "state (snd ?R) = in_progress" using attack_run by blast
  have h4: "lookupAbility (abilityId ?c) = Some sageMend"
    by (simp add: makeCommand_def lookup_sage_mend)
  have h5: "abilityId ?c \<noteq> Some ''flee''" by (simp add: makeCommand_def)
  have h6: "activeRef (snd ?R) = Some ?r" using attack_run by blast
  have h7: "sourceId ?c = Some (rid ?r)" by (simp add: makeCommand_def)
  have en: "enemies (snd ?R) = attackEnemies" "bid (snd ?R) = ''battle_1''"
    "partyByBattleId (fst ?R) ''battle_1'' = Some attackParty"
    using attack_run by blast+
  have sh: "statsHeap (fst ?R) 1 = makeStats 6 20 10 10 10 0 10 1 0 0" using attack_run by blast
  have f: "findUnitInBattle (fst ?R) (snd ?R) (Some ''e1'') = Some (KEnemy, ?g)"
    unfolding findUnitInBattle_def partyMembers_def getPartyForBattle_def en
    by (simp add: attackParty_def attackEnemies_def makeParty_def makeUnit_def)
  have h8: "findUnitInBattle (fst ?R) (snd ?R) (sourceId ?c) = Some (KEnemy, ?g)"
    using f by (simp add: makeCommand_def)
  have h9: "findUnitInBattle (fst ?R) (snd ?R) (targetId ?c) = Some (KEnemy, ?g)"
    using f by (simp add: makeCommand_def)
  have t0: "attackEnemies ! 0 = ?g" by (simp add: attackEnemies_def)
  have st: "\<And>f. statOf f (fst ?R) ?g = f (makeStats 6 20 10 10 10 0 10 1 0 0)"
    using sh by (simp add: statOf_def statsOf_def makeUnit_def)
  have hp0: "statOf hp attackStore (attackEnemies ! 0) = Some 20"
    by (simp add: t0 scenario_eval attackStore_def)
  have hp1: "statOf hp (fst ?R) (attackEnemies ! 0) = Some 6"
    unfolding t0 st by (simp add: makeStats_def)
  have mp1: "statOf mp (fst ?R) (attackEnemies ! 0) = Some 10"
    unfolding t0 st by (simp add: makeStats_def)
  have h10: "mpCost sageMend \<le> 0 \<or> (\<exists>m. statOf mp (fst ?R) ?g = Some m \<and> mpCost sageMend \<le> m)"
    unfolding st by (simp add: makeStats_def mkAbility_def)
  from enemy_templates_share_stats [OF c run h3 h4 h5 h6 h7 h8 h9 h10]
  obtain w' b' i j where
    x: "executeCommand (fst ?R) (Some (snd ?R)) (Some ?c) = Inr (w', b')"
    and m: "map ustats (enemies b') = map ustats attackEnemies"
    and i: "i < length attackEnemies"
    and hp': "statOf hp w' (attackEnemies ! i) =
                (if apower sageMend > 0
                 then map_option (\<lambda>h. clamped (statOf maxHp (fst ?R) (attackEnemies ! i))
                                   (if isHealingTarget sageMend then h + healAmount (fst ?R) sageMend ?g ?g
                                    else max 0 (h - damageAmount (fst ?R) sageMend ?g ?g)))
                        (statOf hp (fst ?R) (attackEnemies ! i))
                 else statOf hp (fst ?R) (attackEnemies ! i))"
    and j: "j < length attackEnemies"
    and mp': "statOf mp w' (attackEnemies ! j) =
                (if mpCost sageMend > 0
                 then Some (max 0 (numOr0 (statOf mp (fst ?R) (attackEnemies ! j)) - mpCost sageMend))
                 else statOf mp (fst ?R) (attackEnemies ! j))"
    by blast
  have i0: "i = 0" "j = 0" using i j by (simp_all add: attackEnemies_def)
  have r1: "statOf hp w' (attackEnemies ! 0) = Some 20"
    using hp' unfolding i0 t0 healAmount_def st
    by (simp add: makeStats_def mkAbility_def isHealingTarget_def clamped_def
        numOr0_def getUnitElement_def makeUnit_def)
  have r2: "statOf mp w' (attackEnemies ! 0) = Some 5"
    using mp' unfolding i0 t0 st
    by (simp add: makeStats_def mkAbility_def numOr0_def)
  from x m r1 r2 have "\<exists>w' b'. executeCommand (fst ?R) (Some (snd ?R)) (Some ?c) = Inr (w', b')
         \<and> map ustats (enemies b') = map ustats attackEnemies
         \<and> statOf hp w' (attackEnemies ! 0) = Some 20
         \<and> statOf mp w' (attackEnemies ! 0) = Some 5"
    by blast
  with c h3 h4 h6 f hp0 hp1 mp1 show ?thesis by (intro conjI)
qed

end
